(* ===== verification/Prelude.thy ===== *)
theory Prelude
  imports Main "HOL-Library.Word"
begin

text \<open>
  Shared vocabulary of the development: the machine types of the C sources, the error
  result type, and the list and option facts every component uses. C strings are
  Isabelle strings without the terminating NUL; a pointer that may be NULL is an option.
  Allocation is taken to succeed: the out-of-memory branches of the sources are not
  modelled anywhere.
\<close>

unbundle bit_operations_syntax

named_theorems json_intro \<comment> \<open>closure rules of the JSON grammar\<close>
named_theorems json_print \<comment> \<open>printed text as an application of a grammar rule\<close>
named_theorems typing \<comment> \<open>a produced value has the type its producer promises\<close>

type_synonym byte = "8 word"
type_synonym u16 = "16 word"
type_synonym u32 = "32 word"
type_synonym u64 = "64 word"
type_synonym cstr = "string option" \<comment> \<open>const char *, None for NULL\<close>

text \<open>The result of a fallible C function: a message (errBuf) or a value.\<close>

type_synonym 'a res = "string + 'a"

abbreviation Fail :: "string \<Rightarrow> 'a res" where
  "Fail \<equiv> Inl"

abbreviation Ok :: "'a \<Rightarrow> 'a res" where
  "Ok \<equiv> Inr"

definition byte_of_char :: "char \<Rightarrow> byte" where
  "byte_of_char c = word_of_nat (of_char c)"

definition char_of_byte :: "byte \<Rightarrow> char" where
  "char_of_byte b = char_of (unat b)"

lemma char_of_byte_of_char [simp]: "char_of_byte (byte_of_char c) = c"
  by (simp add: char_of_byte_def byte_of_char_def unat_of_nat)

lemma byte_of_char_of_byte [simp]: "byte_of_char (char_of_byte b) = b"
proof -
  have "unat b < 2 ^ LENGTH(8)" by (rule unsigned_less)
  then show ?thesis by (simp add: char_of_byte_def byte_of_char_def)
qed

text \<open>strncmp (s, p, strlen p) == 0.\<close>

fun starts_with :: "string \<Rightarrow> string \<Rightarrow> bool" where
  "starts_with [] s = True"
| "starts_with (p # ps) [] = False"
| "starts_with (p # ps) (c # cs) = (p = c \<and> starts_with ps cs)"

text \<open>strchr: the text before the first occurrence of c, and the text from it on.\<close>

fun strchr :: "char \<Rightarrow> string \<Rightarrow> (string \<times> string) option" where
  "strchr c [] = None"
| "strchr c (x # xs) = (if x = c then Some ([], x # xs)
     else map_option (\<lambda>(a, b). (x # a, b)) (strchr c xs))"

lemma starts_with_iff: "starts_with p s \<longleftrightarrow> (\<exists>r. s = p @ r)"
  by (induction p s rule: starts_with.induct) auto

lemma starts_with_append [simp]: "starts_with p (p @ s)"
  by (simp add: starts_with_iff)

lemma strchr_Some: "strchr c s = Some (a, b) \<Longrightarrow> s = a @ b \<and> c \<notin> set a \<and> (\<exists>r. b = c # r)"
  by (induction s arbitrary: a b) (auto split: if_splits)

lemma strchr_None: "strchr c s = None \<longleftrightarrow> c \<notin> set s"
  by (induction s) auto

lemma strchr_append [simp]: "c \<notin> set a \<Longrightarrow> strchr c (a @ c # b) = Some (a, c # b)"
  by (induction a) auto

text \<open>Joining with commas, as the printing loops do (\<open>if (i > 0) printf (",")\<close>).\<close>

fun join_comma :: "string list \<Rightarrow> string" where
  "join_comma [] = []"
| "join_comma [x] = x"
| "join_comma (x # y # ys) = x @ '','' @ join_comma (y # ys)"

lemma join_comma_Cons: "xs \<noteq> [] \<Longrightarrow> join_comma (x # xs) = x @ '','' @ join_comma xs"
  by (cases xs) auto

text \<open>Running a fallible function over a list, stopping at the first failure.\<close>

fun map_res :: "('a \<Rightarrow> 'b res) \<Rightarrow> 'a list \<Rightarrow> 'b list res" where
  "map_res f [] = Ok []"
| "map_res f (x # xs) = (case f x of Inl e \<Rightarrow> Inl e
     | Inr y \<Rightarrow> (case map_res f xs of Inl e \<Rightarrow> Inl e | Inr ys \<Rightarrow> Inr (y # ys)))"

lemma map_res_cong [fundef_cong]:
  "xs = ys \<Longrightarrow> (\<And>x. x \<in> set ys \<Longrightarrow> f x = g x) \<Longrightarrow> map_res f xs = map_res g ys"
  by (induction xs arbitrary: ys) (auto split: sum.splits)

lemma map_res_Ok: "map_res f xs = Inr ys \<longleftrightarrow> list_all2 (\<lambda>x y. f x = Inr y) xs ys"
proof (induction xs arbitrary: ys)
  case (Cons x xs)
  then show ?case by (cases ys; cases "f x"; cases "map_res f xs") auto
qed auto

lemma map_res_length: "map_res f xs = Inr ys \<Longrightarrow> length ys = length xs"
  by (auto simp: map_res_Ok dest: list_all2_lengthD)

lemma map_res_all:
  assumes "map_res f xs = Inr ys" and "\<And>x y. x \<in> set xs \<Longrightarrow> f x = Inr y \<Longrightarrow> P y"
  shows "\<forall>y\<in>set ys. P y"
proof
  fix y assume "y \<in> set ys"
  then obtain i where i: "i < length ys" "y = ys ! i" by (auto simp: in_set_conv_nth)
  from assms(1) have "list_all2 (\<lambda>x y. f x = Inr y) xs ys" by (simp add: map_res_Ok)
  with i have "i < length xs" "f (xs ! i) = Inr y" by (auto simp: list_all2_conv_all_nth)
  then show "P y" using assms(2) [of "xs ! i" y] by simp
qed

text \<open>memcpy into the front of a fixed array.\<close>

definition memcpy_front :: "'a list \<Rightarrow> 'a list \<Rightarrow> 'a list" where
  "memcpy_front dst src = src @ drop (length src) dst"

lemma length_memcpy_front [simp]:
  "length src \<le> length dst \<Longrightarrow> length (memcpy_front dst src) = length dst"
  by (simp add: memcpy_front_def)

end
