(* ===== verification/Base64.thy ===== *)
theory Base64
  imports Prelude
begin

text \<open>
  The Base64 codecs of the adapter. The same decoder is written three times (values.c,
  server.c, client.c) and the same encoder four times (values.c, client.c, output.c and, on
  the growing buffer, part12.c). The decoder works on quadruples and fills an array whose
  size it fixes from the trailing padding; the encoder works on triples. The interface the
  other components use is the locale text_codec: a printer and a parser that reads its
  output back.
\<close>

section \<open>The interface: a printer and a parser\<close>

locale text_codec =
  fixes enc :: "'a \<Rightarrow> string" and dec :: "string \<Rightarrow> 'a option" and good :: "'a \<Rightarrow> bool"
  assumes dec_enc: "good x \<Longrightarrow> dec (enc x) = Some x"
begin

lemma enc_inj: "good x \<Longrightarrow> good y \<Longrightarrow> enc x = enc y \<Longrightarrow> x = y"
  by (metis dec_enc option.inject)

lemma enc_neq: "good x \<Longrightarrow> dec s = None \<Longrightarrow> enc x \<noteq> s"
  using dec_enc [of x] by auto

end

text \<open>A codec whose printed form stays inside an alphabet, so that it can be embedded in a
  larger text and cut out again.\<close>

locale alphabet_codec = text_codec +
  fixes alphabet :: "char set"
  assumes enc_alphabet: "good x \<Longrightarrow> set (enc x) \<subseteq> alphabet"
begin

lemma enc_avoids: "good x \<Longrightarrow> c \<notin> alphabet \<Longrightarrow> c \<notin> set (enc x)"
  using enc_alphabet [of x] by auto

lemma strchr_enc: "good x \<Longrightarrow> c \<notin> alphabet \<Longrightarrow> strchr c (enc x @ c # r) = Some (enc x, c # r)"
  by (simp add: enc_avoids)

end

section \<open>Decoding\<close>

text \<open>Characters compare by their code, as C chars do on ASCII input.\<close>

definition in_range :: "char \<Rightarrow> char \<Rightarrow> char \<Rightarrow> bool" where
  "in_range lo hi c \<longleftrightarrow> of_char lo \<le> (of_char c :: int) \<and> of_char c \<le> (of_char hi :: int)"

definition b64_val :: "char \<Rightarrow> int" where
  "b64_val c =
    (if in_range CHR ''A'' CHR ''Z'' c then of_char c - of_char CHR ''A''
     else if in_range CHR ''a'' CHR ''z'' c then of_char c - of_char CHR ''a'' + 26
     else if in_range CHR ''0'' CHR ''9'' c then of_char c - of_char CHR ''0'' + 52
     else if c = CHR ''+'' then 62
     else if c = CHR ''/'' then 63
     else -1)"

text \<open>\<open>if (j < n) out[j++] = x\<close>, with out the bytes written so far and j its length.\<close>

definition put :: "nat \<Rightarrow> byte \<Rightarrow> byte list \<Rightarrow> byte list" where
  "put n x out = (if length out < n then out @ [x] else out)"

definition b64_or_pad :: "char \<Rightarrow> int" where
  "b64_or_pad c = (if c = CHR ''='' then 0 else b64_val c)"

definition quad_bytes :: "int \<Rightarrow> int \<Rightarrow> int \<Rightarrow> int \<Rightarrow> byte list" where
  "quad_bytes a b c d =
    [word_of_int (push_bit 2 a OR drop_bit 4 b),
     word_of_int (push_bit 4 (b AND 15) OR drop_bit 2 c),
     word_of_int (push_bit 6 (c AND 3) OR d)]"

fun b64_decode_loop :: "nat \<Rightarrow> string \<Rightarrow> byte list \<Rightarrow> byte list option" where
  "b64_decode_loop n (c0 # c1 # c2 # c3 # rest) out =
    (let a = b64_val c0; b = b64_val c1; c = b64_or_pad c2; d = b64_or_pad c3 in
     if a < 0 \<or> b < 0 \<or> c < 0 \<or> d < 0 then None
     else b64_decode_loop n rest (fold (put n) (quad_bytes a b c d) out))"
| "b64_decode_loop n _ out = Some out"

definition value_b64_decode :: "cstr \<Rightarrow> byte list option" where
  "value_b64_decode inp = (case inp of None \<Rightarrow> None
     | Some s \<Rightarrow>
        let inLen = length s in
        if inLen = 0 then Some []
        else if inLen mod 4 \<noteq> 0 then None
        else
          let n = inLen div 4 * 3;
              n = (if s ! (inLen - 1) = CHR ''='' then n - 1 else n);
              n = (if s ! (inLen - 2) = CHR ''='' then n - 1 else n)
          in b64_decode_loop n s [])"

definition server_b64_decode :: "cstr \<Rightarrow> byte list option" where
  "server_b64_decode inp = (case inp of None \<Rightarrow> None
     | Some s \<Rightarrow>
        let inLen = length s in
        if inLen = 0 then Some []
        else if inLen mod 4 \<noteq> 0 then None
        else
          let outLen = inLen div 4 * 3;
              outLen = (if s ! (inLen - 1) = CHR ''='' then outLen - 1 else outLen);
              outLen = (if s ! (inLen - 2) = CHR ''='' then outLen - 1 else outLen)
          in b64_decode_loop outLen s [])"

definition client_b64_decode :: "cstr \<Rightarrow> byte list option" where
  "client_b64_decode inp = (case inp of None \<Rightarrow> None
     | Some s \<Rightarrow>
        let inLen = length s in
        if inLen = 0 then Some []
        else if inLen mod 4 \<noteq> 0 then None
        else
          let outLen = inLen div 4 * 3;
              outLen = (if s ! (inLen - 1) = CHR ''='' then outLen - 1 else outLen);
              outLen = (if 2 \<le> inLen \<and> s ! (inLen - 2) = CHR ''='' then outLen - 1 else outLen)
          in b64_decode_loop outLen s [])"

section \<open>Encoding\<close>

definition b64_table :: string where
  "b64_table = ''ABCDEFGHIJKLMNOPQRSTUVWXYZabcdefghijklmnopqrstuvwxyz0123456789+/''"

text \<open>One iteration of the encoders' loop on data + i: the bytes beyond the end read as 0,
  and their characters are the padding.\<close>

definition sext1 :: "byte \<Rightarrow> int" where
  "sext1 a = drop_bit 2 (uint a)"

definition sext2 :: "byte \<Rightarrow> byte \<Rightarrow> int" where
  "sext2 a b = (push_bit 4 (uint a AND 3) OR drop_bit 4 (uint b))"

definition sext3 :: "byte \<Rightarrow> byte \<Rightarrow> int" where
  "sext3 b c = (push_bit 2 (uint b AND 15) OR drop_bit 6 (uint c))"

definition sext4 :: "byte \<Rightarrow> int" where
  "sext4 c = uint c AND 63"

definition b64_group :: "byte list \<Rightarrow> string" where
  "b64_group data =
    (let a = data ! 0;
         b = (if 1 < length data then data ! 1 else 0);
         c = (if 2 < length data then data ! 2 else 0)
     in [b64_table ! nat (sext1 a),
         b64_table ! nat (sext2 a b),
         (if 1 < length data then b64_table ! nat (sext3 b c) else CHR ''=''),
         (if 2 < length data then b64_table ! nat (sext4 c) else CHR ''='')])"

fun value_b64_encode :: "byte list \<Rightarrow> string" where
  "value_b64_encode data =
    (if data = [] then [] else b64_group data @ value_b64_encode (drop 3 data))"

declare value_b64_encode.simps [simp del]

text \<open>print_base64 of output.c sends the same characters to stdout one by one.\<close>

fun print_base64 :: "byte list \<Rightarrow> string \<Rightarrow> string" where
  "print_base64 data stdout_text =
    (if data = [] then stdout_text
     else print_base64 (drop 3 data) (stdout_text @ b64_group data))"

declare print_base64.simps [simp del]

text \<open>b64_encode of client.c.\<close>

fun client_b64_encode :: "byte list \<Rightarrow> string" where
  "client_b64_encode data =
    (if data = [] then [] else b64_group data @ client_b64_encode (drop 3 data))"

declare client_b64_encode.simps [simp del]

section \<open>The decoder fills its array exactly\<close>

lemma fold_put: "fold (put n) xs (take n ys) = take n (ys @ xs)"
proof (induction xs arbitrary: ys)
  case (Cons x xs)
  have "put n x (take n ys) = take n (ys @ [x])" by (auto simp: put_def min_def)
  then show ?case using Cons.IH [of "ys @ [x]"] by simp
qed simp

lemma length_quad_bytes [simp]: "length (quad_bytes a b c d) = 3"
  by (simp add: quad_bytes_def)

text \<open>The unguarded decoding of all quadruples.\<close>

fun quads :: "string \<Rightarrow> byte list option" where
  "quads (c0 # c1 # c2 # c3 # rest) =
    (if b64_val c0 < 0 \<or> b64_val c1 < 0 \<or> b64_or_pad c2 < 0 \<or> b64_or_pad c3 < 0 then None
     else map_option ((@) (quad_bytes (b64_val c0) (b64_val c1) (b64_or_pad c2) (b64_or_pad c3)))
       (quads rest))"
| "quads _ = Some []"

lemma b64_decode_loop_quads:
  "b64_decode_loop n s (take n out) = map_option (\<lambda>bs. take n (out @ bs)) (quads s)"
proof (induction s arbitrary: out rule: quads.induct)
  case (1 c0 c1 c2 c3 rest)
  let ?q = "quad_bytes (b64_val c0) (b64_val c1) (b64_or_pad c2) (b64_or_pad c3)"
  show ?case
  proof (cases "b64_val c0 < 0 \<or> b64_val c1 < 0 \<or> b64_or_pad c2 < 0 \<or> b64_or_pad c3 < 0")
    case False
    from 1 [OF False, of "out @ ?q"] False show ?thesis
      by (simp add: Let_def fold_put option.map_comp o_def)
  qed (auto simp: Let_def)
qed simp_all

lemma b64_decode_loop_Nil: "b64_decode_loop n s [] = map_option (take n) (quads s)"
  using b64_decode_loop_quads [of n s "[]"] by simp

lemma length_quads: "quads s = Some bs \<Longrightarrow> length bs = length s div 4 * 3"
  by (induction s arbitrary: bs rule: quads.induct) (auto split: if_splits simp: div_add_self1)

definition padding :: "string \<Rightarrow> nat" where
  "padding s = (if s ! (length s - 1) = CHR ''='' then 1 else 0)
     + (if s ! (length s - 2) = CHR ''='' then 1 else 0)"

lemma value_b64_decode_quads:
  "value_b64_decode (Some s) =
    (if s = [] then Some [] else if length s mod 4 \<noteq> 0 then None
     else map_option (take (length s div 4 * 3 - padding s)) (quads s))"
  by (auto simp: value_b64_decode_def Let_def b64_decode_loop_Nil padding_def numeral_2_eq_2)

lemma value_b64_decode_length:
  "value_b64_decode (Some s) = Some bs \<Longrightarrow>
    length bs = (if s = [] then 0 else length s div 4 * 3 - padding s)"
  by (auto simp: value_b64_decode_quads dest!: length_quads split: if_splits)

section \<open>What the decoder accepts\<close>

definition b64_text :: "string \<Rightarrow> bool" where
  "b64_text s \<longleftrightarrow> length s mod 4 = 0 \<and>
    (\<forall>i < length s. 0 \<le> b64_val (s ! i) \<or> s ! i = CHR ''='' \<and> 2 \<le> i mod 4)"

lemma all_less_4: "(\<forall>i < Suc (Suc (Suc (Suc n))). P i) \<longleftrightarrow>
    P 0 \<and> P 1 \<and> P 2 \<and> P 3 \<and> (\<forall>i < n. P (i + 4))"
proof -
  have "(\<forall>i < Suc (Suc (Suc (Suc n))). P i) \<longleftrightarrow> P 0 \<and> P 1 \<and> P 2 \<and> P 3 \<and> (\<forall>i < n. P (Suc (Suc (Suc (Suc i)))))"
    by (simp add: All_less_Suc2 numeral_2_eq_2 numeral_3_eq_3)
  then show ?thesis by (simp add: numeral_eq_Suc)
qed

lemma nth_Cons4: "(c0 # c1 # c2 # c3 # r) ! (i + 4) = r ! i"
proof -
  have "i + 4 = Suc (Suc (Suc (Suc i)))" by simp
  then show ?thesis by (simp only: nth_Cons_Suc)
qed

lemma b64_text_Cons4:
  "b64_text (c0 # c1 # c2 # c3 # r) \<longleftrightarrow>
    0 \<le> b64_val c0 \<and> 0 \<le> b64_val c1 \<and> 0 \<le> b64_or_pad c2 \<and> 0 \<le> b64_or_pad c3 \<and> b64_text r"
proof -
  have "length (c0 # c1 # c2 # c3 # r) = length r + 4" by simp
  then have "length (c0 # c1 # c2 # c3 # r) mod 4 = length r mod 4" by (simp only: mod_add_self2)
  moreover have "length (c0 # c1 # c2 # c3 # r) = Suc (Suc (Suc (Suc (length r))))" by simp
  ultimately show ?thesis
    unfolding b64_text_def
    by (simp only: all_less_4 nth_Cons4 mod_add_self2) (simp add: b64_or_pad_def, blast)
qed

lemma quads_accepts: "length s mod 4 = 0 \<Longrightarrow> (quads s \<noteq> None) = b64_text s"
proof (induction s rule: quads.induct)
  case (1 c0 c1 c2 c3 r)
  then have "(length r + 4) mod 4 = 0" by simp
  then have "length r mod 4 = 0" by (simp only: mod_add_self2)
  with 1 show ?case by (auto simp: b64_text_Cons4 not_less)
qed (auto simp: b64_text_def)

section \<open>Round trip\<close>

lemma map_b64_val_table: "map b64_val b64_table = map int [0..<64]"
  by (simp add: b64_table_def b64_val_def in_range_def upt_conv_Cons)

lemma length_b64_table: "length b64_table = 64"
  by (simp add: b64_table_def)

lemma b64_val_table: "i < 64 \<Longrightarrow> b64_val (b64_table ! i) = int i"
  using arg_cong [OF map_b64_val_table, of "\<lambda>xs. xs ! i"] by (simp add: length_b64_table)

lemma b64_table_not_pad: "i < 64 \<Longrightarrow> b64_table ! i \<noteq> CHR ''=''"
proof -
  have "CHR ''='' \<notin> set b64_table" by (simp add: b64_table_def)
  then show "i < 64 \<Longrightarrow> b64_table ! i \<noteq> CHR ''=''" by (metis length_b64_table nth_mem)
qed

lemma and_masks:
  "(x::int) AND 3 = take_bit 2 x" "x AND 15 = take_bit 4 x" "x AND 63 = take_bit 6 x"
  by (simp_all add: take_bit_eq_mask mask_eq_exp_minus_1)

lemma bit_uint_byte: "bit (uint (a :: byte)) n \<longleftrightarrow> n < 8 \<and> bit a n"
  using bit_imp_le_length [of a n] by (auto simp: bit_uint_iff)

lemma bit_byte_high: "bit (a :: byte) n \<Longrightarrow> n < 8"
  using bit_imp_le_length [of a n] by auto

lemma Suc_Suc_minus_2: "2 \<le> n \<Longrightarrow> Suc (Suc (n - 2)) = n"
  by simp

lemmas sext_defs = sext1_def sext2_def sext3_def sext4_def and_masks

lemma quad_byte_1: "word_of_int (push_bit 2 (sext1 a) OR drop_bit 4 (sext2 a b)) = a"
proof (rule bit_word_eqI)
  fix n assume "n < LENGTH(8)"
  then show "bit (word_of_int (push_bit 2 (sext1 a) OR drop_bit 4 (sext2 a b)) :: byte) n = bit a n"
    by (cases "n < 2") (auto simp: sext_defs bit_simps bit_uint_byte not_less Suc_Suc_minus_2 dest: bit_byte_high)
qed

lemma quad_byte_2: "word_of_int (push_bit 4 (sext2 a b AND 15) OR drop_bit 2 (sext3 b c)) = b"
proof (rule bit_word_eqI)
  fix n assume "n < LENGTH(8)"
  then show "bit (word_of_int (push_bit 4 (sext2 a b AND 15) OR drop_bit 2 (sext3 b c)) :: byte) n = bit b n"
    by (cases "n < 4") (auto simp: sext_defs bit_simps bit_uint_byte not_less dest: bit_byte_high)
qed

lemma quad_byte_3: "word_of_int (push_bit 6 (sext3 b c AND 3) OR sext4 c) = c"
proof (rule bit_word_eqI)
  fix n assume "n < LENGTH(8)"
  then show "bit (word_of_int (push_bit 6 (sext3 b c AND 3) OR sext4 c) :: byte) n = bit c n"
    by (cases "n < 6") (auto simp: sext_defs bit_simps bit_uint_byte not_less dest: bit_byte_high)
qed

lemma quad_bytes_sext: "quad_bytes (sext1 a) (sext2 a b) (sext3 b c) (sext4 c) = [a, b, c]"
  by (simp only: quad_bytes_def quad_byte_1 quad_byte_2 quad_byte_3)

lemma sext_zero: "sext3 0 0 = 0" "sext4 0 = 0"
  by (simp_all add: sext_defs)

lemma uint_byte_bounds: "0 \<le> uint (x :: byte)" "uint (x :: byte) < 256"
  using uint_bounded [of x] by simp_all

lemma sext_nonneg: "0 \<le> sext1 a" "0 \<le> sext2 a b" "0 \<le> sext3 a b" "0 \<le> sext4 a"
  by (simp_all add: sext_defs)

lemma sext_not_neg: "\<not> sext1 a < 0" "\<not> sext2 a b < 0" "\<not> sext3 a b < 0" "\<not> sext4 a < 0"
  by (simp_all add: sext_nonneg not_less)

lemma sext_less: "sext1 a < 64" "sext2 a b < 64" "sext3 a b < 64" "sext4 a < 64"
proof -
  note u = uint_byte_bounds [of a] uint_byte_bounds [of b]
  show "sext1 a < 64" using u by (simp add: sext_defs drop_bit_eq_div)
  show "sext4 a < 64" using take_bit_int_less_exp [of 6 "uint a"] by (simp add: sext_defs)
  have "sext2 a b < 2 ^ 6"
    using take_bit_int_less_exp [of 2 "uint a"] u unfolding sext_defs
    by (intro OR_upper) (simp_all add: push_bit_eq_mult drop_bit_eq_div)
  then show "sext2 a b < 64" by simp
  have "sext3 a b < 2 ^ 6"
    using take_bit_int_less_exp [of 4 "uint a"] u unfolding sext_defs
    by (intro OR_upper) (simp_all add: push_bit_eq_mult drop_bit_eq_div)
  then show "sext3 a b < 64" by simp
qed

lemma b64_table_sext:
  assumes "0 \<le> i" "i < 64"
  shows "b64_val (b64_table ! nat i) = i" "b64_or_pad (b64_table ! nat i) = i" "b64_table ! nat i \<noteq> CHR ''=''"
  using assms b64_val_table [of "nat i"] b64_table_not_pad [of "nat i"] by (simp_all add: b64_or_pad_def)

lemmas table_sexts = sext_not_neg
  b64_table_sext [OF sext_nonneg(1) sext_less(1)] b64_table_sext [OF sext_nonneg(2) sext_less(2)]
  b64_table_sext [OF sext_nonneg(3) sext_less(3)] b64_table_sext [OF sext_nonneg(4) sext_less(4)]

text \<open>Decoding one encoded group of three, two or one bytes.\<close>

lemma quads_group_3: "quads (b64_group (a # b # c # r) @ s) = map_option ((@) [a, b, c]) (quads s)"
  by (simp add: b64_group_def table_sexts quad_bytes_sext not_less)

lemma b64_or_pad_eq [simp]: "b64_or_pad CHR ''='' = 0"
  by (simp add: b64_or_pad_def)

lemma quads_group_2: "\<exists>z. quads (b64_group [a, b]) = Some [a, b, z]"
proof -
  have "quad_bytes (sext1 a) (sext2 a b) (sext3 b 0) 0 = [a, b, 0]"
    using quad_bytes_sext [of a b 0] by (simp add: sext_zero)
  then show ?thesis by (simp add: b64_group_def table_sexts not_less)
qed

lemma quads_group_1: "\<exists>y z. quads (b64_group [a]) = Some [a, y, z]"
proof -
  have "quad_bytes (sext1 a) (sext2 a 0) 0 0 = [a, 0, 0]"
    using quad_bytes_sext [of a 0 0] by (simp add: sext_zero)
  then show ?thesis by (simp add: b64_group_def table_sexts not_less)
qed

text \<open>The encoding as a whole: what its quadruples decode to, and its padding.\<close>

lemma value_b64_encode_simps [simp]:
  "value_b64_encode [] = []"
  "value_b64_encode [a] = b64_group [a]"
  "value_b64_encode [a, b] = b64_group [a, b]"
  "value_b64_encode (a # b # c # r) = b64_group (a # b # c # r) @ value_b64_encode r"
  by (subst value_b64_encode.simps, simp add: value_b64_encode.simps [of "[]"])+

fun triples :: "byte list \<Rightarrow> byte list" where
  "triples [] = []"
| "triples [a] = [a]"
| "triples [a, b] = [a, b]"
| "triples (a # b # c # r) = triples r"

lemma length_b64_group [simp]: "length (b64_group xs) = 4"
  by (simp add: b64_group_def Let_def)

lemma length_value_b64_encode: "length (value_b64_encode bs) = (length bs + 2) div 3 * 4"
proof (induction bs rule: triples.induct)
  case (4 a b c r)
  have "(length (a # b # c # r) + 2) div 3 = (length r + 2) div 3 + 1" by simp
  with 4 show ?case by (simp only: value_b64_encode_simps length_append length_b64_group)
      (simp add: algebra_simps)
qed simp_all

lemma quads_encode:
  "\<exists>ys. quads (value_b64_encode bs) = Some (bs @ ys) \<and> length ys = (3 - length bs mod 3) mod 3"
proof (induction bs rule: triples.induct)
  case (4 a b c r)
  have "length (a # b # c # r) mod 3 = length r mod 3" by simp
  with 4 show ?case by (auto simp: quads_group_3)
next
  case (3 a b)
  then show ?case using quads_group_2 [of a b] by auto
next
  case (2 a)
  then show ?case using quads_group_1 [of a] by auto
qed simp_all

lemma padding_append: "2 \<le> length t \<Longrightarrow> padding (s @ t) = padding t"
proof -
  assume "2 \<le> length t"
  then have "length (s @ t) - 1 = length s + (length t - 1)" "length (s @ t) - 2 = length s + (length t - 2)"
    by simp_all
  then show ?thesis by (simp only: padding_def nth_append_length_plus)
qed

lemma padding_encode: "bs \<noteq> [] \<Longrightarrow> padding (value_b64_encode bs) = (3 - length bs mod 3) mod 3"
proof (induction bs rule: triples.induct)
  case (4 a b c r)
  have m: "length (a # b # c # r) mod 3 = length r mod 3" by simp
  show ?case
  proof (cases r)
    case Nil
    then show ?thesis by (simp add: padding_def b64_group_def table_sexts)
  next
    case (Cons x xs)
    then have "2 \<le> length (value_b64_encode r)" by (simp add: length_value_b64_encode)
    moreover have "padding (value_b64_encode r) = (3 - length r mod 3) mod 3"
      by (rule 4) (simp add: Cons)
    ultimately show ?thesis by (simp only: value_b64_encode_simps padding_append m)
  qed
next
  case (3 a b)
  then show ?case by (simp add: padding_def b64_group_def table_sexts)
next
  case (2 a)
  then show ?case by (simp add: padding_def b64_group_def table_sexts)
qed simp

lemma decode_encode: "value_b64_decode (Some (value_b64_encode bs)) = Some bs"
proof (cases "bs = []")
  case False
  let ?s = "value_b64_encode bs"
  obtain ys where ys: "quads ?s = Some (bs @ ys)" "length ys = padding ?s"
    using quads_encode [of bs] padding_encode [OF False] by auto
  have "length ?s mod 4 = 0" by (simp add: length_value_b64_encode)
  moreover have "?s \<noteq> []" using False by (simp add: value_b64_encode.simps b64_group_def Let_def)
  moreover have "length ?s div 4 * 3 - padding ?s = length bs"
    using length_quads [OF ys(1)] ys(2) by simp
  ultimately show ?thesis using ys(1) by (simp add: value_b64_decode_quads)
qed (simp add: value_b64_decode_def)

section \<open>The variants\<close>

lemma print_base64_encode: "print_base64 data out = out @ value_b64_encode data"
proof (induction data out rule: print_base64.induct)
  case (1 data out)
  then show ?case by (subst print_base64.simps, subst value_b64_encode.simps) simp
qed

lemma client_encode: "client_b64_encode data = value_b64_encode data"
proof (induction data rule: client_b64_encode.induct)
  case (1 data)
  then show ?case by (subst client_b64_encode.simps, subst value_b64_encode.simps) simp
qed

lemma server_decode: "server_b64_decode s = value_b64_decode s"
  by (simp add: server_b64_decode_def value_b64_decode_def)

lemma client_decode: "client_b64_decode s = value_b64_decode s"
proof -
  have "0 < n \<Longrightarrow> n mod 4 = 0 \<Longrightarrow> 2 \<le> n" for n :: nat
    by (cases "n = 1") auto
  then show ?thesis
    by (auto simp: client_b64_decode_def value_b64_decode_def Let_def split: option.splits)
qed

definition b64_alphabet :: "char set" where
  "b64_alphabet = insert CHR ''='' (set b64_table)"

lemma group_alphabet: "set (b64_group xs) \<subseteq> b64_alphabet"
  using sext_nonneg sext_less
  by (auto simp: b64_group_def Let_def b64_alphabet_def length_b64_table nat_less_iff intro!: nth_mem)

lemma encode_alphabet: "set (value_b64_encode bs) \<subseteq> b64_alphabet"
proof (induction bs rule: value_b64_encode.induct)
  case (1 bs)
  then show ?case using group_alphabet [of bs] by (subst value_b64_encode.simps) auto
qed

interpretation b64: alphabet_codec value_b64_encode "\<lambda>s. value_b64_decode (Some s)" "\<lambda>_. True" b64_alphabet
  by unfold_locales (simp_all add: decode_encode encode_alphabet)

text \<open>C25 Base64 round trip: every byte string, printed by any of the encoders (values.c, client.c,
  output.c), is read back unchanged by each of the three decoders (values.c, server.c, client.c).\<close>

theorem b64_roundtrip:
  fixes bs :: "byte list"
  assumes "s \<in> {value_b64_encode bs, client_b64_encode bs, print_base64 bs []}"
  shows "value_b64_decode (Some s) = Some bs \<and> server_b64_decode (Some s) = Some bs
    \<and> client_b64_decode (Some s) = Some bs"
  using assms by (auto simp: server_decode client_decode client_encode print_base64_encode decode_encode)

theorem b64_roundtrip_witness:
  "server_b64_decode (Some (client_b64_encode [77, 97, 110, 255])) = Some [77, 97, 110, 255]"
  using b64_roundtrip [of "client_b64_encode [77, 97, 110, 255]" "[77, 97, 110, 255]"] by simp

text \<open>The decoder accepts exactly the texts of whole quadruples whose characters are in the
  Base64 alphabet, a padding character being let through at the third and fourth place of any
  quadruple; an accepted text fills the output array exactly: three bytes per quadruple less the
  trailing padding.\<close>

lemma value_b64_decode_spec:
  "(\<exists>bs. value_b64_decode (Some s) = Some bs
      \<and> length bs = (if s = [] then 0 else length s div 4 * 3 - padding s)) \<longleftrightarrow> b64_text s"
proof (cases "s = []")
  case False
  show ?thesis
  proof (cases "length s mod 4 = 0")
    case True
    with False quads_accepts [OF True] show ?thesis
      using value_b64_decode_length [of s] by (auto simp: value_b64_decode_quads)
  qed (auto simp: value_b64_decode_quads b64_text_def False)
qed (auto simp: value_b64_decode_def b64_text_def)
end
