(* ===== verification/Libc.thy ===== *)
theory Libc
  imports Prelude
begin

text \<open>
  The parts of the C library and of the language the adapter relies on, as glibc on a
  64-bit target behaves (the images are Debian): integer scanning (\<open>strtoul\<close>,
  \<open>strtoll\<close>, \<open>atoi\<close>, the \<open>%d\<close> and \<open>%Nx\<close> conversions of \<open>sscanf\<close>),
  integer printing, \<open>strtok_r\<close> with a single delimiter, \<open>timegm\<close> and \<open>mktime\<close>,
  and IEEE doubles with \<open>strtod\<close>, \<open>%g\<close> and \<open>%.17g\<close> (in \<open>Doubles\<close>).
\<close>

subsection \<open>Digits and integer printing\<close>

fun digits_of :: "nat \<Rightarrow> nat \<Rightarrow> nat list" where
  "digits_of b n = (if b < 2 \<or> n < b then [n] else digits_of b (n div b) @ [n mod b])"

declare digits_of.simps [simp del]

definition undigits :: "nat \<Rightarrow> nat list \<Rightarrow> nat" where
  "undigits b ds = foldl (\<lambda>a d. a * b + d) 0 ds"

definition digit_char :: "nat \<Rightarrow> char" where
  "digit_char d = (if d < 10 then char_of (48 + d) else char_of (87 + d))"

definition digit_value :: "char \<Rightarrow> nat option" where
  "digit_value c = (let n = of_char c :: nat in
     if 48 \<le> n \<and> n \<le> 57 then Some (n - 48)
     else if 97 \<le> n \<and> n \<le> 122 then Some (n - 87)
     else if 65 \<le> n \<and> n \<le> 90 then Some (n - 55)
     else None)"

text \<open>\<open>%u\<close>, \<open>%d\<close>, and the zero-padded \<open>%0wu\<close>, \<open>%0wx\<close>.\<close>

definition dec :: "nat \<Rightarrow> string" where
  "dec n = map digit_char (digits_of 10 n)"

definition dec_int :: "int \<Rightarrow> string" where
  "dec_int i = (if i < 0 then ''-'' @ dec (nat (- i)) else dec (nat i))"

definition pad_zero :: "nat \<Rightarrow> string \<Rightarrow> string" where
  "pad_zero w s = replicate (w - length s) (CHR ''0'') @ s"

definition dec_pad :: "nat \<Rightarrow> nat \<Rightarrow> string" where
  "dec_pad w n = pad_zero w (dec n)"

definition hex_pad :: "nat \<Rightarrow> nat \<Rightarrow> string" where
  "hex_pad w n = pad_zero w (map digit_char (digits_of 16 n))"

lemma undigits_Nil [simp]: "undigits b [] = 0"
  by (simp add: undigits_def)

lemma undigits_snoc [simp]: "undigits b (ds @ [d]) = undigits b ds * b + d"
  by (simp add: undigits_def)

lemma undigits_digits_of [simp]: "2 \<le> b \<Longrightarrow> undigits b (digits_of b n) = n"
proof (induction b n rule: digits_of.induct)
  case (1 b n)
  show ?case
  proof (cases "n < b")
    case True
    then show ?thesis by (simp add: digits_of.simps [of b n] undigits_def)
  next
    case False
    with "1" show ?thesis by (simp add: digits_of.simps [of b n])
  qed
qed

lemma digits_of_ne [simp]: "digits_of b n \<noteq> []"
  by (subst digits_of.simps) simp

lemma digits_of_less: "2 \<le> b \<Longrightarrow> d \<in> set (digits_of b n) \<Longrightarrow> d < b"
proof (induction b n rule: digits_of.induct)
  case (1 b n)
  then show ?case
    by (cases "n < b") (auto simp: digits_of.simps [of b n])
qed

lemma hd_digits_of: "2 \<le> b \<Longrightarrow> 0 < n \<Longrightarrow> hd (digits_of b n) \<noteq> 0"
proof (induction b n rule: digits_of.induct)
  case (1 b n)
  show ?case
  proof (cases "n < b")
    case True
    with "1.prems" show ?thesis by (simp add: digits_of.simps [of b n])
  next
    case False
    with "1.prems" have "0 < n div b" by (simp add: div_greater_zero_iff)
    with "1" False show ?thesis by (simp add: digits_of.simps [of b n])
  qed
qed

lemma length_digits_of: "2 \<le> b \<Longrightarrow> n < b ^ w \<Longrightarrow> 0 < w \<Longrightarrow> length (digits_of b n) \<le> w"
proof (induction b n arbitrary: w rule: digits_of.induct)
  case (1 b n)
  show ?case
  proof (cases "n < b")
    case True
    with "1.prems" show ?thesis by (simp add: digits_of.simps [of b n])
  next
    case False
    with "1.prems" obtain w' where w: "w = Suc w'" "0 < w'"
      by (cases w; cases "w - 1") auto
    with "1.prems" have "n div b < b ^ w'" by (simp add: less_mult_imp_div_less mult.commute)
    with "1" False w show ?thesis by (simp add: digits_of.simps [of b n])
  qed
qed

lemma digit_value_char [simp]: "d < 36 \<Longrightarrow> digit_value (digit_char d) = Some d"
  by (auto simp: digit_value_def digit_char_def Let_def)

lemma undigits_zeros [simp]: "undigits b (replicate k 0 @ ds) = undigits b ds"
proof -
  have "foldl (\<lambda>a d. a * b + d) 0 (replicate k 0) = (0::nat)" by (induction k) auto
  then show ?thesis by (simp add: undigits_def)
qed

lemma digit_char_0: "digit_char 0 = CHR ''0''"
  by code_simp

lemma pad_zero_digits: "pad_zero w (map digit_char ds) =
    map digit_char (replicate (w - length ds) 0 @ ds)"
  by (simp add: pad_zero_def digit_char_0)

lemma dec_ne [simp]: "dec n \<noteq> []"
  by (simp add: dec_def)

lemma length_hex_pad: "n < 16 ^ w \<Longrightarrow> 0 < w \<Longrightarrow> length (hex_pad w n) = w"
  using length_digits_of [of 16 n w] by (simp add: hex_pad_def pad_zero_def)

subsection \<open>Integer scanning\<close>

definition isspace :: "char \<Rightarrow> bool" where
  "isspace c = (let n = of_char c :: nat in n = 32 \<or> (9 \<le> n \<and> n \<le> 13))"

definition isdigit :: "char \<Rightarrow> bool" where
  "isdigit c = (let n = of_char c :: nat in 48 \<le> n \<and> n \<le> 57)"

definition skip_space :: "string \<Rightarrow> string" where
  "skip_space s = dropWhile isspace s"

definition scan_sign :: "string \<Rightarrow> bool \<times> string" where
  "scan_sign s = (case s of [] \<Rightarrow> (False, [])
     | c # cs \<Rightarrow> if c = CHR ''-'' then (True, cs) else if c = CHR ''+'' then (False, cs)
              else (False, s))"

fun scan_digits :: "nat \<Rightarrow> string \<Rightarrow> nat list \<times> string" where
  "scan_digits b [] = ([], [])"
| "scan_digits b (c # cs) = (case digit_value c of
     None \<Rightarrow> ([], c # cs)
   | Some d \<Rightarrow> if d < b then (case scan_digits b cs of (ds, r) \<Rightarrow> (d # ds, r))
             else ([], c # cs))"

text \<open>Base 0 of the \<open>strto\<close> family: 0x selects 16 when a hex digit follows, a leading 0
  selects 8.\<close>

definition is_x :: "char \<Rightarrow> bool" where
  "is_x c \<longleftrightarrow> c = CHR ''x'' \<or> c = CHR ''X''"

definition is_hex_digit :: "char \<Rightarrow> bool" where
  "is_hex_digit c = (case digit_value c of None \<Rightarrow> False | Some d \<Rightarrow> d < 16)"

definition base_prefix :: "nat \<Rightarrow> string \<Rightarrow> nat \<times> string" where
  "base_prefix base s = (if base \<noteq> 0 then (base, s) else
     (case s of
        z # x # h # r \<Rightarrow> if z = CHR ''0'' \<and> is_x x \<and> is_hex_digit h then (16, h # r)
                       else if z = CHR ''0'' then (8, s) else (10, s)
      | z # r \<Rightarrow> if z = CHR ''0'' then (8, s) else (10, s)
      | [] \<Rightarrow> (10, s)))"

text \<open>Sign, magnitude and the text after the number; None when there are no digits.\<close>

definition strto_mag :: "nat \<Rightarrow> string \<Rightarrow> (bool \<times> nat \<times> string) option" where
  "strto_mag base s =
     (case scan_sign (skip_space s) of (neg, r) \<Rightarrow>
      (case base_prefix base r of (b, r') \<Rightarrow>
       (case scan_digits b r' of (ds, rest) \<Rightarrow>
          if ds = [] then None else Some (neg, undigits b ds, rest))))"

text \<open>\<open>strtoul\<close>: the value, \<open>*endptr\<close>, and whether errno is ERANGE. \<open>unsigned long\<close>
  is 64 bits wide; a minus sign negates modulo 2^64.\<close>

definition strtoul :: "nat \<Rightarrow> string \<Rightarrow> u64 \<times> string \<times> bool" where
  "strtoul base s = (case strto_mag base s of
     None \<Rightarrow> (0, s, False)
   | Some (neg, m, rest) \<Rightarrow>
       if 2 ^ 64 \<le> m then (- 1, rest, True)
       else (if neg then - word_of_nat m else word_of_nat m, rest, False))"

definition strtoull :: "string \<Rightarrow> u64" where
  "strtoull s = fst (strtoul 10 s)"

text \<open>\<open>strtol\<close> and \<open>strtoll\<close> in base 10: saturating at the 64-bit bounds.\<close>

definition strtoll :: "string \<Rightarrow> int" where
  "strtoll s = (case strto_mag 10 s of
     None \<Rightarrow> 0
   | Some (neg, m, rest) \<Rightarrow>
       if neg then max (- (2 ^ 63)) (- int m) else min (2 ^ 63 - 1) (int m))"

text \<open>\<open>atoi\<close> is \<open>(int) strtol (s, NULL, 10)\<close>.\<close>

definition atoi :: "string \<Rightarrow> int" where
  "atoi s = signed_take_bit 31 (strtoll s)"

text \<open>\<open>%d\<close> of \<open>sscanf\<close>: like \<open>strtol\<close>, stored as an int; None is a matching failure.\<close>

definition sscanf_d :: "string \<Rightarrow> (int \<times> string) option" where
  "sscanf_d s = (case strto_mag 10 s of
     None \<Rightarrow> None
   | Some (neg, m, rest) \<Rightarrow> Some (atoi s, rest))"

text \<open>A format of \<open>%d\<close> conversions separated by literal characters: the converted
  values in order, and the text after the last conversion.\<close>

fun sscanf_ints :: "string \<Rightarrow> string \<Rightarrow> int list \<times> string" where
  "sscanf_ints [] s = (case sscanf_d s of None \<Rightarrow> ([], s) | Some (v, r) \<Rightarrow> ([v], r))"
| "sscanf_ints (c # cs) s = (case sscanf_d s of
     None \<Rightarrow> ([], s)
   | Some (v, r) \<Rightarrow>
       (case r of [] \<Rightarrow> ([v], r)
        | d # ds \<Rightarrow> if d = c then (case sscanf_ints cs ds of (vs, r') \<Rightarrow> (v # vs, r'))
                  else ([v], r)))"

text \<open>\<open>%Nx\<close>: at most N characters after white space, with an optional sign and an
  optional 0x (glibc takes a bare 0x as zero).\<close>

definition sscanf_x :: "nat \<Rightarrow> string \<Rightarrow> (nat \<times> string) option" where
  "sscanf_x w s =
     (let s1 = skip_space s in
      case scan_sign (take w s1) of (neg, r) \<Rightarrow>
        let sgn = (\<lambda>m. if neg then unat (- word_of_nat m :: u32) else m);
            done = (\<lambda>rest. rest @ drop w s1);
            plain = (case scan_digits 16 r of (ds, rest) \<Rightarrow>
              if ds = [] then None else Some (sgn (undigits 16 ds), done rest))
        in (case r of
             z # x # r2 \<Rightarrow>
               (if z = CHR ''0'' \<and> is_x x
                then (case scan_digits 16 r2 of (ds, rest) \<Rightarrow>
                       Some (sgn (undigits 16 ds), done rest))
                else plain)
           | _ \<Rightarrow> plain))"

text \<open>A format of hex conversions (widths) with literal characters between them.\<close>

datatype scan_item = Hex nat | Lit char

fun sscanf_hexes :: "scan_item list \<Rightarrow> string \<Rightarrow> nat list" where
  "sscanf_hexes [] s = []"
| "sscanf_hexes (Hex w # fs) s = (case sscanf_x w s of
     None \<Rightarrow> [] | Some (v, r) \<Rightarrow> v # sscanf_hexes fs r)"
| "sscanf_hexes (Lit c # fs) s = (case s of
     [] \<Rightarrow> [] | d # ds \<Rightarrow> if d = c then sscanf_hexes fs ds else [])"

text \<open>\<open>strtok_r\<close> with one delimiter, iterated: the non-empty pieces.\<close>

fun split_on :: "char \<Rightarrow> string \<Rightarrow> string list" where
  "split_on c [] = [[]]"
| "split_on c (x # xs) = (if x = c then [] # split_on c xs
     else (case split_on c xs of [] \<Rightarrow> [[x]] | t # ts \<Rightarrow> (x # t) # ts))"

definition strtok_all :: "char \<Rightarrow> string \<Rightarrow> string list" where
  "strtok_all c s = filter (\<lambda>t. t \<noteq> []) (split_on c s)"

subsection \<open>Printed numbers scan back\<close>

definition no_digit :: "nat \<Rightarrow> string \<Rightarrow> bool" where
  "no_digit b r = (case r of [] \<Rightarrow> True
     | c # _ \<Rightarrow> (case digit_value c of None \<Rightarrow> True | Some d \<Rightarrow> b \<le> d))"

lemma no_digit_Nil [simp]: "no_digit b []"
  by (simp add: no_digit_def)

lemma no_digit_Cons [simp]: "no_digit b (c # r) = (case digit_value c of None \<Rightarrow> True | Some d \<Rightarrow> b \<le> d)"
  by (simp add: no_digit_def)

lemma scan_digits_map:
  "(\<And>d. d \<in> set ds \<Longrightarrow> d < b) \<Longrightarrow> b \<le> 36 \<Longrightarrow> no_digit b r
    \<Longrightarrow> scan_digits b (map digit_char ds @ r) = (ds, r)"
proof (induction ds)
  case Nil
  then show ?case by (cases r) (auto split: option.splits)
next
  case (Cons d ds)
  then have "d < b" "d < 36" by (auto intro: order_less_le_trans)
  with Cons show ?case by simp
qed

lemma digit_char_not_space [simp]: "d < 36 \<Longrightarrow> \<not> isspace (digit_char d)"
  by (auto simp: isspace_def digit_char_def Let_def)

lemma digit_char_neq: "d < 36 \<Longrightarrow> digit_value c = None \<Longrightarrow> digit_char d \<noteq> c"
  by (metis digit_value_char option.distinct(1))

lemma digit_value_sign [simp]: "digit_value (CHR ''-'') = None" "digit_value (CHR ''+'') = None"
  by (simp_all add: digit_value_def)

lemma digit_char_not_x [simp]: "d < 16 \<Longrightarrow> \<not> is_x (digit_char d)"
  using digit_value_char [of d] by (auto simp: is_x_def digit_value_def Let_def)

lemma skip_space_digit [simp]: "d < 36 \<Longrightarrow> skip_space (digit_char d # r) = digit_char d # r"
  by (simp add: skip_space_def)

lemma scan_sign_digit [simp]: "d < 36 \<Longrightarrow> scan_sign (digit_char d # r) = (False, digit_char d # r)"
  using digit_char_neq [of d "CHR ''-''"] digit_char_neq [of d "CHR ''+''"]
  by (simp add: scan_sign_def)

lemma skip_space_sign [simp]: "skip_space (CHR ''-'' # r) = CHR ''-'' # r"
  by (simp add: skip_space_def isspace_def)

lemma scan_sign_minus [simp]: "scan_sign (CHR ''-'' # r) = (True, r)"
  by (simp add: scan_sign_def)

lemma strto_mag_digits:
  assumes "ds \<noteq> []" and "\<And>d. d \<in> set ds \<Longrightarrow> d < 10" and "no_digit 10 r"
  shows "strto_mag 10 (map digit_char ds @ r) = Some (False, undigits 10 ds, r)"
    and "strto_mag 10 (''-'' @ map digit_char ds @ r) = Some (True, undigits 10 ds, r)"
proof -
  obtain d ds' where ds: "ds = d # ds'" using assms(1) by (cases ds) auto
  then have "d < 36" using assms(2) [of d] by simp
  moreover have "scan_digits 10 (map digit_char ds @ r) = (ds, r)"
    using assms by (intro scan_digits_map) auto
  ultimately show "strto_mag 10 (map digit_char ds @ r) = Some (False, undigits 10 ds, r)"
    and "strto_mag 10 (''-'' @ map digit_char ds @ r) = Some (True, undigits 10 ds, r)"
    using ds by (simp_all add: strto_mag_def base_prefix_def)
qed

lemma strto_mag_dec:
  assumes "no_digit 10 r"
  shows "strto_mag 10 (dec n @ r) = Some (False, n, r)"
    and "strto_mag 10 (''-'' @ dec n @ r) = Some (True, n, r)"
  using strto_mag_digits [of "digits_of 10 n" r] digits_of_less [of 10 _ n] assms
  by (auto simp: dec_def)

lemma strtoul_dec: "n < 2 ^ 64 \<Longrightarrow> no_digit 10 r \<Longrightarrow> strtoul 10 (dec n @ r) = (word_of_nat n, r, False)"
  by (simp add: strtoul_def strto_mag_dec)

lemma strtoll_dec: "n < 2 ^ 63 \<Longrightarrow> no_digit 10 r \<Longrightarrow> strtoll (dec n @ r) = int n"
  by (simp add: strtoll_def strto_mag_dec)

lemma strtoll_dec_int:
  assumes "- (2 ^ 63) \<le> i" and "i < 2 ^ 63" and "no_digit 10 r"
  shows "strtoll (dec_int i @ r) = i"
  using assms strto_mag_dec [of r] by (auto simp: strtoll_def dec_int_def)

lemma atoi_dec_int:
  assumes "- (2 ^ 31) \<le> i" and "i < 2 ^ 31" and "no_digit 10 r"
  shows "atoi (dec_int i @ r) = i"
proof -
  have "strtoll (dec_int i @ r) = i" using assms by (intro strtoll_dec_int) auto
  then show ?thesis using assms by (simp add: atoi_def signed_take_bit_int_eq_self_iff)
qed

lemma atoi_dec: "n < 2 ^ 31 \<Longrightarrow> no_digit 10 r \<Longrightarrow> atoi (dec n @ r) = int n"
  using atoi_dec_int [of "int n" r] by (simp add: dec_int_def)

lemma sscanf_d_pad: "n < 2 ^ 31 \<Longrightarrow> no_digit 10 r \<Longrightarrow> sscanf_d (dec_pad w n @ r) = Some (int n, r)"
proof -
  assume n: "n < 2 ^ 31" and r: "no_digit 10 r"
  let ?ds = "replicate (w - length (digits_of 10 n)) 0 @ digits_of 10 n"
  have eq: "dec_pad w n = map digit_char ?ds"
    by (simp add: dec_pad_def dec_def pad_zero_digits del: map_append)
  have small: "d < 10" if "d \<in> set ?ds" for d
    using that digits_of_less [of 10 d n] by auto
  have mag: "strto_mag 10 (dec_pad w n @ r) = Some (False, n, r)"
    using strto_mag_digits(1) [of ?ds r, OF _ small r] by (simp add: eq del: map_append)
  have "atoi (dec_pad w n @ r) = int n"
    using n by (simp add: atoi_def strtoll_def mag signed_take_bit_int_eq_self_iff)
  then show ?thesis by (simp add: sscanf_d_def mag)
qed

lemma sscanf_x_hex_pad:
  assumes "n < 16 ^ w" and "0 < w"
  shows "sscanf_x w (hex_pad w n @ r) = Some (n, r)"
proof -
  let ?ds = "replicate (w - length (digits_of 16 n)) 0 @ digits_of 16 n"
  have eq: "hex_pad w n = map digit_char ?ds"
    by (simp add: hex_pad_def pad_zero_digits del: map_append)
  have len: "length ?ds = w" using length_hex_pad [OF assms] by (simp add: eq)
  have small: "d < 16" if "d \<in> set ?ds" for d
    using that digits_of_less [of 16 d n] by auto
  obtain d es where ds: "?ds = d # es" using len assms(2) by (cases ?ds) auto
  have d: "d < 36" using small [of d] ds by simp
  have sc: "scan_digits 16 (map digit_char ?ds) = (?ds, [])"
    using scan_digits_map [of ?ds 16 "[]"] small by auto
  have val: "undigits 16 ?ds = n" by simp
  have nx: "\<not> is_x (digit_char e)" if "es = e # fs" for e fs
    using small [of e] ds that by simp
  define t where "t = hex_pad w n @ r"
  have hp: "hex_pad w n = digit_char d # map digit_char es" using eq ds by simp
  have "length (hex_pad w n) = w" by (rule length_hex_pad [OF assms])
  then have t: "take w t = digit_char d # map digit_char es" "drop w t = r"
    by (simp_all add: t_def flip: hp)
  have sk: "skip_space t = t" using d by (simp add: t_def hp)
  from sc val ds have sc': "scan_digits 16 (digit_char d # map digit_char es) = (d # es, [])"
    and val': "undigits 16 (d # es) = n" by simp_all
  have "sscanf_x w t = Some (n, r)"
  proof (cases es)
    case Nil
    then show ?thesis using d sc' val' t sk
      by (simp add: sscanf_x_def Let_def del: scan_digits.simps)
  next
    case (Cons e fs)
    then show ?thesis using d sc' val' t sk nx
      by (simp add: sscanf_x_def Let_def del: scan_digits.simps)
  qed
  then show ?thesis by (simp add: t_def)
qed

subsection \<open>Calendar time\<close>

definition leap_year :: "int \<Rightarrow> bool" where
  "leap_year y \<longleftrightarrow> y mod 4 = 0 \<and> (y mod 100 \<noteq> 0 \<or> y mod 400 = 0)"

definition leaps_before :: "int \<Rightarrow> int" where
  "leaps_before y = (y - 1) div 4 - (y - 1) div 100 + (y - 1) div 400"

text \<open>Months are counted from 0.\<close>

definition month_lengths :: "bool \<Rightarrow> int list" where
  "month_lengths leap = [31, if leap then 29 else 28, 31, 30, 31, 30, 31, 31, 30, 31, 30, 31]"

definition days_before_month :: "bool \<Rightarrow> int \<Rightarrow> int" where
  "days_before_month leap m = sum_list (take (nat m) (month_lengths leap))"

definition days_since_epoch :: "int \<Rightarrow> int \<Rightarrow> int \<Rightarrow> int" where
  "days_since_epoch y m d =
     365 * (y - 1970) + (leaps_before y - leaps_before 1970)
       + days_before_month (leap_year y) m + (d - 1)"

record tm =
  tm_year :: int
  tm_mon :: int
  tm_mday :: int
  tm_hour :: int
  tm_min :: int
  tm_sec :: int

text \<open>\<open>timegm\<close> normalises the month into the year and is linear in the other fields.
  \<open>mktime\<close> is the same in local time; \<open>utcoff\<close> is the zone's offset in seconds east
  of UTC.\<close>

definition timegm :: "tm \<Rightarrow> int" where
  "timegm t =
     (let y = 1900 + tm_year t + tm_mon t div 12;
          days = days_since_epoch y (tm_mon t mod 12) (tm_mday t)
      in ((days * 24 + tm_hour t) * 60 + tm_min t) * 60 + tm_sec t)"

definition mktime :: "int \<Rightarrow> tm \<Rightarrow> int" where
  "mktime utcoff t = timegm t - utcoff"

lemma timegm_epoch: "timegm \<lparr>tm_year = 70, tm_mon = 0, tm_mday = 1, tm_hour = 0, tm_min = 0, tm_sec = 0\<rparr> = 0"
  by (simp add: timegm_def days_since_epoch_def days_before_month_def leap_year_def)

text \<open>The first of a month comes one day after the last of the month before, across year
  ends too.\<close>

lemma div_pred:
  assumes "0 < (k::int)"
  shows "y div k = (y - 1) div k + (if y mod k = 0 then 1 else 0)"
proof -
  define q r where "q = (y - 1) div k" and "r = (y - 1) mod k"
  then have y: "y = k * q + (r + 1)" and r: "0 \<le> r" "r < k"
    using assms mult_div_mod_eq [of k "y - 1"] by simp_all
  show ?thesis
  proof (cases "r = k - 1")
    case True
    with y have y': "y = k * (q + 1) + 0" by (simp add: algebra_simps)
    have "y div k = q + 1" using int_div_pos_eq [OF y'] assms by simp
    moreover have "y mod k = 0" using int_mod_pos_eq [OF y'] assms by simp
    ultimately show ?thesis by (simp add: q_def)
  next
    case False
    with r have "r + 1 < k" by simp
    then have "y div k = q" "y mod k = r + 1"
      using int_div_pos_eq [OF y] int_mod_pos_eq [OF y] r(1) by simp_all
    then show ?thesis using r(1) by (simp add: q_def)
  qed
qed

definition indic :: "bool \<Rightarrow> int" where
  "indic b = (if b then 1 else 0)"

lemma sum_step:
  "(a'::int) = a + p \<Longrightarrow> b' = b + q \<Longrightarrow> c' = c + r \<Longrightarrow> a' - b' + c' = (a - b + c) + (p - q + r)"
  by simp

lemma indic_leap_year:
  "indic (leap_year y) = indic (y mod 4 = 0) - indic (y mod 100 = 0) + indic (y mod 400 = 0)"
proof -
  have "400 dvd y \<Longrightarrow> 100 dvd y" using dvd_trans [of 100 400 y] by simp
  moreover have "100 dvd y \<Longrightarrow> 4 dvd y" using dvd_trans [of 4 100 y] by simp
  ultimately show ?thesis
    by (cases "4 dvd y"; cases "100 dvd y"; cases "400 dvd y")
      (simp_all add: indic_def leap_year_def mod_eq_0_iff_dvd)
qed

lemma leaps_before_Suc: "leaps_before (y + 1) = leaps_before y + indic (leap_year y)"
  unfolding leaps_before_def indic_leap_year add_diff_cancel_right'
  by (rule sum_step; rule div_pred [folded indic_def]; simp only: zero_less_numeral)

lemma days_before_month_Suc:
  assumes "0 \<le> m" and "m < 12"
  shows "days_before_month l (m + 1) = days_before_month l m + month_lengths l ! nat m"
proof -
  have "nat m < length (month_lengths l)" using assms by (simp add: month_lengths_def)
  moreover have "nat (m + 1) = Suc (nat m)" using assms(1) by simp
  ultimately show ?thesis by (simp add: days_before_month_def take_Suc_conv_app_nth)
qed

lemma days_before_month_12: "days_before_month l 12 = (if l then 366 else 365)"
  by (simp add: days_before_month_def month_lengths_def)

lemma days_before_month_0: "days_before_month l 0 = 0"
  by (simp add: days_before_month_def)

lemma next_month:
  assumes "0 \<le> m" and "m < 12"
  shows "days_since_epoch (y + (m + 1) div 12) ((m + 1) mod 12) 1
    = days_since_epoch y m (month_lengths (leap_year y) ! nat m) + 1"
proof (cases "m = 11")
  case True
  have dm: "days_before_month l 11 + month_lengths l ! 11 = 365 + indic l" for l
    using days_before_month_Suc [of 11 l] by (cases l) (simp_all add: days_before_month_12 indic_def)
  have "days_since_epoch (y + 1) 0 1 = days_since_epoch y 11 (month_lengths (leap_year y) ! 11) + 1"
    using dm [of "leap_year y"] leaps_before_Suc [of y]
    by (simp add: days_since_epoch_def days_before_month_0 algebra_simps)
  with True show ?thesis by simp
next
  case False
  with assms have "(m + 1) div 12 = 0" "(m + 1) mod 12 = m + 1"
    by (simp_all add: div_pos_pos_trivial mod_pos_pos_trivial)
  then show ?thesis
    by (simp only: days_since_epoch_def days_before_month_Suc [OF assms] add_0_right)
qed

end
