(* ===== verification/Doubles.thy ===== *)
theory Doubles
  imports Libc "HOL-Library.Log_Nat"
begin

text \<open>
  IEEE 754 doubles as sign and magnitude, with rounding to nearest even, the conversions
  the sources use (\<open>strtod\<close>, casts to integers and to \<open>float\<close>) and the \<open>%g\<close>
  family of \<open>printf\<close>. A magnitude is a rational; every operation rounds its exact
  result, so the values that occur are the representable ones.
\<close>

datatype double = DNaN | DInf bool | DFin bool rat

fun isfinite :: "double \<Rightarrow> bool" where
  "isfinite (DFin s m) = True"
| "isfinite _ = False"

fun dval :: "double \<Rightarrow> rat" where
  "dval (DFin s m) = (if s then - m else m)"
| "dval _ = 0"

subsection \<open>Rounding\<close>

definition pow2 :: "int \<Rightarrow> rat" where
  "pow2 e = (if 0 \<le> e then 2 ^ nat e else 1 / 2 ^ nat (- e))"

definition pow10 :: "int \<Rightarrow> rat" where
  "pow10 e = (if 0 \<le> e then 10 ^ nat e else 1 / 10 ^ nat (- e))"

definition round_even :: "rat \<Rightarrow> int" where
  "round_even x = (let f = \<lfloor>x\<rfloor>; d = x - of_int f in
     if d < 1 / 2 then f else if 1 / 2 < d then f + 1
     else if even f then f else f + 1)"

text \<open>The exponent e with 2^e \<le> m < 2^(e+1), from the lengths of the binary numerals.\<close>

definition ilog2 :: "rat \<Rightarrow> int" where
  "ilog2 m = (if 1 \<le> m then int (floorlog 2 (nat \<lfloor>m\<rfloor>)) - 1
     else - int (floorlog 2 (nat (\<lceil>1 / m\<rceil> - 1))))"

text \<open>Precision p, least exponent of a normal number emin, greatest emax; None is
  overflow to infinity.\<close>

definition round_mag :: "nat \<Rightarrow> int \<Rightarrow> int \<Rightarrow> rat \<Rightarrow> rat option" where
  "round_mag p emin emax m = (if m = 0 then Some 0 else
     let q = max (ilog2 m) emin - (int p - 1);
         r = of_int (round_even (m / pow2 q)) * pow2 q
     in if pow2 (emax + 1) \<le> r then None else Some r)"

definition mk_fp :: "(rat \<Rightarrow> rat option) \<Rightarrow> bool \<Rightarrow> rat \<Rightarrow> double" where
  "mk_fp rnd neg m = (case rnd m of None \<Rightarrow> DInf neg | Some r \<Rightarrow> DFin neg r)"

definition mk_double :: "bool \<Rightarrow> rat \<Rightarrow> double" where
  "mk_double = mk_fp (round_mag 53 (- 1022) 1023)"

text \<open>The cast to \<open>float\<close>; a float is kept as the double of the same value.\<close>

fun to_float :: "double \<Rightarrow> double" where
  "to_float (DFin s m) = mk_fp (round_mag 24 (- 126) 127) s m"
| "to_float d = d"

definition double_of_rat :: "rat \<Rightarrow> double" where
  "double_of_rat x = mk_double (x < 0) \<bar>x\<bar>"

subsection \<open>Arithmetic and comparison\<close>

text \<open>An exact zero sum is +0 unless both operands are negative.\<close>

fun dadd :: "double \<Rightarrow> double \<Rightarrow> double" where
  "dadd (DFin s m) (DFin t n) =
     (let x = dval (DFin s m) + dval (DFin t n) in
      if x = 0 then DFin (s \<and> t) 0 else double_of_rat x)"
| "dadd (DInf s) (DInf t) = (if s = t then DInf s else DNaN)"
| "dadd (DInf s) (DFin _ _) = DInf s"
| "dadd (DFin _ _) (DInf t) = DInf t"
| "dadd _ _ = DNaN"

fun dmul :: "double \<Rightarrow> double \<Rightarrow> double" where
  "dmul (DFin s m) (DFin t n) = mk_double (s \<noteq> t) (m * n)"
| "dmul (DInf s) (DInf t) = DInf (s \<noteq> t)"
| "dmul (DInf s) (DFin t n) = (if n = 0 then DNaN else DInf (s \<noteq> t))"
| "dmul (DFin s m) (DInf t) = (if m = 0 then DNaN else DInf (s \<noteq> t))"
| "dmul _ _ = DNaN"

fun dless :: "double \<Rightarrow> double \<Rightarrow> bool" where
  "dless (DFin s m) (DFin t n) = (dval (DFin s m) < dval (DFin t n))"
| "dless (DInf s) (DInf t) = (s \<and> \<not> t)"
| "dless (DInf s) (DFin _ _) = s"
| "dless (DFin _ _) (DInf t) = (\<not> t)"
| "dless _ _ = False"

definition deq :: "double \<Rightarrow> double \<Rightarrow> bool" where
  "deq x y = (x \<noteq> DNaN \<and> y \<noteq> DNaN \<and> \<not> dless x y \<and> \<not> dless y x)"

fun dfloor :: "double \<Rightarrow> double" where
  "dfloor (DFin s m) = (let f = \<lfloor>dval (DFin s m)\<rfloor> in DFin s (of_int \<bar>f\<bar>))"
| "dfloor d = d"

text \<open>
  Casts to integer types truncate. Out of range (and for NaN) the C standard leaves the
  result undefined; the model takes the "integer indefinite" value of x86-64.
\<close>

definition dtrunc :: "double \<Rightarrow> int" where
  "dtrunc d = (if dval d < 0 then \<lceil>dval d\<rceil> else \<lfloor>dval d\<rfloor>)"

definition double_to_int :: "double \<Rightarrow> int" where
  "double_to_int d = (let t = dtrunc d in
     if isfinite d \<and> - (2 ^ 31) \<le> t \<and> t < 2 ^ 31 then t else - (2 ^ 31))"

definition double_to_i64 :: "double \<Rightarrow> int" where
  "double_to_i64 d = (let t = dtrunc d in
     if isfinite d \<and> - (2 ^ 63) \<le> t \<and> t < 2 ^ 63 then t else - (2 ^ 63))"

text \<open>uint32 goes through a 64-bit conversion and keeps the low word; uint64 from 2^63 on
  subtracts 2^63 first.\<close>

definition double_to_u32 :: "double \<Rightarrow> u32" where
  "double_to_u32 d = word_of_int (double_to_i64 d)"

definition double_to_u64 :: "double \<Rightarrow> u64" where
  "double_to_u64 d = (let t = dtrunc d in
     if isfinite d \<and> 2 ^ 63 \<le> t \<and> t < 2 ^ 64 then word_of_int t
     else word_of_int (double_to_i64 d))"

subsection \<open>strtod\<close>

definition lower :: "char \<Rightarrow> char" where
  "lower c = (let n = of_char c :: nat in if 65 \<le> n \<and> n \<le> 90 then char_of (n + 32) else c)"

text \<open>The exponent after its mark (e or p); 0 when it has no digits.\<close>

definition scan_exp :: "char \<Rightarrow> string \<Rightarrow> int" where
  "scan_exp mark s = (case s of [] \<Rightarrow> 0
     | c # cs \<Rightarrow> if lower c \<noteq> mark then 0 else
         (case scan_sign cs of (neg, t) \<Rightarrow>
          (case scan_digits 10 t of (ds, _) \<Rightarrow>
             if neg then - int (undigits 10 ds) else int (undigits 10 ds))))"

text \<open>Integer digits, fraction digits and the rest of a number in base b.\<close>

definition scan_frac :: "nat \<Rightarrow> string \<Rightarrow> nat list \<times> nat list \<times> string" where
  "scan_frac b s = (case scan_digits b s of (ds, r) \<Rightarrow>
     (case r of [] \<Rightarrow> (ds, [], r)
      | c # cs \<Rightarrow> if c = CHR ''.'' then (case scan_digits b cs of (es, r') \<Rightarrow> (ds, es, r'))
                else (ds, [], r)))"

text \<open>The magnitude after 0x, and the decimal magnitude; None when there are no digits.\<close>

definition hex_mag :: "string \<Rightarrow> rat option" where
  "hex_mag r = (case r of z # x # h \<Rightarrow>
       (if z = CHR ''0'' \<and> is_x x then
          (case scan_frac 16 h of (ds, es, t) \<Rightarrow>
             if ds @ es = [] then None
             else Some (of_nat (undigits 16 (ds @ es))
                    * pow2 (scan_exp (CHR ''p'') t - 4 * int (length es))))
        else None)
     | _ \<Rightarrow> None)"

definition dec_mag :: "string \<Rightarrow> rat option" where
  "dec_mag r = (case scan_frac 10 r of (ds, es, t) \<Rightarrow>
     if ds @ es = [] then None
     else Some (of_nat (undigits 10 (ds @ es)) * pow10 (scan_exp (CHR ''e'') t - int (length es))))"

text \<open>\<open>strtod\<close>: the value, and whether anything was converted (\<open>end != s\<close>).\<close>

definition strtod :: "string \<Rightarrow> double \<times> bool" where
  "strtod s =
     (case scan_sign (skip_space s) of (neg, r) \<Rightarrow>
      if map lower (take 3 r) = ''inf'' then (DInf neg, True)
      else if map lower (take 3 r) = ''nan'' then (DNaN, True)
      else (case hex_mag r of
              Some m \<Rightarrow> (mk_double neg m, True)
            | None \<Rightarrow> (case dec_mag r of
                Some m \<Rightarrow> (mk_double neg m, True)
              | None \<Rightarrow> (DFin False 0, False))))"

subsection \<open>The \<open>%g\<close> conversions\<close>

definition ilog10 :: "rat \<Rightarrow> int" where
  "ilog10 m = (if 1 \<le> m then int (length (digits_of 10 (nat \<lfloor>m\<rfloor>))) - 1
     else - int (length (digits_of 10 (nat (\<lceil>1 / m\<rceil> - 1)))))"

definition strip_zeros :: "nat list \<Rightarrow> nat list" where
  "strip_zeros ds = rev (dropWhile (\<lambda>d. d = 0) (rev ds))"

text \<open>P significant digits of a positive magnitude, without trailing zeros, and the
  decimal exponent.\<close>

definition sig_digits :: "nat \<Rightarrow> rat \<Rightarrow> nat list \<times> int" where
  "sig_digits P m =
     (let x = ilog10 m; n = nat (round_even (m / pow10 (x - int P + 1)))
      in if n = 10 ^ P then ([1], x + 1) else (strip_zeros (digits_of 10 n), x))"

definition digit_string :: "nat list \<Rightarrow> string" where
  "digit_string ds = map digit_char ds"

definition frac_part :: "nat list \<Rightarrow> string" where
  "frac_part ds = (if ds = [] then [] else ''.'' @ digit_string ds)"

definition fmt_mag :: "nat \<Rightarrow> rat \<Rightarrow> string" where
  "fmt_mag P m =
     (if m = 0 then ''0'' else
      case sig_digits P m of (ds, x) \<Rightarrow>
        if x < - 4 \<or> int P \<le> x then
          digit_string [hd ds] @ frac_part (tl ds) @ ''e'' @ (if x < 0 then ''-'' else ''+'')
            @ dec_pad 2 (nat \<bar>x\<bar>)
        else if x < 0 then
          ''0.'' @ digit_string (replicate (nat (- x) - 1) 0 @ ds)
        else
          let k = nat x + 1
          in digit_string (take k ds @ replicate (k - length ds) 0) @ frac_part (drop k ds))"

fun fmt_g :: "nat \<Rightarrow> double \<Rightarrow> string" where
  "fmt_g P (DFin s m) = (if s then ''-'' else []) @ fmt_mag P m"
| "fmt_g P (DInf s) = (if s then ''-inf'' else ''inf'')"
| "fmt_g P DNaN = ''nan''"

end
