(* ===== verification/CJson.thy ===== *)
theory CJson
  imports Doubles
begin

text \<open>
  The cJSON documents the adapter reads. A \<open>cJSON\<close> node is a public struct whose fields the
  sources read directly (type, valuestring, valuedouble, child); the datatype has one
  constructor per node type, an object being the list of its named children in document
  order. The functions of the library (parsing, printing, member lookup) are the record
  \<open>cjson_lib\<close>, a parameter of the definitions that call them.
\<close>

datatype cjson =
    CNull
  | CBool bool
  | CNumber double
  | CString string
  | CArray "cjson list"
  | CObject "(string \<times> cjson) list"

record cjson_lib =
  cJSON_Parse :: "string \<Rightarrow> cjson option"
  cJSON_ParseWithOpts :: "string \<Rightarrow> cjson option \<times> cstr" \<comment> \<open>and the end of the parse, on failure\<close>
  cJSON_PrintUnformatted :: "cjson \<Rightarrow> cstr"
  cJSON_GetObjectItem :: "cjson \<Rightarrow> string \<Rightarrow> cjson option"
  cJSON_GetObjectItemCaseSensitive :: "cjson \<Rightarrow> string \<Rightarrow> cjson option"
  cJSON_valueint :: "cjson \<Rightarrow> int" \<comment> \<open>the field valueint the parser fills\<close>

text \<open>The type tests and the children a \<open>cJSON_ArrayForEach\<close> loop visits (the members of an
  object are its children too).\<close>

fun cJSON_IsString :: "cjson \<Rightarrow> bool" where
  "cJSON_IsString (CString s) = True"
| "cJSON_IsString _ = False"

fun cJSON_IsNumber :: "cjson \<Rightarrow> bool" where
  "cJSON_IsNumber (CNumber d) = True"
| "cJSON_IsNumber _ = False"

fun cJSON_IsArray :: "cjson \<Rightarrow> bool" where
  "cJSON_IsArray (CArray es) = True"
| "cJSON_IsArray _ = False"

fun cJSON_IsObject :: "cjson \<Rightarrow> bool" where
  "cJSON_IsObject (CObject ms) = True"
| "cJSON_IsObject _ = False"

fun cJSON_IsBool :: "cjson \<Rightarrow> bool" where
  "cJSON_IsBool (CBool b) = True"
| "cJSON_IsBool _ = False"

fun cJSON_IsTrue :: "cjson \<Rightarrow> bool" where
  "cJSON_IsTrue (CBool b) = b"
| "cJSON_IsTrue _ = False"

fun cJSON_IsNull :: "cjson \<Rightarrow> bool" where
  "cJSON_IsNull CNull = True"
| "cJSON_IsNull _ = False"

text \<open>Looking a member up in a node that may be NULL.\<close>

definition item :: "cjson_lib \<Rightarrow> cjson option \<Rightarrow> string \<Rightarrow> cjson option" where
  "item J obj k = (case obj of None \<Rightarrow> None | Some n \<Rightarrow> cJSON_GetObjectItemCaseSensitive J n k)"

lemma item_simps [simp]: "item J None k = None" "item J (Some n) k = cJSON_GetObjectItemCaseSensitive J n k"
  by (simp_all add: item_def)

fun children :: "cjson \<Rightarrow> cjson list" where
  "children (CArray es) = es"
| "children (CObject ms) = map snd ms"
| "children _ = []"

fun valuestring :: "cjson \<Rightarrow> cstr" where
  "valuestring (CString s) = Some s"
| "valuestring _ = None"

fun valuedouble :: "cjson \<Rightarrow> double" where
  "valuedouble (CNumber d) = d"
| "valuedouble _ = DFin False 0"

text \<open>A small instance of the library, which reads \<open>[]\<close> and an array of one string without
  escapes, prints numbers as 0 and looks members up by exact name. It serves as the example at
  which statements that rest on laws of the library are applied.\<close>

fun plain_item :: "cjson \<Rightarrow> string \<Rightarrow> cjson option" where
  "plain_item (CObject ms) k = map_option snd (find (\<lambda>m. fst m = k) ms)"
| "plain_item _ k = None"

fun plain_print :: "cjson \<Rightarrow> cstr" where
  "plain_print CNull = Some ''null''"
| "plain_print (CBool b) = Some (if b then ''true'' else ''false'')"
| "plain_print (CNumber d) = Some ''0''"
| "plain_print (CArray []) = Some ''[]''"
| "plain_print (CObject []) = Some ''{}''"
| "plain_print _ = None"

definition plain_parse :: "string \<Rightarrow> cjson option" where
  "plain_parse s =
    (if s = ''[]'' then Some (CArray [])
     else if 4 \<le> length s \<and> take 2 s = [CHR ''['', CHR 0x22] \<and> drop (length s - 2) s = [CHR 0x22, CHR '']'']
     then Some (CArray [CString (take (length s - 4) (drop 2 s))])
     else None)"

definition plain_json :: cjson_lib where
  "plain_json = \<lparr>cJSON_Parse = plain_parse, cJSON_ParseWithOpts = (\<lambda>s. (plain_parse s, Some s)),
     cJSON_PrintUnformatted = plain_print,
     cJSON_GetObjectItem = plain_item, cJSON_GetObjectItemCaseSensitive = plain_item,
     cJSON_valueint = (\<lambda>j. case j of CNumber d \<Rightarrow> double_to_int d | _ \<Rightarrow> 0)\<rparr>"

end
