(* ===== verification/Json_Text.thy ===== *)
theory Json_Text
  imports Doubles
begin

text \<open>
  JSON texts (RFC 8259, without insignificant white space) as an inductive predicate over
  byte strings, and the closure rules by which the printers of the adapter are shown to
  produce JSON. Bytes from 0x80 on are taken as parts of UTF-8 sequences and not checked
  further.
\<close>

abbreviation quote :: char where
  "quote \<equiv> CHR 0x22"

abbreviation bslash :: char where
  "bslash \<equiv> CHR 0x5C"

subsection \<open>Numbers\<close>

definition digit_run :: "string \<Rightarrow> bool" where
  "digit_run s \<longleftrightarrow> s \<noteq> [] \<and> list_all isdigit s"

definition json_int :: "string \<Rightarrow> bool" where
  "json_int s \<longleftrightarrow> s = ''0'' \<or> (digit_run s \<and> hd s \<noteq> CHR ''0'')"

inductive json_frac :: "string \<Rightarrow> bool" where
  no_frac: "json_frac []"
| frac: "digit_run ds \<Longrightarrow> json_frac (''.'' @ ds)"

inductive json_exp :: "string \<Rightarrow> bool" where
  no_exp: "json_exp []"
| exp: "digit_run ds \<Longrightarrow> sg \<in> {[], ''+'', ''-''} \<Longrightarrow> json_exp (''e'' @ sg @ ds)"

inductive json_number :: "string \<Rightarrow> bool" where
  pos: "json_int i \<Longrightarrow> json_frac f \<Longrightarrow> json_exp x \<Longrightarrow> json_number (i @ f @ x)"
| neg: "json_int i \<Longrightarrow> json_frac f \<Longrightarrow> json_exp x \<Longrightarrow> json_number (''-'' @ i @ f @ x)"

subsection \<open>Strings\<close>

text \<open>The characters between the quotes: unescaped ones from 0x20 on, and escapes.\<close>

fun json_chars :: "string \<Rightarrow> bool" where
  "json_chars [] = True"
| "json_chars (c # cs) =
     (if c = bslash then
        (case cs of [] \<Rightarrow> False
         | e # r \<Rightarrow>
             if e \<in> {quote, bslash, CHR ''/'', CHR ''b'', CHR ''f'', CHR ''n'', CHR ''r'', CHR ''t''}
             then json_chars r
             else if e = CHR ''u'' then
               (case r of a # b # c' # d # r' \<Rightarrow>
                  is_hex_digit a \<and> is_hex_digit b \<and> is_hex_digit c' \<and> is_hex_digit d \<and> json_chars r'
                | _ \<Rightarrow> False)
             else False)
      else c \<noteq> quote \<and> 32 \<le> (of_char c :: nat) \<and> json_chars cs)"

definition json_string :: "string \<Rightarrow> bool" where
  "json_string s \<longleftrightarrow> (\<exists>b. s = quote # b @ [quote] \<and> json_chars b)"

text \<open>The bytes a string body denotes; \<open>\u\<close> escapes up to 0x7f only, which is all the
  printers use.\<close>

fun json_unescape :: "string \<Rightarrow> string option" where
  "json_unescape [] = Some []"
| "json_unescape (c # cs) =
     (if c = bslash then
        (case cs of [] \<Rightarrow> None
         | e # r \<Rightarrow>
             if e = CHR ''u'' then
               (case r of a # b # c' # d # r' \<Rightarrow>
                  (case scan_digits 16 [a, b, c', d] of (ds, t) \<Rightarrow>
                     if t = [] \<and> undigits 16 ds < 128
                     then map_option ((#) (char_of (undigits 16 ds))) (json_unescape r')
                     else None)
                | _ \<Rightarrow> None)
             else
               (case map_of [(quote, quote), (bslash, bslash), (CHR ''/'', CHR ''/''),
                   (CHR ''b'', CHR 0x08), (CHR ''f'', CHR 0x0C), (CHR ''n'', CHR 0x0A),
                   (CHR ''r'', CHR 0x0D), (CHR ''t'', CHR 0x09)] e of
                  None \<Rightarrow> None
                | Some x \<Rightarrow> map_option ((#) x) (json_unescape r)))
      else if c = quote \<or> (of_char c :: nat) < 32 then None
      else map_option ((#) c) (json_unescape cs))"

subsection \<open>Values\<close>

inductive json_value :: "string \<Rightarrow> bool" where
  null: "json_value ''null''"
| true: "json_value ''true''"
| false: "json_value ''false''"
| number: "json_number s \<Longrightarrow> json_value s"
| str: "json_string s \<Longrightarrow> json_value s"
| arr: "\<forall>v\<in>set vs. json_value v \<Longrightarrow> json_value (''['' @ join_comma vs @ '']'')"
| obj: "\<forall>m\<in>set ms. json_string (fst m) \<and> json_value (snd m) \<Longrightarrow>
    json_value (''{'' @ join_comma (map (\<lambda>m. fst m @ '':'' @ snd m) ms) @ ''}'')"

definition jkey :: "string \<Rightarrow> string" where
  "jkey k = [quote] @ k @ [quote]"

definition jobj :: "(string \<times> string) list \<Rightarrow> string" where
  "jobj ms = ''{'' @ join_comma (map (\<lambda>(k, v). jkey k @ '':'' @ v) ms) @ ''}''"

definition jarr :: "string list \<Rightarrow> string" where
  "jarr vs = ''['' @ join_comma vs @ '']''"

lemma json_string_jkey [json_intro]: "json_chars k \<Longrightarrow> json_string (jkey k)"
  by (auto simp: json_string_def jkey_def)

lemma json_value_jkey [json_intro]: "json_chars k \<Longrightarrow> json_value (jkey k)"
  by (intro json_value.str json_intro)

lemma jobj_value [json_intro]:
  assumes "\<forall>(k, v)\<in>set ms. json_chars k \<and> json_value v"
  shows "json_value (jobj ms)"
proof -
  let ?ms = "map (\<lambda>(k, v). (jkey k, v)) ms"
  have "jobj ms = ''{'' @ join_comma (map (\<lambda>m. fst m @ '':'' @ snd m) ?ms) @ ''}''"
    by (simp add: jobj_def comp_def case_prod_unfold)
  moreover have "\<forall>m\<in>set ?ms. json_string (fst m) \<and> json_value (snd m)"
    using assms by (auto intro!: json_string_jkey)
  ultimately show ?thesis using json_value.obj [of ?ms] by (simp only:)
qed

lemma jarr_value [json_intro]: "\<forall>v\<in>set vs. json_value v \<Longrightarrow> json_value (jarr vs)"
  unfolding jarr_def by (rule json_value.arr)

lemmas json_consts [json_intro] = json_value.null json_value.true json_value.false

subsection \<open>Printed numbers are JSON numbers\<close>

lemma isdigit_digit_char [simp]: "d < 10 \<Longrightarrow> isdigit (digit_char d)"
  by (auto simp: isdigit_def digit_char_def Let_def)

lemma digit_char_eq_0: "d < 36 \<Longrightarrow> digit_char d = CHR ''0'' \<longleftrightarrow> d = 0"
  using digit_value_char [of d] by (auto simp: digit_value_def digit_char_0)

lemma digit_run_string: "ds \<noteq> [] \<Longrightarrow> \<forall>d\<in>set ds. d < 10 \<Longrightarrow> digit_run (digit_string ds)"
  by (auto simp: digit_run_def digit_string_def list_all_iff)

lemma dec_digit_run: "digit_run (dec n)"
  using digit_run_string [of "digits_of 10 n"] digits_of_less [of 10 _ n]
  by (auto simp: digit_string_def dec_def)

lemma json_int_digits:
  assumes "ds \<noteq> []" and "hd ds \<noteq> 0" and "\<forall>d\<in>set ds. d < 10"
  shows "json_int (digit_string ds)"
proof -
  have "hd ds < 10" using assms(3) hd_in_set [OF assms(1)] by blast
  then have "hd ds < 36" by simp
  with assms show ?thesis
    using digit_run_string [OF assms(1,3)]
    by (simp add: json_int_def digit_string_def hd_map digit_char_eq_0)
qed

lemma json_int_dec: "json_int (dec n)"
proof (cases "n = 0")
  case True
  then show ?thesis
    by (simp add: json_int_def dec_def digits_of.simps digit_char_0)
next
  case False
  then show ?thesis
    using json_int_digits [of "digits_of 10 n"] hd_digits_of [of 10 n] digits_of_less [of 10 _ n]
    by (auto simp: dec_def digit_string_def)
qed

lemma json_number_int: "json_int i \<Longrightarrow> json_number i"
  using json_number.pos [of i "[]" "[]"] by (simp add: json_frac.no_frac json_exp.no_exp)

lemma dec_value [json_intro]: "json_value (dec n)"
  by (intro json_value.number json_number_int json_int_dec)

lemma dec_int_value [json_intro]: "json_value (dec_int i)"
proof (cases "i < 0")
  case True
  have "json_number (''-'' @ dec (nat (- i)) @ [] @ [])"
    by (intro json_number.neg json_int_dec json_frac.no_frac json_exp.no_exp)
  with True show ?thesis by (simp add: dec_int_def json_value.number)
next
  case False
  then show ?thesis by (simp add: dec_int_def dec_value)
qed

lemma pow10_pos [simp]: "0 < pow10 e"
  by (simp add: pow10_def)

lemma digits_of_lower: "0 < n \<Longrightarrow> 10 ^ (length (digits_of 10 n) - 1) \<le> n"
proof (induction "10::nat" n rule: digits_of.induct)
  case (1 n)
  show ?case
  proof (cases "n < 10")
    case True
    with "1.prems" show ?thesis by (simp add: digits_of.simps [of 10 n])
  next
    case False
    then have "0 < n div 10" by (simp add: div_greater_zero_iff)
    with False "1.hyps" have IH: "10 ^ (length (digits_of 10 (n div 10)) - 1) \<le> n div 10" by simp
    obtain k where k: "length (digits_of 10 (n div 10)) = Suc k"
      by (cases "digits_of 10 (n div 10)") auto
    have "10 ^ Suc k \<le> 10 * (n div 10)" using IH k by simp
    also have "\<dots> \<le> n" by simp
    finally show ?thesis using False k by (simp add: digits_of.simps [of 10 n])
  qed
qed

lemma digits_of_upper: "n < 10 ^ length (digits_of 10 n)"
proof (induction "10::nat" n rule: digits_of.induct)
  case (1 n)
  show ?case
  proof (cases "n < 10")
    case True
    then show ?thesis by (simp add: digits_of.simps [of 10 n])
  next
    case False
    with "1.hyps" have "n div 10 < 10 ^ length (digits_of 10 (n div 10))" by simp
    then have "n < 10 * 10 ^ length (digits_of 10 (n div 10))" by linarith
    then show ?thesis using False by (simp add: digits_of.simps [of 10 n])
  qed
qed

lemma pow10_power_int: "pow10 e = power_int 10 e"
  by (simp add: pow10_def power_int_def inverse_eq_divide power_one_over)

lemma pow10_diff: "pow10 (a - b) = pow10 a / pow10 b"
  by (simp add: pow10_power_int power_int_diff)

lemma pow10_le:
  assumes "0 < m"
  shows "pow10 (ilog10 m) \<le> m"
proof (cases "1 \<le> m")
  case True
  define n where "n = nat \<lfloor>m\<rfloor>"
  with True have "0 < n" "of_nat n \<le> m" by (simp_all add: le_floor_iff)
  have "(10::nat) ^ (length (digits_of 10 n) - 1) \<le> n" by (rule digits_of_lower [OF \<open>0 < n\<close>])
  then have "(10::rat) ^ (length (digits_of 10 n) - 1) \<le> of_nat n"
    by (metis of_nat_le_iff of_nat_numeral of_nat_power)
  moreover have "ilog10 m = int (length (digits_of 10 n) - 1)"
    using True by (cases "digits_of 10 n") (simp_all add: ilog10_def n_def)
  ultimately have "pow10 (ilog10 m) \<le> of_nat n" by (simp only: pow10_def) simp
  then show ?thesis using \<open>of_nat n \<le> m\<close> by (rule order_trans)
next
  case False
  define n where "n = nat (\<lceil>1 / m\<rceil> - 1)"
  define k where "k = length (digits_of 10 n)"
  have "n < 10 ^ k" by (simp add: k_def digits_of_upper)
  then have "int n < 10 ^ k" by (metis of_nat_less_iff of_nat_numeral of_nat_power)
  then have "\<lceil>1 / m\<rceil> \<le> 10 ^ k" using assms by (simp add: n_def)
  then have "1 / m \<le> 10 ^ k" by (simp add: ceiling_le_iff)
  then have "1 / 10 ^ k \<le> m" using assms by (simp add: divide_le_eq mult.commute)
  moreover have "ilog10 m = - int k" using False by (simp add: ilog10_def n_def k_def)
  ultimately show ?thesis by (cases "k = 0") (simp_all add: pow10_def)
qed

lemma round_even_ge_1: "1 \<le> y \<Longrightarrow> 1 \<le> round_even y"
  by (auto simp: round_even_def Let_def le_floor_iff)

lemma sig_digits_value_pos:
  assumes "0 < m" and "0 < P"
  shows "1 \<le> round_even (m / pow10 (ilog10 m - int P + 1))"
proof (rule round_even_ge_1)
  have "ilog10 m - int P + 1 = ilog10 m - (int P - 1)" by simp
  then have "pow10 (ilog10 m - int P + 1) = pow10 (ilog10 m) / pow10 (int P - 1)"
    by (simp only: pow10_diff)
  also have "\<dots> \<le> pow10 (ilog10 m) / 1"
    using assms(2) by (intro divide_left_mono) (simp_all add: pow10_def)
  also have "\<dots> \<le> m" using pow10_le [OF assms(1)] by simp
  finally have "pow10 (ilog10 m - int P + 1) \<le> m" .
  then show "1 \<le> m / pow10 (ilog10 m - int P + 1)" by simp
qed

lemma strip_zeros_prefix: "\<exists>k. ds = strip_zeros ds @ replicate k 0"
proof -
  have "rev ds = takeWhile (\<lambda>d. d = 0) (rev ds) @ dropWhile (\<lambda>d. d = 0) (rev ds)" by simp
  then have "ds = strip_zeros ds @ rev (takeWhile (\<lambda>d. d = 0) (rev ds))"
    by (metis rev_append rev_rev_ident strip_zeros_def)
  moreover have "\<forall>d\<in>set (rev (takeWhile (\<lambda>d. d = 0) (rev ds))). d = 0"
    by (auto dest: set_takeWhileD)
  ultimately show ?thesis by (metis replicate_length_same)
qed

lemma strip_zeros_hd:
  assumes "ds \<noteq> []" and "hd ds \<noteq> 0"
  shows "strip_zeros ds \<noteq> [] \<and> hd (strip_zeros ds) \<noteq> 0 \<and> set (strip_zeros ds) \<subseteq> set ds"
proof -
  obtain k where k: "ds = strip_zeros ds @ replicate k 0" using strip_zeros_prefix by blast
  have "strip_zeros ds \<noteq> []"
  proof
    assume "strip_zeros ds = []"
    with k have "ds = replicate k 0" by simp
    with assms show False by (cases k) auto
  qed
  moreover have "set (strip_zeros ds) \<subseteq> set ds" using k by (metis Un_upper1 set_append)
  ultimately show ?thesis using k assms(2) by (metis hd_append2)
qed

lemma sig_digits_ok:
  assumes "0 < m" and "0 < P" and "sig_digits P m = (ds, x)"
  shows "ds \<noteq> [] \<and> hd ds \<noteq> 0 \<and> (\<forall>d\<in>set ds. d < 10)"
proof -
  define n where "n = nat (round_even (m / pow10 (ilog10 m - int P + 1)))"
  have "0 < n" using sig_digits_value_pos [OF assms(1,2)] by (simp add: n_def)
  show ?thesis
  proof (cases "n = 10 ^ P")
    case True
    then show ?thesis using assms(3) by (auto simp: sig_digits_def Let_def n_def)
  next
    case False
    then have "ds = strip_zeros (digits_of 10 n)"
      using assms(3) by (auto simp: sig_digits_def Let_def n_def)
    then show ?thesis
      using strip_zeros_hd [of "digits_of 10 n"] hd_digits_of [of 10 n] \<open>0 < n\<close>
        digits_of_less [of 10 _ n] by auto
  qed
qed

lemma fmt_mag_number:
  assumes "0 \<le> m" and "0 < P"
  obtains i f x where "fmt_mag P m = i @ f @ x" "json_int i" "json_frac f" "json_exp x"
proof (cases "m = 0")
  case True
  then show ?thesis
    using that [of "''0''" "[]" "[]"]
    by (simp add: fmt_mag_def json_int_def json_frac.no_frac json_exp.no_exp)
next
  case False
  obtain ds e where sd: "sig_digits P m = (ds, e)" by (cases "sig_digits P m")
  with False assms have ds: "ds \<noteq> []" "hd ds \<noteq> 0" "\<forall>d\<in>set ds. d < 10"
    using sig_digits_ok [of m P ds e] by auto
  have frac: "json_frac (frac_part es)" if "\<forall>d\<in>set es. d < 10" for es
    using that json_frac.frac [OF digit_run_string [of es]]
    by (auto simp: frac_part_def json_frac.no_frac)
  consider "e < - 4 \<or> int P \<le> e" | "- 4 \<le> e" "e < 0" | "0 \<le> e" "e < int P" by linarith
  then show ?thesis
  proof cases
    case 1
    let ?x = "''e'' @ (if e < 0 then ''-'' else ''+'') @ dec_pad 2 (nat \<bar>e\<bar>)"
    have "dec_pad 2 (nat \<bar>e\<bar>)
        = digit_string (replicate (2 - length (digits_of 10 (nat \<bar>e\<bar>))) 0 @ digits_of 10 (nat \<bar>e\<bar>))"
      by (simp add: dec_pad_def dec_def digit_string_def pad_zero_digits del: map_append)
    then have "digit_run (dec_pad 2 (nat \<bar>e\<bar>))"
      using digits_of_less [of 10] by (auto intro!: digit_run_string)
    then have "json_exp ?x" by (intro json_exp.exp) auto
    moreover have "json_int (digit_string [hd ds])"
      using ds by (intro json_int_digits) auto
    moreover have "json_frac (frac_part (tl ds))"
      using ds by (intro frac) (auto dest: list.set_sel(2))
    moreover have "fmt_mag P m = digit_string [hd ds] @ frac_part (tl ds) @ ?x"
      using 1 False sd by (simp add: fmt_mag_def)
    ultimately show ?thesis using that by blast
  next
    case 2
    let ?f = "''.'' @ digit_string (replicate (nat (- e) - 1) 0 @ ds)"
    have "json_frac ?f" using ds by (intro json_frac.frac digit_run_string) auto
    moreover have "fmt_mag P m = ''0'' @ ?f @ []"
      using 2 False sd by (simp add: fmt_mag_def)
    moreover have "json_int ''0''" by (simp add: json_int_def)
    ultimately show ?thesis using that json_exp.no_exp by blast
  next
    case 3
    let ?k = "nat e + 1"
    let ?i = "digit_string (take ?k ds @ replicate (?k - length ds) 0)"
    have "json_int ?i"
      using ds by (intro json_int_digits) (auto simp: hd_append dest: in_set_takeD)
    moreover have "json_frac (frac_part (drop ?k ds))"
      using ds by (intro frac) (auto dest: in_set_dropD)
    moreover have "fmt_mag P m = ?i @ frac_part (drop ?k ds) @ []"
      using 3 False sd by (simp add: fmt_mag_def Let_def)
    ultimately show ?thesis using that json_exp.no_exp by blast
  qed
qed

text \<open>A well-formed double has a non-negative magnitude.\<close>

fun wf_double :: "double \<Rightarrow> bool" where
  "wf_double (DFin s m) = (0 \<le> m)"
| "wf_double d = True"

lemma fmt_g_value [json_intro]:
  assumes "isfinite d" and "wf_double d" and "0 < P"
  shows "json_value (fmt_g P d)"
proof (cases d)
  case (DFin s m)
  with assms obtain i f x where "fmt_mag P m = i @ f @ x" "json_int i" "json_frac f" "json_exp x"
    using fmt_mag_number [of m P] by auto
  then have "json_number (fmt_g P d)"
    using DFin json_number.pos [of i f x] json_number.neg [of i f x] by auto
  then show ?thesis by (rule json_value.number)
qed (use assms in auto)

text \<open>Without a backslash the quotes of a JSON text come in pairs.\<close>

lemma number_no_quote: "json_number s \<Longrightarrow> quote \<notin> set s"
proof -
  have d: "digit_run s \<Longrightarrow> quote \<notin> set s" for s
    by (auto simp: digit_run_def list_all_iff isdigit_def)
  have "json_frac s \<Longrightarrow> quote \<notin> set s" "json_exp s \<Longrightarrow> quote \<notin> set s" "json_int s \<Longrightarrow> quote \<notin> set s" for s
    using d by (auto simp: json_int_def elim!: json_frac.cases json_exp.cases)
  then show "json_number s \<Longrightarrow> quote \<notin> set s" by (auto elim!: json_number.cases)
qed

lemma chars_no_quote: "json_chars s \<Longrightarrow> bslash \<notin> set s \<Longrightarrow> quote \<notin> set s"
  by (induction s) auto

lemma string_even_quotes: "json_string s \<Longrightarrow> bslash \<notin> set s \<Longrightarrow> even (count_list s quote)"
  by (auto simp: json_string_def count_list_0_iff dest!: chars_no_quote)

lemma join_even_quotes:
  "\<forall>x\<in>set xs. bslash \<notin> set x \<longrightarrow> even (count_list x quote) \<Longrightarrow> bslash \<notin> set (join_comma xs) \<Longrightarrow> even (count_list (join_comma xs) quote)"
  by (induction xs rule: join_comma.induct) auto

lemma json_even_quotes: "json_value s \<Longrightarrow> bslash \<notin> set s \<longrightarrow> even (count_list s quote)"
proof (induction rule: json_value.induct)
  case (number s)
  then show ?case using number_no_quote by (simp add: count_list_0_iff)
next
  case (arr vs)
  then show ?case using join_even_quotes [of vs] by auto
next
  case (obj ms)
  then have "\<forall>x\<in>set (map (\<lambda>m. fst m @ '':'' @ snd m) ms). bslash \<notin> set x \<longrightarrow> even (count_list x quote)"
    using string_even_quotes by auto
  then show ?case using join_even_quotes [of "map (\<lambda>m. fst m @ '':'' @ snd m) ms"] by auto
qed (auto simp: string_even_quotes)

end
