(* ===== verification/Ua_Types.thy ===== *)
theory Ua_Types
  imports Json_Text
begin

text \<open>
  The OPC UA values the adapter handles, as the open62541 header declares them: the
  built-in types, the Variant and its relatives. An \<open>UA_String\<close> or \<open>UA_ByteString\<close>
  with a NULL data pointer is None. Signed integers are words read with \<open>sint\<close>. What the
  stack computes (names of status codes, calendar conversion, binary encoding) is the
  record \<open>stack\<close>, a parameter of the definitions that call it.
\<close>

datatype ua_type =
    TBoolean | TSByte | TByte | TInt16 | TUInt16 | TInt32 | TUInt32 | TInt64 | TUInt64
  | TFloat | TDouble | TString | TDateTime | TGuid | TByteString | TXmlElement | TNodeId
  | TExpandedNodeId | TStatusCode | TQualifiedName | TLocalizedText | TExtensionObject
  | TDataValue | TVariant | TDiagnosticInfo
  | TOther cstr \<comment> \<open>any other entry of \<open>UA_TYPES\<close>, by its typeName\<close>

type_synonym ua_string = "string option"
type_synonym ua_bytes = "byte list option"

record guid =
  data1 :: u32
  data2 :: u16
  data3 :: u16
  data4 :: "byte list"

datatype nid =
    Numeric u32 | StringId ua_string | GuidId guid | ByteStringId ua_bytes

record nodeid =
  namespaceIndex :: u16
  nid :: nid

record expanded_nodeid =
  serverIndex :: u32
  namespaceUri :: ua_string
  en_nodeId :: nodeid

record qname =
  qn_namespaceIndex :: u16
  qn_name :: ua_string

record ltext =
  lt_locale :: ua_string
  lt_text :: ua_string

text \<open>A decoded structure is known to the stack only; the number stands for it.\<close>

datatype opaque = Opaque nat

datatype extobj =
    NoBody
  | EncodedBytes nodeid ua_bytes
  | EncodedXml nodeid ua_bytes
  | Decoded nodeid cstr opaque \<comment> \<open>binaryEncodingId, typeName, data\<close>

datatype diaginfo = DiagnosticInfo
  (symbolicId: "u32 option") (di_namespaceUri: "u32 option") (localizedText: "u32 option")
  (di_locale: "u32 option") (additionalInfo: "ua_string option")
  (innerStatusCode: "u32 option") (innerDiagnosticInfo: "diaginfo option")

datatype ua_val =
    VBoolean bool | VSByte byte | VByte byte | VInt16 u16 | VUInt16 u16 | VInt32 u32
  | VUInt32 u32 | VInt64 u64 | VUInt64 u64 | VFloat double | VDouble double
  | VString ua_string | VDateTime u64 | VGuid guid | VByteString ua_bytes
  | VXmlElement ua_string | VNodeId nodeid | VExpandedNodeId expanded_nodeid
  | VStatusCode u32 | VQualifiedName qname | VLocalizedText ltext
  | VExtensionObject extobj | VDataValue datavalue | VVariant variant
  | VDiagnosticInfo diaginfo | VOther cstr opaque
and variant =
    EmptyVariant
  | Scalar ua_val
  | Array ua_type "ua_val list" "u32 list" \<comment> \<open>element type, elements, arrayDimensions\<close>
and datavalue = DataValue
  (dv_hasValue: bool) (dv_value: variant) (dv_status: "u32 option")
  (dv_sourceTimestamp: "u64 option") (dv_sourcePicoseconds: "u16 option")
  (dv_serverTimestamp: "u64 option") (dv_serverPicoseconds: "u16 option")

fun type_of :: "ua_val \<Rightarrow> ua_type" where
  "type_of (VBoolean _) = TBoolean"
| "type_of (VSByte _) = TSByte"
| "type_of (VByte _) = TByte"
| "type_of (VInt16 _) = TInt16"
| "type_of (VUInt16 _) = TUInt16"
| "type_of (VInt32 _) = TInt32"
| "type_of (VUInt32 _) = TUInt32"
| "type_of (VInt64 _) = TInt64"
| "type_of (VUInt64 _) = TUInt64"
| "type_of (VFloat _) = TFloat"
| "type_of (VDouble _) = TDouble"
| "type_of (VString _) = TString"
| "type_of (VDateTime _) = TDateTime"
| "type_of (VGuid _) = TGuid"
| "type_of (VByteString _) = TByteString"
| "type_of (VXmlElement _) = TXmlElement"
| "type_of (VNodeId _) = TNodeId"
| "type_of (VExpandedNodeId _) = TExpandedNodeId"
| "type_of (VStatusCode _) = TStatusCode"
| "type_of (VQualifiedName _) = TQualifiedName"
| "type_of (VLocalizedText _) = TLocalizedText"
| "type_of (VExtensionObject _) = TExtensionObject"
| "type_of (VDataValue _) = TDataValue"
| "type_of (VVariant _) = TVariant"
| "type_of (VDiagnosticInfo _) = TDiagnosticInfo"
| "type_of (VOther n _) = TOther n"

text \<open>The type pointer of a Variant; None for an empty one.\<close>

fun variant_type :: "variant \<Rightarrow> ua_type option" where
  "variant_type EmptyVariant = None"
| "variant_type (Scalar v) = Some (type_of v)"
| "variant_type (Array t vs ds) = Some t"

text \<open>\<open>UA_Variant_hasScalarType\<close>.\<close>

fun hasScalarType :: "variant \<Rightarrow> ua_type \<Rightarrow> bool" where
  "hasScalarType (Scalar v) t = (type_of v = t)"
| "hasScalarType _ t = False"

text \<open>Well-formed values: a Guid has eight final bytes, the magnitude of a double is not
  negative, an array holds elements of its own type, its dimensions (when it has any) multiply
  to its length as \<open>size_t\<close> computes it, and all of this in nested values too.\<close>

definition wf_guid :: "guid \<Rightarrow> bool" where
  "wf_guid g \<longleftrightarrow> length (data4 g) = 8"

definition wf_nodeid :: "nodeid \<Rightarrow> bool" where
  "wf_nodeid n = (case nid n of GuidId g \<Rightarrow> wf_guid g | _ \<Rightarrow> True)"

definition dims_product :: "u32 list \<Rightarrow> u64" where
  "dims_product ds = foldl (\<lambda>p d. p * ucast d) 1 ds"

fun wf_val :: "ua_val \<Rightarrow> bool" and wf_variant :: "variant \<Rightarrow> bool" and wf_datavalue :: "datavalue \<Rightarrow> bool" where
  "wf_val (VFloat d) = wf_double d"
| "wf_val (VDouble d) = wf_double d"
| "wf_val (VGuid g) = wf_guid g"
| "wf_val (VNodeId n) = wf_nodeid n"
| "wf_val (VExpandedNodeId n) = wf_nodeid (en_nodeId n)"
| "wf_val (VDataValue d) = wf_datavalue d"
| "wf_val (VVariant v) = wf_variant v"
| "wf_val _ = True"
| "wf_variant EmptyVariant = True"
| "wf_variant (Scalar v) = wf_val v"
| "wf_variant (Array t vs ds) = ((\<forall>v\<in>set vs. type_of v = t \<and> wf_val v)
     \<and> (ds = [] \<or> dims_product ds = word_of_nat (length vs)))"
| "wf_datavalue (DataValue hv v _ _ _ _ _) = wf_variant v"

text \<open>\<open>UA_NODEID_NULL\<close>, \<open>UA_NODEID_NUMERIC\<close>, \<open>UA_NodeId_isNull\<close>.\<close>

definition nodeid_numeric :: "u16 \<Rightarrow> u32 \<Rightarrow> nodeid" where
  "nodeid_numeric ns n = \<lparr>namespaceIndex = ns, nid = Numeric n\<rparr>"

definition nodeid_null :: nodeid where
  "nodeid_null = nodeid_numeric 0 0"

definition isNull :: "nodeid \<Rightarrow> bool" where
  "isNull n \<longleftrightarrow> namespaceIndex n = 0 \<and> (case nid n of Numeric i \<Rightarrow> i = 0 | StringId s \<Rightarrow> s = None \<or> s = Some []
     | GuidId g \<Rightarrow> g = \<lparr>data1 = 0, data2 = 0, data3 = 0, data4 = replicate 8 0\<rparr> | ByteStringId b \<Rightarrow> b = None \<or> b = Some [])"

definition nodeid_string :: "u16 \<Rightarrow> string \<Rightarrow> nodeid" where
  "nodeid_string ns s = \<lparr>namespaceIndex = ns, nid = StringId (Some s)\<rparr>"

record dt_struct =
  dts_year :: int
  dts_month :: u16
  dts_day :: u16
  dts_hour :: u16
  dts_min :: u16
  dts_sec :: u16
  dts_milliSec :: u16

record stack =
  StatusCode_name :: "u32 \<Rightarrow> cstr"
  StatusCode_isGood :: "u32 \<Rightarrow> bool"
  StatusCode_isUncertain :: "u32 \<Rightarrow> bool"
  builtin_typeName :: "ua_type \<Rightarrow> cstr" \<comment> \<open>typeName of the 25 built-in types\<close>
  DateTime_toStruct :: "u64 \<Rightarrow> dt_struct"
  encodeBinary :: "opaque \<Rightarrow> byte list option"
  redecode_extobj :: "extobj \<Rightarrow> extobj option"
    \<comment> \<open>\<open>UA_encodeBinary\<close> followed by \<open>UA_decodeBinary\<close> of an ExtensionObject\<close>

text \<open>\<open>type->typeName\<close>.\<close>

fun typeName :: "stack \<Rightarrow> ua_type \<Rightarrow> cstr" where
  "typeName st (TOther n) = n"
| "typeName st t = builtin_typeName st t"

abbreviation GOOD :: u32 where
  "GOOD \<equiv> 0"

text \<open>The status codes the sources compare with or return, by their numbers in OPC UA Part 6.\<close>

abbreviation BADUNEXPECTEDERROR :: u32 where "BADUNEXPECTEDERROR \<equiv> 0x80010000"
abbreviation BADINTERNALERROR :: u32 where "BADINTERNALERROR \<equiv> 0x80020000"
abbreviation BADCOMMUNICATIONERROR :: u32 where "BADCOMMUNICATIONERROR \<equiv> 0x80050000"
abbreviation BADDECODINGERROR :: u32 where "BADDECODINGERROR \<equiv> 0x80070000"
abbreviation BADTIMEOUT :: u32 where "BADTIMEOUT \<equiv> 0x800A0000"
abbreviation BADSERVERNOTCONNECTED :: u32 where "BADSERVERNOTCONNECTED \<equiv> 0x800D0000"
abbreviation BADSECURITYCHECKSFAILED :: u32 where "BADSECURITYCHECKSFAILED \<equiv> 0x80130000"
abbreviation BADSECURECHANNELIDINVALID :: u32 where "BADSECURECHANNELIDINVALID \<equiv> 0x80220000"
abbreviation BADSESSIONIDINVALID :: u32 where "BADSESSIONIDINVALID \<equiv> 0x80250000"
abbreviation BADSESSIONCLOSED :: u32 where "BADSESSIONCLOSED \<equiv> 0x80260000"
abbreviation BADCONTINUATIONPOINTINVALID :: u32 where "BADCONTINUATIONPOINTINVALID \<equiv> 0x804A0000"
abbreviation BADSERVERURIINVALID :: u32 where "BADSERVERURIINVALID \<equiv> 0x804F0000"
abbreviation BADNAMESPACEURIINVALID :: u32 where "BADNAMESPACEURIINVALID \<equiv> 0x80530000"
abbreviation BADSECURITYPOLICYREJECTED :: u32 where "BADSECURITYPOLICYREJECTED \<equiv> 0x80550000"
abbreviation BADNOMATCH :: u32 where "BADNOMATCH \<equiv> 0x806F0000"
abbreviation BADHISTORYOPERATIONUNSUPPORTED :: u32 where "BADHISTORYOPERATIONUNSUPPORTED \<equiv> 0x80720000"
abbreviation BADSECURECHANNELCLOSED :: u32 where "BADSECURECHANNELCLOSED \<equiv> 0x80860000"
abbreviation BADNOTCONNECTED :: u32 where "BADNOTCONNECTED \<equiv> 0x808A0000"
abbreviation BADINVALIDARGUMENT :: u32 where "BADINVALIDARGUMENT \<equiv> 0x80AB0000"
abbreviation BADCONNECTIONREJECTED :: u32 where "BADCONNECTIONREJECTED \<equiv> 0x80AC0000"
abbreviation BADDISCONNECT :: u32 where "BADDISCONNECT \<equiv> 0x80AD0000"
abbreviation BADCONNECTIONCLOSED :: u32 where "BADCONNECTIONCLOSED \<equiv> 0x80AE0000"

text \<open>An instance of the stack: severities from the two top bits of a status code as OPC UA
  defines them, everything else constant. Statements that rest on laws of the stack are
  applied at it.\<close>

definition plain_stack :: stack where
  "plain_stack = \<lparr>StatusCode_name = (\<lambda>c. if c = GOOD then Some ''Good'' else None),
     StatusCode_isGood = (\<lambda>c. drop_bit 30 c = 0),
     StatusCode_isUncertain = (\<lambda>c. drop_bit 30 c = 1),
     builtin_typeName = (\<lambda>_. Some ''BuiltIn''),
     DateTime_toStruct = (\<lambda>_. \<lparr>dts_year = 1601, dts_month = 1, dts_day = 1, dts_hour = 0, dts_min = 0,
        dts_sec = 0, dts_milliSec = 0\<rparr>),
     encodeBinary = (\<lambda>_. None), redecode_extobj = (\<lambda>_. None)\<rparr>"

end
