(* ===== verification/Values.thy ===== *)
theory Values
  imports Base64 CJson Ua_Types
begin

text \<open>
  values.c: the literal syntax of values on the command line (\<open>--type\<close>, \<open>--value\<close>,
  \<open>--dimensions\<close>), for the 25 built-in types, arrays and matrices. An out parameter that
  is filled on success is the value of the result; an int result that only says success or
  failure is an option, and a result with a message in \<open>errBuf\<close> is the type \<open>res\<close> (the
  message before it is cut to the buffer).
\<close>

section \<open>The built-in type table\<close>

definition g_builtin :: "(string \<times> ua_type) list" where
  "g_builtin =
   [(''Boolean'', TBoolean), (''SByte'', TSByte), (''Byte'', TByte), (''Int16'', TInt16),
    (''UInt16'', TUInt16), (''Int32'', TInt32), (''UInt32'', TUInt32), (''Int64'', TInt64),
    (''UInt64'', TUInt64), (''Float'', TFloat), (''Double'', TDouble), (''String'', TString),
    (''DateTime'', TDateTime), (''Guid'', TGuid), (''ByteString'', TByteString),
    (''XmlElement'', TXmlElement), (''NodeId'', TNodeId), (''ExpandedNodeId'', TExpandedNodeId),
    (''StatusCode'', TStatusCode), (''QualifiedName'', TQualifiedName),
    (''LocalizedText'', TLocalizedText), (''ExtensionObject'', TExtensionObject),
    (''DataValue'', TDataValue), (''Variant'', TVariant), (''DiagnosticInfo'', TDiagnosticInfo)]"

definition value_builtin_type :: "cstr \<Rightarrow> ua_type option" where
  "value_builtin_type name = (case name of None \<Rightarrow> None
     | Some n \<Rightarrow> map_option snd (find (\<lambda>e. n = fst e) g_builtin))"

definition value_type_name :: "ua_type option \<Rightarrow> string" where
  "value_type_name type = (case type of None \<Rightarrow> ''Unknown''
     | Some t \<Rightarrow> (case find (\<lambda>e. t = snd e) g_builtin of
         Some e \<Rightarrow> fst e
       | None \<Rightarrow> (case t of TOther (Some n) \<Rightarrow> n | _ \<Rightarrow> ''Unknown'')))"

section \<open>Scalar literals\<close>

definition UA_DATETIME_SEC :: int where
  "UA_DATETIME_SEC = 10000000"

text \<open>The digits after the point: how many were kept (at most 7), the ticks they give, the rest.\<close>

fun frac_loop :: "string \<Rightarrow> nat \<Rightarrow> int \<Rightarrow> nat \<times> int \<times> string" where
  "frac_loop [] digits ticks = (digits, ticks, [])"
| "frac_loop (c # p) digits ticks =
    (if isdigit c then
       (if digits < 7 then frac_loop p (digits + 1) (ticks * 10 + (of_char c - of_char CHR ''0''))
        else frac_loop p digits ticks)
     else (digits, ticks, c # p))"

function scale_loop :: "nat \<Rightarrow> int \<Rightarrow> int" where
  "scale_loop digits ticks = (if digits < 7 then scale_loop (digits + 1) (ticks * 10) else ticks)"
  by auto
termination by (relation "measure (\<lambda>(digits, ticks). 7 - digits)") auto

declare scale_loop.simps [simp del]

definition value_parse_datetime :: "cstr \<Rightarrow> u64 option" where
  "value_parse_datetime s = (case s of None \<Rightarrow> None | Some [] \<Rightarrow> None
     | Some s \<Rightarrow>
        (case sscanf_ints ''--T::'' s of
           ([Y, M, D, h, m, sec], p) \<Rightarrow>
             (let (ticks, p) =
                (case p of c # p' \<Rightarrow>
                   (if c = CHR ''.'' then
                      (case frac_loop p' 0 0 of (digits, ticks, r) \<Rightarrow> (scale_loop digits ticks, r))
                    else (0, p))
                 | [] \<Rightarrow> (0, p))
              in if p \<noteq> [] \<and> hd p \<noteq> CHR ''Z'' \<and> hd p \<noteq> CHR ''z'' then None
                 else
                   let t = timegm \<lparr>tm_year = Y - 1900, tm_mon = M - 1, tm_mday = D,
                                   tm_hour = h, tm_min = m, tm_sec = sec\<rparr>
                   in Some (word_of_int ((t + 11644473600) * UA_DATETIME_SEC + ticks)))
         | _ \<Rightarrow> None))"

definition guid_format :: "scan_item list" where
  "guid_format =
    [Hex 8, Lit CHR ''-'', Hex 4, Lit CHR ''-'', Hex 4, Lit CHR ''-'', Hex 2, Hex 2, Lit CHR ''-'',
     Hex 2, Hex 2, Hex 2, Hex 2, Hex 2, Hex 2]"

definition parse_guid :: "cstr \<Rightarrow> guid option" where
  "parse_guid s = (case s of None \<Rightarrow> None
     | Some s \<Rightarrow> if length s \<noteq> 36 then None else
         (case sscanf_hexes guid_format s of
            d1 # d2 # d3 # b \<Rightarrow>
              (if length b \<noteq> 8 then None else
               Some \<lparr>data1 = word_of_nat d1, data2 = word_of_nat d2, data3 = word_of_nat d3,
                     data4 = map word_of_nat b\<rparr>)
          | _ \<Rightarrow> None))"

definition parse_nodeid_ident :: "string \<Rightarrow> u16 \<Rightarrow> nodeid option" where
  "parse_nodeid_ident s ns =
    (if starts_with ''i='' s then
       (case strtoul 10 (drop 2 s) of (v, end, _) \<Rightarrow>
          if end = drop 2 s \<or> end \<noteq> [] then None
          else Some \<lparr>namespaceIndex = ns, nid = Numeric (ucast v)\<rparr>)
     else if starts_with ''s='' s then
       Some \<lparr>namespaceIndex = ns, nid = StringId (Some (drop 2 s))\<rparr>
     else if starts_with ''g='' s then
       map_option (\<lambda>g. \<lparr>namespaceIndex = ns, nid = GuidId g\<rparr>) (parse_guid (Some (drop 2 s)))
     else if starts_with ''b='' s then
       map_option (\<lambda>raw. \<lparr>namespaceIndex = ns, nid = ByteStringId (Some raw)\<rparr>)
         (value_b64_decode (Some (drop 2 s)))
     else None)"

definition parse_nodeid :: "string \<Rightarrow> nodeid option" where
  "parse_nodeid s =
    (if starts_with ''ns='' s then
       (case strtoul 10 (drop 3 s) of (v, end, _) \<Rightarrow>
         (case end of [] \<Rightarrow> None
          | c # r \<Rightarrow> if c \<noteq> CHR '';'' then None else parse_nodeid_ident r (ucast v)))
     else parse_nodeid_ident s 0)"

text \<open>The part of \<open>parse_expanded_nodeid\<close> after the server index.\<close>

definition parse_expanded_tail :: "u32 \<Rightarrow> string \<Rightarrow> expanded_nodeid option" where
  "parse_expanded_tail svr s =
    (if starts_with ''nsu='' s then
       (case strchr CHR '';'' (drop 4 s) of None \<Rightarrow> None
        | Some (uri, semi) \<Rightarrow>
            map_option (\<lambda>n. \<lparr>serverIndex = svr, namespaceUri = Some uri, en_nodeId = n\<rparr>)
              (parse_nodeid_ident (tl semi) 0))
     else map_option (\<lambda>n. \<lparr>serverIndex = svr, namespaceUri = None, en_nodeId = n\<rparr>)
            (parse_nodeid s))"

definition parse_expanded_nodeid :: "string \<Rightarrow> expanded_nodeid option" where
  "parse_expanded_nodeid s =
    (if starts_with ''svr='' s then
       (case strtoul 10 (drop 4 s) of (v, end, _) \<Rightarrow>
         (case end of [] \<Rightarrow> None
          | c # r \<Rightarrow> if c \<noteq> CHR '';'' then None else parse_expanded_tail (ucast v) r))
     else parse_expanded_tail 0 s)"

definition parse_u32 :: "cstr \<Rightarrow> u32 option" where
  "parse_u32 s = (case s of None \<Rightarrow> None | Some [] \<Rightarrow> None
     | Some s \<Rightarrow> (case strtoul 0 s of (v, end, _) \<Rightarrow>
         if end = s \<or> end \<noteq> [] then None else Some (ucast v)))"

definition parse_double_lit :: "cstr \<Rightarrow> double option" where
  "parse_double_lit s = (case s of None \<Rightarrow> None | Some [] \<Rightarrow> None
     | Some s \<Rightarrow>
         if s = ''NaN'' then Some DNaN
         else if s = ''Infinity'' then Some (DInf False)
         else if s = ''-Infinity'' then Some (DInf True)
         else (case strtod s of (d, converted) \<Rightarrow> if converted then Some d else None))"

definition split_typed :: "string \<Rightarrow> nat \<Rightarrow> (string \<times> string) option" where
  "split_typed s typeLen = (case strchr CHR '':'' s of None \<Rightarrow> None
     | Some (t, colon) \<Rightarrow>
         if length t = 0 \<or> typeLen \<le> length t then None else Some (t, tl colon))"

definition parse_extension_object :: "stack \<Rightarrow> string \<Rightarrow> extobj option" where
  "parse_extension_object st s = (case strchr CHR ''|'' s of None \<Rightarrow> None
     | Some (idBuf, bar) \<Rightarrow>
         if length idBuf = 0 \<or> 512 \<le> length idBuf then None else
         (case parse_nodeid idBuf of None \<Rightarrow> None
          | Some typeId \<Rightarrow>
              (case value_b64_decode (Some (tl bar)) of None \<Rightarrow> None
               | Some body \<Rightarrow>
                   let raw = EncodedBytes typeId (Some body) in
                   (case redecode_extobj st raw of Some out \<Rightarrow> Some out | None \<Rightarrow> Some raw))))"

definition diag_init :: diaginfo where
  "diag_init = DiagnosticInfo None None None None None None None"

text \<open>One \<open>key=value\<close> token of a DiagnosticInfo literal.\<close>

definition diag_token :: "diaginfo \<Rightarrow> string \<Rightarrow> diaginfo option" where
  "diag_token out tok = (case strchr CHR ''='' tok of None \<Rightarrow> None
     | Some (key, eq) \<Rightarrow>
        (let val = tl eq; n = Some (word_of_int (atoi val)) in
         case out of DiagnosticInfo sid uri txt loc info code inner \<Rightarrow>
           if key = ''symbolicId'' then Some (DiagnosticInfo n uri txt loc info code inner)
           else if key = ''namespaceUri'' then Some (DiagnosticInfo sid n txt loc info code inner)
           else if key = ''localizedText'' then Some (DiagnosticInfo sid uri n loc info code inner)
           else if key = ''locale'' then Some (DiagnosticInfo sid uri txt n info code inner)
           else if key = ''additionalInfo'' then
             Some (DiagnosticInfo sid uri txt loc (Some (Some val)) code inner)
           else if key = ''innerStatusCode'' then
             map_option (\<lambda>c. DiagnosticInfo sid uri txt loc info (Some c) inner) (parse_u32 (Some val))
           else None))"

fun diag_tokens :: "diaginfo \<Rightarrow> string list \<Rightarrow> diaginfo option" where
  "diag_tokens out [] = Some out"
| "diag_tokens out (tok # toks) = (case diag_token out tok of None \<Rightarrow> None
     | Some out' \<Rightarrow> diag_tokens out' toks)"

definition parse_diagnostic_info :: "string \<Rightarrow> diaginfo option" where
  "parse_diagnostic_info s = diag_tokens diag_init (strtok_all CHR '';'' s)"

definition require :: "string \<Rightarrow> 'a option \<Rightarrow> ('a \<Rightarrow> ua_val) \<Rightarrow> ua_val res option" where
  "require msg x f = Some (case x of None \<Rightarrow> Fail msg | Some v \<Rightarrow> Ok (f v))"

definition parse_qualified_name :: "string \<Rightarrow> qname" where
  "parse_qualified_name lit = (case strchr CHR '':'' lit of
     Some (_, colon) \<Rightarrow> \<lparr>qn_namespaceIndex = word_of_int (atoi lit), qn_name = Some (tl colon)\<rparr>
   | None \<Rightarrow> \<lparr>qn_namespaceIndex = 0, qn_name = Some lit\<rparr>)"

definition parse_localized_text :: "string \<Rightarrow> ltext" where
  "parse_localized_text lit = (case strchr CHR '':'' lit of
     Some (loc, colon) \<Rightarrow>
       \<lparr>lt_locale = (if 0 < length loc then Some loc else None), lt_text = Some (tl colon)\<rparr>
   | None \<Rightarrow> \<lparr>lt_locale = None, lt_text = Some lit\<rparr>)"

text \<open>\<open>parse_scalar\<close>. The parameter vp is the recursive call \<open>value_parse (t, rest, NULL)\<close> of
  the DataValue and Variant cases; None is a call that did not return.\<close>

definition parse_scalar ::
  "(string \<Rightarrow> string \<Rightarrow> variant res option) \<Rightarrow> stack \<Rightarrow> ua_type \<Rightarrow> cstr \<Rightarrow> ua_val res option" where
  "parse_scalar vp st type lit0 =
    (let lit = (case lit0 of None \<Rightarrow> [] | Some l \<Rightarrow> l) in
     case type of
       TBoolean \<Rightarrow> Some (Ok (VBoolean (lit = ''true'' \<or> lit = ''1'')))
     | TSByte \<Rightarrow> Some (Ok (VSByte (word_of_int (atoi lit))))
     | TByte \<Rightarrow> Some (Ok (VByte (word_of_int (atoi lit))))
     | TInt16 \<Rightarrow> Some (Ok (VInt16 (word_of_int (atoi lit))))
     | TUInt16 \<Rightarrow> Some (Ok (VUInt16 (word_of_int (atoi lit))))
     | TInt32 \<Rightarrow> Some (Ok (VInt32 (word_of_int (atoi lit))))
     | TUInt32 \<Rightarrow> Some (Ok (VUInt32 (ucast (fst (strtoul 10 lit)))))
     | TInt64 \<Rightarrow> Some (Ok (VInt64 (word_of_int (strtoll lit))))
     | TUInt64 \<Rightarrow> Some (Ok (VUInt64 (strtoull lit)))
     | TFloat \<Rightarrow> require (''invalid Float literal '' @ [CHR 0x27] @ lit @ [CHR 0x27])
         (parse_double_lit (Some lit)) (\<lambda>d. VFloat (to_float d))
     | TDouble \<Rightarrow> require (''invalid Double literal '' @ [CHR 0x27] @ lit @ [CHR 0x27])
         (parse_double_lit (Some lit)) VDouble
     | TString \<Rightarrow> Some (Ok (VString (Some lit)))
     | TXmlElement \<Rightarrow> Some (Ok (VXmlElement (Some lit)))
     | TDateTime \<Rightarrow> require (''invalid DateTime literal '' @ [CHR 0x27] @ lit @ [CHR 0x27]
           @ '' (want RFC 3339 UTC)'') (value_parse_datetime (Some lit)) VDateTime
     | TGuid \<Rightarrow> require (''invalid Guid literal '' @ [CHR 0x27] @ lit @ [CHR 0x27])
         (parse_guid (Some lit)) VGuid
     | TByteString \<Rightarrow> require ''invalid Base64 ByteString literal''
         (value_b64_decode (Some lit)) (\<lambda>raw. VByteString (Some raw))
     | TNodeId \<Rightarrow> require (''invalid NodeId literal '' @ [CHR 0x27] @ lit @ [CHR 0x27])
         (parse_nodeid lit) VNodeId
     | TExpandedNodeId \<Rightarrow> require (''invalid ExpandedNodeId literal '' @ [CHR 0x27] @ lit @ [CHR 0x27])
         (parse_expanded_nodeid lit) VExpandedNodeId
     | TStatusCode \<Rightarrow> require (''invalid StatusCode literal '' @ [CHR 0x27] @ lit @ [CHR 0x27])
         (parse_u32 (Some lit)) VStatusCode
     | TQualifiedName \<Rightarrow> Some (Ok (VQualifiedName (parse_qualified_name lit)))
     | TLocalizedText \<Rightarrow> Some (Ok (VLocalizedText (parse_localized_text lit)))
     | TExtensionObject \<Rightarrow> require ''invalid ExtensionObject literal (want <typeId>|<base64 body>)''
         (parse_extension_object st lit) VExtensionObject
     | TDataValue \<Rightarrow>
         (case split_typed lit 64 of
            None \<Rightarrow> Some (Fail ''invalid DataValue literal (want <Type>:<value>)'')
          | Some (t, rest) \<Rightarrow> map_option (\<lambda>r. case r of Inl e \<Rightarrow> Inl e
              | Inr v \<Rightarrow> Inr (VDataValue (DataValue True v None None None None None))) (vp t rest))
     | TVariant \<Rightarrow>
         (case split_typed lit 64 of
            None \<Rightarrow> Some (Fail ''invalid Variant literal (want <Type>:<value>)'')
          | Some (t, rest) \<Rightarrow> map_option (\<lambda>r. case r of Inl e \<Rightarrow> Inl e | Inr v \<Rightarrow> Inr (VVariant v)) (vp t rest))
     | TDiagnosticInfo \<Rightarrow> require ''invalid DiagnosticInfo literal (want key=value;...)''
         (parse_diagnostic_info lit) VDiagnosticInfo
     | TOther n \<Rightarrow> Some (Fail (''unsupported type '' @ [CHR 0x27]
         @ (case n of None \<Rightarrow> ''?'' | Some tn \<Rightarrow> tn) @ [CHR 0x27])))"

section \<open>Arrays\<close>

text \<open>\<open>strlist_push\<close> of one element of a JSON array: a string as it is, anything else as
  its printed text.\<close>

definition element_text :: "cjson_lib \<Rightarrow> cjson \<Rightarrow> cstr" where
  "element_text J el = (if cJSON_IsString el then valuestring el else cJSON_PrintUnformatted J el)"

fun element_texts :: "cjson_lib \<Rightarrow> cjson list \<Rightarrow> string list option" where
  "element_texts J [] = Some []"
| "element_texts J (el # els) = (case element_text J el of None \<Rightarrow> None
     | Some t \<Rightarrow> map_option ((#) t) (element_texts J els))"

definition skip_blanks :: "string \<Rightarrow> string" where
  "skip_blanks s = dropWhile (\<lambda>c. c = CHR '' '') s"

definition split_array_literal :: "cjson_lib \<Rightarrow> cstr \<Rightarrow> string list option" where
  "split_array_literal J val = (case val of None \<Rightarrow> Some [] | Some [] \<Rightarrow> Some []
     | Some s \<Rightarrow>
         let p = skip_blanks s in
         if p \<noteq> [] \<and> hd p = CHR ''['' then
           (case cJSON_Parse J p of
              Some (CArray els) \<Rightarrow> element_texts J els
            | _ \<Rightarrow> None)
         else Some (split_on CHR '','' s))"

section \<open>value_parse\<close>

text \<open>Running the scalar parser over the elements, stopping at the first that fails.\<close>

fun parse_elements :: "(cstr \<Rightarrow> ua_val res option) \<Rightarrow> string list \<Rightarrow> ua_val list res option" where
  "parse_elements ps [] = Some (Ok [])"
| "parse_elements ps (x # xs) = (case ps (Some x) of None \<Rightarrow> None
     | Some (Inl e) \<Rightarrow> Some (Inl e)
     | Some (Inr v) \<Rightarrow> (case parse_elements ps xs of None \<Rightarrow> None
         | Some (Inl e) \<Rightarrow> Some (Inl e)
         | Some (Inr vs) \<Rightarrow> Some (Inr (v # vs))))"

definition ends_with_brackets :: "string \<Rightarrow> bool" where
  "ends_with_brackets s \<longleftrightarrow> 2 < length s \<and> drop (length s - 2) s = ''[]''"

definition check_dimensions ::
  "cjson_lib \<Rightarrow> cstr \<Rightarrow> ua_type \<Rightarrow> ua_val list \<Rightarrow> variant res" where
  "check_dimensions J dims type vs =
    (case dims of
       None \<Rightarrow> Ok (Array type vs [])
     | Some [] \<Rightarrow> Ok (Array type vs [])
     | Some ds \<Rightarrow>
         (case split_array_literal J (Some ds) of
            None \<Rightarrow> Fail ''invalid --dimensions''
          | Some [] \<Rightarrow> Fail ''invalid --dimensions''
          | Some dl \<Rightarrow>
              let d = map (\<lambda>x. ucast (fst (strtoul 10 x)) :: u32) dl;
                  product = dims_product d
              in if product \<noteq> word_of_nat (length vs)
                 then Fail (''--dimensions product does not match the '' @ dec (length vs)
                        @ '' array elements'')
                 else Ok (Array type vs d)))"

text \<open>The body of \<open>value_parse\<close>; vp is the recursive call on a nested literal.\<close>

definition value_parse_body ::
  "(string \<Rightarrow> string \<Rightarrow> variant res option) \<Rightarrow> cjson_lib \<Rightarrow> stack \<Rightarrow> cstr \<Rightarrow> cstr \<Rightarrow> cstr \<Rightarrow> variant res option" where
  "value_parse_body vp J st typeStr valStr dims =
    (case typeStr of None \<Rightarrow> Some (Fail ''missing type'') | Some [] \<Rightarrow> Some (Fail ''missing type'')
     | Some ts \<Rightarrow>
       let isArray = ends_with_brackets ts;
           name = (if isArray then take (length ts - 2) ts else ts);
           unknown = Some (Fail (''unknown type '' @ [CHR 0x27] @ ts @ [CHR 0x27]))
       in if 64 \<le> length name then unknown else
       (case value_builtin_type (Some name) of None \<Rightarrow> unknown
        | Some type \<Rightarrow>
          if \<not> isArray then
            if (case dims of None \<Rightarrow> False | Some d \<Rightarrow> d \<noteq> []) then
              Some (Fail (''--dimensions requires an array type ('' @ name @ ''[])''))
            else if type = TVariant then
              (case parse_scalar vp st type valStr of None \<Rightarrow> None
               | Some (Inl e) \<Rightarrow> Some (Inl e)
               | Some (Inr (VVariant v)) \<Rightarrow> Some (Inr v)
               | Some (Inr v) \<Rightarrow> Some (Inr (Scalar v)))
            else map_option (\<lambda>r. case r of Inl e \<Rightarrow> Inl e | Inr v \<Rightarrow> Inr (Scalar v))
                   (parse_scalar vp st type valStr)
          else
            (case split_array_literal J valStr of None \<Rightarrow> Some (Fail ''invalid array literal'')
             | Some items \<Rightarrow>
                (case parse_elements (parse_scalar vp st type) items of None \<Rightarrow> None
                 | Some (Inl e) \<Rightarrow> Some (Inl e)
                 | Some (Inr vs) \<Rightarrow> Some (check_dimensions J dims type vs)))))"

text \<open>
  A literal may nest: \<open>Variant[]\<close> and \<open>DataValue[]\<close> elements are literals again. The first
  argument bounds the nesting; None is a call cut off by it. Every nested literal is shorter
  than the one it is part of (what the JSON library returns included), so a bound of the
  length of the literal plus one is never reached: see \<open>value_parse_returns\<close>.
\<close>

fun value_parse_fuel :: "nat \<Rightarrow> cjson_lib \<Rightarrow> stack \<Rightarrow> cstr \<Rightarrow> cstr \<Rightarrow> cstr \<Rightarrow> variant res option" where
  "value_parse_fuel 0 J st typeStr valStr dims = None"
| "value_parse_fuel (Suc n) J st typeStr valStr dims =
    value_parse_body (\<lambda>t rest. value_parse_fuel n J st (Some t) (Some rest) None) J st typeStr valStr dims"

definition value_parse :: "cjson_lib \<Rightarrow> stack \<Rightarrow> cstr \<Rightarrow> cstr \<Rightarrow> cstr \<Rightarrow> variant res option" where
  "value_parse J st typeStr valStr dims =
    value_parse_fuel (Suc (length (case valStr of None \<Rightarrow> [] | Some v \<Rightarrow> v))) J st typeStr valStr dims"

section \<open>What is parsed is well typed\<close>

lemma round_mag_nonneg: "round_mag p lo hi m = Some r \<Longrightarrow> 0 \<le> m \<Longrightarrow> 0 \<le> r"
proof -
  assume r: "round_mag p lo hi m = Some r" and m: "0 \<le> m"
  have pos: "0 < pow2 q" for q by (simp add: pow2_def)
  have re: "0 \<le> x \<Longrightarrow> 0 \<le> round_even x" for x
    by (auto simp: round_even_def Let_def)
  have "0 \<le> of_int (round_even (m / pow2 q)) * pow2 q" for q
    using m pos [of q] re [of "m / pow2 q"] by simp
  with r show ?thesis by (auto simp: round_mag_def Let_def split: if_splits)
qed

lemma wf_mk_fp: "0 \<le> m \<Longrightarrow> wf_double (mk_fp (round_mag p lo hi) s m)"
  by (auto simp: mk_fp_def dest: round_mag_nonneg split: option.splits)

lemma wf_to_float: "wf_double d \<Longrightarrow> wf_double (to_float d)"
  by (cases d) (simp_all add: wf_mk_fp)

lemma pow10_nonneg: "0 \<le> pow10 e" and pow2_nonneg: "0 \<le> pow2 e"
  by (simp_all add: pow10_def pow2_def)

lemma wf_mk_double: "0 \<le> m \<Longrightarrow> wf_double (mk_double s m)"
  by (simp add: mk_double_def wf_mk_fp)

lemma hex_mag_nonneg: "hex_mag r = Some m \<Longrightarrow> 0 \<le> m"
  by (auto simp: hex_mag_def pow2_nonneg split: list.splits if_splits prod.splits)

lemma dec_mag_nonneg: "dec_mag r = Some m \<Longrightarrow> 0 \<le> m"
  by (auto simp: dec_mag_def pow10_nonneg split: if_splits prod.splits)

lemma wf_strtod: "wf_double (fst (strtod s))"
  by (auto simp: strtod_def wf_mk_double hex_mag_nonneg dec_mag_nonneg split: prod.split option.split)

lemma wf_parse_double_lit: "parse_double_lit s = Some d \<Longrightarrow> wf_double d"
  using wf_strtod [of "the s"]
  by (auto simp: parse_double_lit_def split: option.splits list.splits if_splits prod.splits)

lemma wf_parse_guid: "parse_guid s = Some g \<Longrightarrow> wf_guid g"
  by (auto simp: parse_guid_def wf_guid_def split: option.splits list.splits if_splits)

lemma wf_parse_nodeid_ident: "parse_nodeid_ident s ns = Some n \<Longrightarrow> wf_nodeid n"
  by (auto simp: parse_nodeid_ident_def wf_nodeid_def dest: wf_parse_guid
    split: if_splits prod.splits)

lemma wf_parse_nodeid: "parse_nodeid s = Some n \<Longrightarrow> wf_nodeid n"
  by (auto simp: parse_nodeid_def dest: wf_parse_nodeid_ident
    split: if_splits prod.splits list.splits)

lemma wf_parse_expanded_nodeid: "parse_expanded_nodeid s = Some n \<Longrightarrow> wf_nodeid (en_nodeId n)"
  by (auto simp: parse_expanded_nodeid_def parse_expanded_tail_def dest: wf_parse_nodeid wf_parse_nodeid_ident
    split: if_splits prod.splits list.splits option.splits)

lemma require_Ok: "require msg x f = Some (Inr v) \<longleftrightarrow> (\<exists>y. x = Some y \<and> v = f y)"
  by (auto simp: require_def split: option.splits)

lemma wf_parse_float: "parse_double_lit s = Some d \<Longrightarrow> wf_double (to_float d)"
  by (rule wf_to_float) (rule wf_parse_double_lit)

lemmas wf_parts = wf_parse_double_lit wf_parse_float wf_parse_guid wf_parse_nodeid wf_parse_expanded_nodeid

lemma parse_scalar_typed [typing]:
  assumes "parse_scalar vp st t lit = Some (Inr v)"
    and "\<And>ty r u. vp ty r = Some (Inr u) \<Longrightarrow> wf_variant u"
  shows "type_of v = t \<and> wf_val v"
  using assms
  by (cases t) (auto simp: parse_scalar_def Let_def require_Ok intro: wf_parts
    split: option.splits sum.splits)

lemma parse_elements_Ok:
  "parse_elements ps xs = Some (Inr vs) \<Longrightarrow> list_all2 (\<lambda>x v. ps (Some x) = Some (Inr v)) xs vs"
  by (induction xs arbitrary: vs) (auto split: option.splits sum.splits)

lemma parse_elements_typed:
  assumes "parse_elements ps xs = Some (Inr vs)"
    and "\<And>x v. ps x = Some (Inr v) \<Longrightarrow> P v"
  shows "\<forall>v\<in>set vs. P v"
  using parse_elements_Ok [OF assms(1)] assms(2)
  by (fastforce simp: list_all2_conv_all_nth in_set_conv_nth)

lemma check_dimensions_typed:
  assumes "check_dimensions J dims t vs = Inr out" and "\<forall>v\<in>set vs. type_of v = t \<and> wf_val v"
  shows "wf_variant out \<and> variant_type out = Some t"
  using assms
  by (auto simp: check_dimensions_def Let_def split: option.splits list.splits if_splits)

text \<open>What the type string asks for: the element type, and whether it is an array type.\<close>

definition asked_type :: "string \<Rightarrow> (ua_type \<times> bool) option" where
  "asked_type ts =
    (let isArray = ends_with_brackets ts; name = (if isArray then take (length ts - 2) ts else ts)
     in map_option (\<lambda>t. (t, isArray)) (value_builtin_type (Some name)))"

definition shape_ok :: "ua_type \<times> bool \<Rightarrow> variant \<Rightarrow> bool" where
  "shape_ok a out = (case a of (t, isArray) \<Rightarrow>
     if isArray then (\<exists>vs ds. out = Array t vs ds)
     else if t = TVariant then True else (\<exists>v. out = Scalar v \<and> type_of v = t))"

lemma check_dimensions_Array:
  "check_dimensions J dims t vs = Inr out \<Longrightarrow> \<exists>ds. out = Array t vs ds"
  by (auto simp: check_dimensions_def Let_def split: option.splits list.splits if_splits)

lemma type_of_TVariant: "type_of v = TVariant \<longleftrightarrow> (\<exists>u. v = VVariant u)"
  by (cases v) auto

lemma parse_scalar_TVariant:
  "parse_scalar vp st TVariant lit = Some (Inr v) \<Longrightarrow> \<exists>u. v = VVariant u"
  by (auto simp: parse_scalar_def Let_def split: option.splits sum.splits)

text \<open>One unfolding for a non-empty type string s.\<close>

lemma value_parse_body_step:
  assumes "s \<noteq> []" and "name = (if ends_with_brackets s then take (length s - 2) s else s)"
  shows "value_parse_body vp J st (Some s) v d =
    (if 64 \<le> length name then Some (Fail (''unknown type '' @ [CHR 0x27] @ s @ [CHR 0x27])) else
       (case value_builtin_type (Some name) of None \<Rightarrow> Some (Fail (''unknown type '' @ [CHR 0x27] @ s @ [CHR 0x27]))
        | Some type \<Rightarrow>
          if \<not> ends_with_brackets s then
            if (case d of None \<Rightarrow> False | Some d \<Rightarrow> d \<noteq> []) then
              Some (Fail (''--dimensions requires an array type ('' @ name @ ''[])''))
            else if type = TVariant then
              (case parse_scalar vp st type v of None \<Rightarrow> None
               | Some (Inl e) \<Rightarrow> Some (Inl e)
               | Some (Inr (VVariant v)) \<Rightarrow> Some (Inr v)
               | Some (Inr v) \<Rightarrow> Some (Inr (Scalar v)))
            else map_option (\<lambda>r. case r of Inl e \<Rightarrow> Inl e | Inr v \<Rightarrow> Inr (Scalar v))
                   (parse_scalar vp st type v)
          else
            (case split_array_literal J v of None \<Rightarrow> Some (Fail ''invalid array literal'')
             | Some items \<Rightarrow>
                (case parse_elements (parse_scalar vp st type) items of None \<Rightarrow> None
                 | Some (Inl e) \<Rightarrow> Some (Inl e)
                 | Some (Inr vs) \<Rightarrow> Some (check_dimensions J d type vs)))))"
proof -
  obtain c cs where s: "s = c # cs" using assms(1) by (cases s) auto
  show ?thesis unfolding assms(2) unfolding s value_parse_body_def Let_def option.case list.case by (rule refl)
qed

text \<open>The ways a call can succeed.\<close>

lemma value_parse_fuel_Ok:
  fixes n J st
  defines "vp \<equiv> \<lambda>t rest. value_parse_fuel n J st (Some t) (Some rest) None"
  assumes "value_parse_fuel (Suc n) J st ts v d = Some (Inr out)"
  obtains (scalar) s t u where "ts = Some s" "asked_type s = Some (t, False)" "t \<noteq> TVariant"
      "parse_scalar vp st t v = Some (Inr u)" "out = Scalar u"
  | (variant) s where "ts = Some s" "asked_type s = Some (TVariant, False)"
      "parse_scalar vp st TVariant v = Some (Inr (VVariant out))"
  | (array) s t items vs where "ts = Some s" "asked_type s = Some (t, True)"
      "split_array_literal J v = Some items" "parse_elements (parse_scalar vp st t) items = Some (Inr vs)"
      "check_dimensions J d t vs = Inr out"
proof -
  obtain c cs where ts: "ts = Some (c # cs)"
    using assms(2) by (auto simp: value_parse_body_def Let_def split: option.splits list.splits)
  define s where "s = c # cs"
  define name where "name = (if ends_with_brackets s then take (length s - 2) s else s)"
  have s: "s \<noteq> []" by (simp add: s_def)
  note eq = value_parse_body_step [OF s name_def]
  have body: "value_parse_body vp J st (Some s) v d = Some (Inr out)"
    using assms(2) by (simp add: ts s_def vp_def)
  note res = body [unfolded eq] and ts = ts [folded s_def]
  obtain t where t: "value_builtin_type (Some name) = Some t"
    using res by (auto split: if_splits option.splits)
  have ask: "asked_type s = Some (t, ends_with_brackets s)"
    by (simp add: asked_type_def Let_def name_def [symmetric] t)
  have sm: "length name < 64" using res by (simp split: if_splits)
  show ?thesis
  proof (cases "ends_with_brackets s")
    case True
    with res t sm show ?thesis
      using array [of s t] ask ts by (auto split: option.splits sum.splits)
  next
    case arr: False
    show ?thesis
    proof (cases "t = TVariant")
      case True
      with res t sm arr obtain u where u: "parse_scalar vp st TVariant v = Some (Inr u)"
        by (auto split: option.splits sum.splits if_splits)
      then obtain w where "u = VVariant w" using parse_scalar_TVariant by blast
      with True res t sm arr u show ?thesis
        using variant [of s] ask ts by (auto split: if_splits)
    next
      case False
      with res t sm arr show ?thesis
        using scalar [of s t] ask ts
        by (cases "parse_scalar vp st t v"; cases "the (parse_scalar vp st t v)") (auto split: if_splits)
    qed
  qed
qed

lemma value_parse_fuel_typed [typing]:
  "value_parse_fuel n J st ts v d = Some (Inr out) \<Longrightarrow>
    wf_variant out \<and> (\<exists>a. asked_type (the ts) = Some a \<and> shape_ok a out)"
proof (induction n arbitrary: ts v d out)
  case (Suc n)
  let ?vp = "\<lambda>t rest. value_parse_fuel n J st (Some t) (Some rest) None"
  have vp: "\<And>ty r u. ?vp ty r = Some (Inr u) \<Longrightarrow> wf_variant u" using Suc.IH by blast
  from Suc.prems show ?case
  proof (cases rule: value_parse_fuel_Ok)
    case (scalar s t u)
    with parse_scalar_typed [OF scalar(4) vp] show ?thesis by (auto simp: shape_ok_def)
  next
    case (variant s)
    with parse_scalar_typed [OF variant(3) vp] show ?thesis by (auto simp: shape_ok_def)
  next
    case (array s t items vs)
    from array(4) have "\<forall>w\<in>set vs. type_of w = t \<and> wf_val w"
      by (rule parse_elements_typed) (rule parse_scalar_typed [OF _ vp])
    with array show ?thesis
      using check_dimensions_typed [OF array(5)] check_dimensions_Array [OF array(5)]
      by (auto simp: shape_ok_def)
  qed
qed simp
section \<open>Nested literals are shorter, so parsing returns\<close>

text \<open>
  What the parser relies on of the JSON library: a string of a parsed array is shorter than the
  text it was parsed from, and the printed form of an element that is not a string does not
  begin with a capital letter (it is an object, an array, a number, true, false or null).
\<close>

definition json_lib_ok :: "cjson_lib \<Rightarrow> bool" where
  "json_lib_ok J \<longleftrightarrow>
    (\<forall>p els s. cJSON_Parse J p = Some (CArray els) \<longrightarrow> CString s \<in> set els \<longrightarrow> length s < length p) \<and>
    (\<forall>el c r. \<not> cJSON_IsString el \<longrightarrow> cJSON_PrintUnformatted J el = Some (c # r)
       \<longrightarrow> \<not> in_range CHR ''A'' CHR ''Z'' c)"

lemma builtin_capital: "value_builtin_type (Some (c # r)) = Some t \<Longrightarrow> in_range CHR ''A'' CHR ''Z'' c"
  by (auto simp: value_builtin_type_def g_builtin_def in_range_def split: if_splits)

lemma builtin_not_Nil: "value_builtin_type (Some []) = None"
  by (simp add: value_builtin_type_def g_builtin_def)

lemma split_typed_shorter: "split_typed s n = Some (t, rest) \<Longrightarrow> length rest < length s \<and> hd t = hd s \<and> t \<noteq> []"
  by (auto simp: split_typed_def split: option.splits if_splits dest!: strchr_Some)

lemma split_on_length: "t \<in> set (split_on c s) \<Longrightarrow> length t \<le> length s"
  by (induction s arbitrary: t) (fastforce split: if_splits list.splits)+

lemma element_texts_origin:
  "element_texts J els = Some ts \<Longrightarrow> t \<in> set ts \<Longrightarrow> \<exists>el\<in>set els. element_text J el = Some t"
  by (induction els arbitrary: ts) (auto split: option.splits)

text \<open>A piece of an array literal is no longer than the literal, or cannot start a typed
  literal.\<close>

definition piece_ok :: "nat \<Rightarrow> string \<Rightarrow> bool" where
  "piece_ok n t \<longleftrightarrow> length t \<le> n \<or> (\<exists>c r. t = c # r \<and> \<not> in_range CHR ''A'' CHR ''Z'' c)"

lemma split_array_pieces:
  assumes "json_lib_ok J" and "split_array_literal J (Some v) = Some ts" and "t \<in> set ts"
  shows "piece_ok (length v) t"
proof (cases "skip_blanks v \<noteq> [] \<and> hd (skip_blanks v) = CHR ''[''")
  case True
  have sk: "length (skip_blanks v) \<le> length v" by (simp add: skip_blanks_def length_dropWhile_le)
  from True assms(2,3) obtain els where els: "cJSON_Parse J (skip_blanks v) = Some (CArray els)"
    "element_texts J els = Some ts"
    by (auto simp: split_array_literal_def Let_def split: list.splits option.splits cjson.splits)
  with assms(3) obtain el where el: "el \<in> set els" "element_text J el = Some t"
    using element_texts_origin by blast
  show ?thesis
  proof (cases "cJSON_IsString el")
    case True
    then have "el = CString t" using el(2) by (cases el) (auto simp: element_text_def)
    with el(1) els(1) assms(1) have "length t < length (skip_blanks v)" by (auto simp: json_lib_ok_def)
    with sk show ?thesis by (simp add: piece_ok_def)
  next
    case False
    with el(2) assms(1) show ?thesis by (cases t) (auto simp: piece_ok_def element_text_def json_lib_ok_def)
  qed
next
  case False
  with assms(2,3) show ?thesis
    using split_on_length [of t "CHR '',''" v]
    by (auto simp: split_array_literal_def Let_def piece_ok_def split: list.splits)
qed

lemma parse_scalar_returns:
  assumes "\<And>t rest. split_typed (case lit of None \<Rightarrow> [] | Some l \<Rightarrow> l) 64 = Some (t, rest) \<Longrightarrow> vp t rest \<noteq> None"
  shows "parse_scalar vp st ty lit \<noteq> None"
  using assms
  by (cases ty) (auto simp: parse_scalar_def Let_def require_def split: option.splits)

lemma parse_elements_returns:
  "(\<And>x. x \<in> set xs \<Longrightarrow> ps (Some x) \<noteq> None) \<Longrightarrow> parse_elements ps xs \<noteq> None"
proof (induction xs)
  case (Cons x xs)
  from Cons.prems [of x] obtain r where "ps (Some x) = Some r" by auto
  with Cons show ?case by (auto split: option.splits sum.splits)
qed simp

definition val_len :: "cstr \<Rightarrow> nat" where
  "val_len v = length (case v of None \<Rightarrow> [] | Some l \<Rightarrow> l)"

lemma value_parse_unknown_returns:
  assumes "t = c # r" and "\<not> in_range CHR ''A'' CHR ''Z'' c"
  shows "value_parse_fuel (Suc n) J st (Some t) v d \<noteq> None"
proof -
  define name where "name = (if ends_with_brackets t then take (length t - 2) t else t)"
  have "\<exists>r'. name = c # r'"
    using assms(1) by (auto simp: name_def ends_with_brackets_def take_Cons' split: if_splits)
  then have "value_builtin_type (Some name) = None"
    using builtin_capital assms(2) by (metis option.exhaust)
  moreover have "t \<noteq> []" using assms(1) by simp
  ultimately show ?thesis
    using value_parse_body_step [OF _ name_def] by simp
qed

lemma value_parse_body_returns:
  assumes "\<And>ty. parse_scalar vp st ty v \<noteq> None"
    and "\<And>ty items. split_array_literal J v = Some items \<Longrightarrow> parse_elements (parse_scalar vp st ty) items \<noteq> None"
  shows "value_parse_body vp J st ts v d \<noteq> None"
proof (cases "ts = None \<or> ts = Some []")
  case False
  then obtain s where s: "ts = Some s" "s \<noteq> []" by auto
  define name where "name = (if ends_with_brackets s then take (length s - 2) s else s)"
  note step = value_parse_body_step [OF s(2) name_def]
  show ?thesis
  proof (cases "value_builtin_type (Some name)")
    case None
    then show ?thesis by (simp add: s(1) step)
  next
    case (Some ty)
    obtain r where "parse_scalar vp st ty v = Some r" using assms(1) [of ty] by auto
    moreover have "\<exists>q. parse_elements (parse_scalar vp st ty) items = Some q"
      if "split_array_literal J v = Some items" for items
      using assms(2) [OF that, of ty] by auto
    ultimately show ?thesis
      by (auto simp: s(1) step Some split: option.split sum.split ua_val.split)
  qed
qed (auto simp: value_parse_body_def)

lemma value_parse_fuel_returns:
  assumes "json_lib_ok J"
  shows "val_len v < n \<Longrightarrow> value_parse_fuel n J st ts v d \<noteq> None"
proof (induction n arbitrary: ts v d)
  case (Suc n)
  let ?vp = "\<lambda>t rest. value_parse_fuel n J st (Some t) (Some rest) None"
  have ps: "parse_scalar ?vp st ty (Some x) \<noteq> None"
    if v: "v = Some w" "w \<noteq> []" and x: "piece_ok (length w) x" for ty x w
  proof (rule parse_scalar_returns)
    fix t rest assume "split_typed (case Some x of None \<Rightarrow> [] | Some l \<Rightarrow> l) 64 = Some (t, rest)"
    then have st: "length rest < length x" "hd t = hd x" "t \<noteq> []" using split_typed_shorter by auto
    show "?vp t rest \<noteq> None"
    proof (cases "length x \<le> length w")
      case True
      with st Suc.prems v have "val_len (Some rest) < n" by (simp add: val_len_def)
      then show ?thesis by (rule Suc.IH)
    next
      case False
      with x obtain c r where "x = c # r" "\<not> in_range CHR ''A'' CHR ''Z'' c" by (auto simp: piece_ok_def)
      moreover from Suc.prems v obtain m where "n = Suc m" by (cases n) (auto simp: val_len_def)
      moreover from calculation st have "t = c # tl t" by (cases t) auto
      ultimately show ?thesis
        using value_parse_unknown_returns [of t c "tl t" m] by simp
    qed
  qed
  have sc: "parse_scalar ?vp st ty v \<noteq> None" for ty
  proof (rule parse_scalar_returns)
    fix t rest assume "split_typed (case v of None \<Rightarrow> [] | Some l \<Rightarrow> l) 64 = Some (t, rest)"
    then have "val_len (Some rest) < n" using split_typed_shorter Suc.prems by (fastforce simp: val_len_def)
    then show "?vp t rest \<noteq> None" by (rule Suc.IH)
  qed
  have els: "parse_elements (parse_scalar ?vp st ty) items \<noteq> None"
    if "split_array_literal J v = Some items" for ty items
  proof (rule parse_elements_returns)
    fix x assume x: "x \<in> set items"
    with that obtain w where w: "v = Some w" "w \<noteq> []"
      by (cases v; cases "the v") (auto simp: split_array_literal_def)
    from w that x assms have "piece_ok (length w) x" using split_array_pieces by blast
    then show "parse_scalar ?vp st ty (Some x) \<noteq> None" by (rule ps [OF w])
  qed
  show ?case unfolding value_parse_fuel.simps by (rule value_parse_body_returns [OF sc els])
qed simp

lemma value_parse_Some: "json_lib_ok J \<Longrightarrow> \<exists>r. value_parse J st ts v d = Some r"
  using value_parse_fuel_returns [of J v "Suc (val_len v)" st ts d]
  by (auto simp: value_parse_def val_len_def)
section \<open>Dates\<close>

lemma scale_loop_pow: "d \<le> 7 \<Longrightarrow> scale_loop d t = t * 10 ^ (7 - d)"
proof (induction d t rule: scale_loop.induct)
  case (1 d t)
  show ?case
  proof (cases "d < 7")
    case True
    then have "7 - d = Suc (7 - (d + 1))" by simp
    with 1 True show ?thesis by (subst scale_loop.simps) simp
  next
    case False
    with 1 show ?thesis by (subst scale_loop.simps) simp
  qed
qed

lemma digit_char_code: "d < 10 \<Longrightarrow> isdigit (digit_char d) \<and> of_char (digit_char d) = int d + 48"
  using of_nat_of_char [of "digit_char d", where ?'a = int, symmetric]
  by (auto simp: isdigit_def digit_char_def Let_def)

text \<open>The fraction keeps its first seven digits.\<close>

definition frac_ticks :: "nat list \<Rightarrow> int" where
  "frac_ticks ds = int (undigits 10 (take 7 ds)) * 10 ^ (7 - length ds)"

lemma frac_loop_full:
  "(\<And>d. d \<in> set ds \<Longrightarrow> d < 10) \<Longrightarrow> (r = [] \<or> \<not> isdigit (hd r)) \<Longrightarrow> 7 \<le> k \<Longrightarrow>
    frac_loop (map digit_char ds @ r) k t = (k, t, r)"
proof (induction ds)
  case Nil
  then show ?case by (cases r) auto
qed (simp add: digit_char_code)

lemma undigits_fold: "undigits b (xs @ ys) = foldl (\<lambda>a d. a * b + d) (undigits b xs) ys"
  by (simp add: undigits_def)

lemma frac_loop_digits:
  "(\<And>d. d \<in> set ds \<Longrightarrow> d < 10) \<Longrightarrow> (r = [] \<or> \<not> isdigit (hd r)) \<Longrightarrow> length es \<le> 7 \<Longrightarrow>
    frac_loop (map digit_char ds @ r) (length es) (int (undigits 10 es))
      = (min 7 (length es + length ds), int (undigits 10 (take 7 (es @ ds))), r)"
proof (induction ds arbitrary: es)
  case Nil
  then show ?case by (cases r) auto
next
  case (Cons d ds)
  show ?case
  proof (cases "length es < 7")
    case True
    with Cons.prems Cons.IH [of "es @ [d]"] show ?thesis
      by (simp add: digit_char_code mult.commute)
  next
    case False
    with Cons.prems have "length es = 7" by simp
    then show ?thesis using frac_loop_full [of "d # ds" r 7] Cons.prems by simp
  qed
qed

definition date_text :: "nat \<Rightarrow> nat \<Rightarrow> nat \<Rightarrow> nat \<Rightarrow> nat \<Rightarrow> nat \<Rightarrow> string \<Rightarrow> string" where
  "date_text Y M D h m s fr =
    dec_pad 4 Y @ ''-'' @ dec_pad 2 M @ ''-'' @ dec_pad 2 D @ ''T'' @ dec_pad 2 h @ '':'' @
    dec_pad 2 m @ '':'' @ dec_pad 2 s @ fr"

definition date_ticks :: "nat \<Rightarrow> nat \<Rightarrow> nat \<Rightarrow> nat \<Rightarrow> nat \<Rightarrow> nat \<Rightarrow> int \<Rightarrow> int" where
  "date_ticks Y M D h m s f =
    (timegm \<lparr>tm_year = int Y - 1900, tm_mon = int M - 1, tm_mday = int D,
             tm_hour = int h, tm_min = int m, tm_sec = int s\<rparr> + 11644473600) * UA_DATETIME_SEC + f"

lemma digit_value_seps: "digit_value CHR ''T'' = Some 29" "digit_value CHR '':'' = None"
    "digit_value CHR ''Z'' = Some 35" "digit_value CHR ''.'' = None" "digit_value CHR '';'' = None"
  by (simp_all add: digit_value_def)

lemma sscanf_date:
  assumes "Y < 2 ^ 31" "M < 2 ^ 31" "D < 2 ^ 31" "h < 2 ^ 31" "m < 2 ^ 31" "s < 2 ^ 31" "no_digit 10 fr"
  shows "sscanf_ints ''--T::'' (date_text Y M D h m s fr) =
    ([int Y, int M, int D, int h, int m, int s], fr)"
  using assms
  by (simp add: date_text_def sscanf_d_pad [where r = "c # r" for c r] sscanf_d_pad [where r = fr] digit_value_seps)

lemma date_text_ne: "date_text Y M D h m s fr \<noteq> []"
  by (simp add: date_text_def dec_pad_def pad_zero_def)

lemma value_parse_datetime_fields:
  assumes "sscanf_ints ''--T::'' s = ([Y, M, D, h, m, sec], p)" and "s \<noteq> []"
    and "(ticks, q) = (case p of c # p' \<Rightarrow>
                   (if c = CHR ''.'' then
                      (case frac_loop p' 0 0 of (digits, ticks, r) \<Rightarrow> (scale_loop digits ticks, r))
                    else (0, p))
                 | [] \<Rightarrow> (0, p))"
    and "q = [] \<or> hd q = CHR ''Z'' \<or> hd q = CHR ''z''"
  shows "value_parse_datetime (Some s) = Some (word_of_int ((timegm \<lparr>tm_year = Y - 1900, tm_mon = M - 1,
     tm_mday = D, tm_hour = h, tm_min = m, tm_sec = sec\<rparr> + 11644473600) * UA_DATETIME_SEC + ticks))"
  using assms(1,2,4)
  by (cases s) (auto simp: value_parse_datetime_def assms(3) [symmetric] simp del: sscanf_ints.simps)

lemma date_lit_parses:
  assumes "Y < 2 ^ 31" "M < 2 ^ 31" "D < 2 ^ 31" "h < 2 ^ 31" "m < 2 ^ 31" "s < 2 ^ 31"
  shows "value_parse_datetime (Some (date_text Y M D h m s ''Z'')) =
      Some (word_of_int (date_ticks Y M D h m s 0))"
    and "(\<And>d. d \<in> set ds \<Longrightarrow> d < 10) \<Longrightarrow>
      value_parse_datetime (Some (date_text Y M D h m s (CHR ''.'' # map digit_char ds @ ''Z''))) =
      Some (word_of_int (date_ticks Y M D h m s (frac_ticks ds)))"
proof -
  have z: "no_digit 10 ''Z''" "no_digit 10 (CHR ''.'' # r)" for r by (simp_all add: digit_value_seps)
  show "value_parse_datetime (Some (date_text Y M D h m s ''Z'')) =
      Some (word_of_int (date_ticks Y M D h m s 0))"
    using value_parse_datetime_fields [OF sscanf_date [OF assms z(1)] date_text_ne]
    by (simp add: date_ticks_def)
  assume ds: "\<And>d. d \<in> set ds \<Longrightarrow> d < 10"
  have "frac_loop (map digit_char ds @ ''Z'') 0 0 = (min 7 (length ds), int (undigits 10 (take 7 ds)), ''Z'')"
    using frac_loop_digits [of ds "''Z''" "[]"] ds by (simp add: isdigit_def)
  moreover have "scale_loop (min 7 (length ds)) t = t * 10 ^ (7 - length ds)" for t
    by (simp add: scale_loop_pow min_def)
  ultimately show "value_parse_datetime (Some (date_text Y M D h m s (CHR ''.'' # map digit_char ds @ ''Z''))) =
      Some (word_of_int (date_ticks Y M D h m s (frac_ticks ds)))"
    using value_parse_datetime_fields [OF sscanf_date [OF assms z(2)] date_text_ne]
    by (simp add: date_ticks_def frac_ticks_def)
qed
section \<open>Array literals\<close>

lemma split_on_none: "c \<notin> set s \<Longrightarrow> split_on c s = [s]"
  by (induction s) auto

lemma split_on_append: "c \<notin> set s \<Longrightarrow> split_on c (s @ c # r) = s # split_on c r"
  by (induction s) auto

lemma split_on_join:
  "xs \<noteq> [] \<Longrightarrow> (\<And>x. x \<in> set xs \<Longrightarrow> CHR '','' \<notin> set x) \<Longrightarrow> split_on CHR '','' (join_comma xs) = xs"
  by (induction xs rule: join_comma.induct) (simp_all add: split_on_none split_on_append)

lemma skip_blanks_hd: "c \<noteq> CHR '' '' \<Longrightarrow> skip_blanks (c # cs) = c # cs"
  by (simp add: skip_blanks_def)

lemma split_array_join:
  assumes "join_comma xs \<noteq> []" and "hd (join_comma xs) \<notin> {CHR '' '', CHR ''[''}"
    and "\<And>x. x \<in> set xs \<Longrightarrow> CHR '','' \<notin> set x"
  shows "split_array_literal J (Some (join_comma xs)) = Some xs"
proof -
  obtain c cs where eq: "join_comma xs = c # cs" using assms(1) by (cases "join_comma xs") auto
  have "xs \<noteq> []" using assms(1) by auto
  then have "split_on CHR '','' (join_comma xs) = xs" by (rule split_on_join) (rule assms(3))
  then have "split_on CHR '','' (c # cs) = xs" by (simp only: eq)
  then show ?thesis
    using assms(2) by (simp add: eq split_array_literal_def Let_def skip_blanks_hd del: split_on.simps)
qed

section \<open>Integer literals\<close>

lemma ends_with_brackets_short: "last s \<noteq> CHR '']'' \<Longrightarrow> \<not> ends_with_brackets s"
proof
  assume l: "last s \<noteq> CHR '']''" and "ends_with_brackets s"
  then have "s = take (length s - 2) s @ ''[]''"
    by (metis append_take_drop_id ends_with_brackets_def)
  then have "last s = last (take (length s - 2) s @ ''[]'')" by (rule arg_cong)
  with l show False by simp
qed

text \<open>A scalar of a built-in type other than Variant, parsed without dimensions.\<close>

lemma value_parse_scalar:
  assumes "value_builtin_type (Some ts) = Some t" and "t \<noteq> TVariant" and "last ts \<noteq> CHR '']''"
    and "length ts < 64"
  shows "value_parse J st (Some ts) v None =
    map_option (\<lambda>r. case r of Inl e \<Rightarrow> Inl e | Inr v \<Rightarrow> Inr (Scalar v))
      (parse_scalar (\<lambda>t rest. value_parse_fuel (val_len v) J st (Some t) (Some rest) None) st t v)"
proof -
  have "ts \<noteq> []" using assms(1) builtin_not_Nil by auto
  then show ?thesis
    using assms ends_with_brackets_short [OF assms(3)]
    by (simp add: value_parse_def val_len_def value_parse_body_step)
qed

lemma atoi_sint:
  fixes w :: "'a :: len word"
  assumes "LENGTH('a) \<le> 32"
  shows "atoi (dec_int (sint w)) = sint w"
proof -
  have "- (2 ^ (LENGTH('a) - 1)) \<le> sint w" "sint w < 2 ^ (LENGTH('a) - 1)"
    using sint_greater_eq [of w] sint_less [of w] by simp_all
  moreover have "(2 :: int) ^ (LENGTH('a) - 1) \<le> 2 ^ 31" using assms by (intro power_increasing) auto
  ultimately show ?thesis using atoi_dec_int [of "sint w" "[]"] by simp
qed

lemma atoi_uint:
  fixes w :: "'a :: len word"
  assumes "LENGTH('a) \<le> 31"
  shows "atoi (dec (unat w)) = uint w"
proof -
  have "unat w < 2 ^ LENGTH('a)" by (rule unsigned_less)
  also have "(2 :: nat) ^ LENGTH('a) \<le> 2 ^ 31" using assms by (intro power_increasing) auto
  finally show ?thesis using atoi_dec [of "unat w" "[]"] by simp
qed

lemma strtoul_unat:
  fixes w :: "'a :: len word"
  assumes "LENGTH('a) \<le> 64"
  shows "ucast (fst (strtoul 10 (dec (unat w)))) = w"
proof -
  have "unat w < 2 ^ LENGTH('a)" by (rule unsigned_less)
  also have "(2 :: nat) ^ LENGTH('a) \<le> 2 ^ 64" using assms by (intro power_increasing) auto
  finally have s: "unat w < 2 ^ 64" .
  then have "strtoul 10 (dec (unat w)) = (word_of_nat (unat w), [], False)"
    using strtoul_dec [of "unat w" "[]"] by simp
  moreover have "(ucast (word_of_nat (unat w) :: u64) :: 'a word) = w"
  proof -
    have "unat (word_of_nat (unat w) :: u64) = unat w" using s unat_of_nat [of "unat w", where ?'a = 64] by (simp del: of_nat_unat)
    then show ?thesis by (metis of_nat_unat ucast_id)
  qed
  ultimately show ?thesis by simp
qed

lemma strtoll_sint: "strtoll (dec_int (sint (w :: u64))) = sint w"
  using strtoll_dec_int [of "sint w" "[]"] sint_greater_eq [of w] sint_less [of w] by simp

text \<open>The decimal text of an integer value, as \<open>printf\<close> writes it.\<close>

fun int_text :: "ua_val \<Rightarrow> string option" where
  "int_text (VSByte w) = Some (dec_int (sint w))"
| "int_text (VByte w) = Some (dec (unat w))"
| "int_text (VInt16 w) = Some (dec_int (sint w))"
| "int_text (VUInt16 w) = Some (dec (unat w))"
| "int_text (VInt32 w) = Some (dec_int (sint w))"
| "int_text (VUInt32 w) = Some (dec (unat w))"
| "int_text (VInt64 w) = Some (dec_int (sint w))"
| "int_text (VUInt64 w) = Some (dec (unat w))"
| "int_text _ = None"

lemma builtin_names:
  "value_builtin_type (Some (value_type_name (Some t))) = Some t" if "\<forall>n. t \<noteq> TOther n"
  using that by (cases t) (simp_all add: value_builtin_type_def value_type_name_def g_builtin_def)

lemma type_name_shape:
  "last (value_type_name (Some t)) \<noteq> CHR '']'' \<and> length (value_type_name (Some t)) < 64" if "\<forall>n. t \<noteq> TOther n"
  using that by (cases t) (simp_all add: value_type_name_def g_builtin_def)

lemma parse_scalar_int: "int_text v = Some s \<Longrightarrow> parse_scalar vp st (type_of v) (Some s) = Some (Ok v)"
  by (cases v) (auto simp: parse_scalar_def atoi_sint atoi_uint strtoul_unat strtoll_sint strtoull_def
    strtoul_unat [where 'a = 64, simplified])
lemma dec_chars: "set (dec n) \<subseteq> digit_char ` {..<10}"
  using digits_of_less [of 10 _ n] by (auto simp: dec_def)

lemma dec_not_comma: "CHR '','' \<notin> set (dec n)" "CHR '','' \<notin> set (dec_int i)"
proof -
  have d: "CHR '','' \<notin> digit_char ` {..<10}" by (auto simp: digit_char_def dest: arg_cong [where f = "of_char :: char \<Rightarrow> nat"])
  show "CHR '','' \<notin> set (dec n)" using dec_chars [of n] d by blast
  show "CHR '','' \<notin> set (dec_int i)" using dec_chars [of "nat i"] dec_chars [of "nat (- i)"] d
    by (auto simp: dec_int_def)
qed

lemma dec_hd: "hd (dec n @ r) \<notin> {CHR '' '', CHR ''[''}" "hd (dec_int i @ r) \<notin> {CHR '' '', CHR ''[''}"
proof -
  have d: "digit_char k \<notin> {CHR '' '', CHR ''[''}" if "k < 10" for k
    using that by (auto simp: digit_char_def dest: arg_cong [where f = "of_char :: char \<Rightarrow> nat"])
  have h: "hd (dec n @ r) \<notin> {CHR '' '', CHR ''[''}" for n r
  proof -
    have "hd (dec n) \<in> digit_char ` {..<10}" using dec_chars [of n] by (meson dec_ne hd_in_set subsetD)
    then obtain k where "k < 10" "hd (dec n) = digit_char k" by auto
    then show ?thesis using d [of k] by (simp add: hd_append)
  qed
  show "hd (dec n @ r) \<notin> {CHR '' '', CHR ''[''}" by (rule h)
  show "hd (dec_int i @ r) \<notin> {CHR '' '', CHR ''[''}" using h by (auto simp: dec_int_def)
qed

lemma join_comma_hd: "\<exists>r. join_comma (x # xs) = x @ r"
  by (cases xs) auto

lemma int_text_shape:
  assumes "int_text v = Some s"
  shows "s \<noteq> []" "CHR '','' \<notin> set s" "hd (s @ r) \<notin> {CHR '' '', CHR ''[''}"
proof -
  have "dec_int i \<noteq> []" for i by (simp add: dec_int_def)
  then show "s \<noteq> []" "CHR '','' \<notin> set s" "hd (s @ r) \<notin> {CHR '' '', CHR ''[''}"
    using assms dec_not_comma dec_hd by (cases v; auto)+
qed

lemma split_int_texts:
  assumes "map int_text vs = map Some ss" and "ss \<noteq> []"
  shows "split_array_literal J (Some (join_comma ss)) = Some ss"
proof (rule split_array_join)
  have each: "\<exists>v. int_text v = Some s" if "s \<in> set ss" for s
    using that assms(1) by (metis image_eqI image_iff list.set_map)
  then show "\<And>x. x \<in> set ss \<Longrightarrow> CHR '','' \<notin> set x" using int_text_shape(2) by blast
  obtain s r where s: "ss = s # r" using assms(2) by (cases ss) auto
  obtain t where t: "join_comma ss = s @ t" using join_comma_hd s by blast
  obtain v where v: "int_text v = Some s" using each s by auto
  show "join_comma ss \<noteq> []" "hd (join_comma ss) \<notin> {CHR '' '', CHR ''[''}"
    using int_text_shape(1) [OF v] int_text_shape(3) [OF v, of t] t by auto
qed

lemma parse_elements_ints:
  "map int_text vs = map Some ss \<Longrightarrow> \<forall>v\<in>set vs. type_of v = t \<Longrightarrow>
    parse_elements (parse_scalar vp st t) ss = Some (Ok vs)"
proof (induction vs arbitrary: ss)
  case (Cons v vs)
  then obtain s ss' where ss: "ss = s # ss'" "int_text v = Some s" "map int_text vs = map Some ss'"
    by (cases ss) auto
  then have "parse_scalar vp st t (Some s) = Some (Ok v)"
    using parse_scalar_int [OF ss(2)] Cons.prems(2) by auto
  moreover have "parse_elements (parse_scalar vp st t) ss' = Some (Ok vs)"
    using Cons.IH [OF ss(3)] Cons.prems(2) by simp
  ultimately show ?case using ss(1) by simp
qed simp

lemma ends_with_brackets_append: "n \<noteq> [] \<Longrightarrow> ends_with_brackets (n @ ''[]'')"
  by (cases n) (simp_all add: ends_with_brackets_def)

lemma value_parse_array:
  assumes "value_builtin_type (Some name) = Some t" and "length name < 64"
    and "split_array_literal J v = Some items"
    and "\<And>vp. parse_elements (parse_scalar vp st t) items = Some (Ok vs)"
  shows "value_parse J st (Some (name @ ''[]'')) v d = Some (check_dimensions J d t vs)"
proof -
  have n: "name \<noteq> []" using assms(1) builtin_not_Nil by auto
  have "value_parse_body vp J st (Some (name @ ''[]'')) v d = Some (check_dimensions J d t vs)" for vp
    using assms ends_with_brackets_append [OF n]
    by (subst value_parse_body_step [OF _ refl]) simp_all
  then show ?thesis by (simp add: value_parse_def)
qed

definition dims_text :: "u32 list \<Rightarrow> string" where
  "dims_text ds = join_comma (map (\<lambda>d. dec (unat d)) ds)"

lemma dims_text_split: "ds \<noteq> [] \<Longrightarrow> split_array_literal J (Some (dims_text ds)) = Some (map (\<lambda>d. dec (unat d)) ds)"
  using split_int_texts [of "map VUInt32 ds" "map (\<lambda>d. dec (unat d)) ds"] by (simp add: dims_text_def)

lemma dims_text_ne: "ds \<noteq> [] \<Longrightarrow> dims_text ds \<noteq> []"
  using join_comma_hd [of "dec (unat (hd ds))" "map (\<lambda>d. dec (unat d)) (tl ds)"]
  by (cases ds) (auto simp: dims_text_def)

lemma check_dims_text:
  "check_dimensions J (Some (dims_text ds)) t vs =
    (if ds = [] \<or> dims_product ds = word_of_nat (length vs) then Ok (Array t vs ds)
     else Fail (''--dimensions product does not match the '' @ dec (length vs) @ '' array elements''))"
proof (cases "ds = []")
  case True
  then show ?thesis by (simp add: check_dimensions_def dims_text_def)
next
  case False
  have ne: "map (\<lambda>d. dec (unat d)) ds \<noteq> []" using False by simp
  have rt: "map (\<lambda>x. ucast (fst (strtoul 10 x)) :: u32) (map (\<lambda>d. dec (unat d)) ds) = ds"
    by (simp add: strtoul_unat o_def)
  obtain c cs where dt: "dims_text ds = c # cs" using dims_text_ne [OF False] by (cases "dims_text ds") auto
  obtain x xs where mm: "map (\<lambda>d. dec (unat d)) ds = x # xs" using ne by (cases "map (\<lambda>d. dec (unat d)) ds") auto
  show ?thesis
    using dims_text_split [OF False, of J] rt False
    unfolding dt mm check_dimensions_def by (simp add: Let_def)
qed

section \<open>Properties\<close>

text \<open>C13 Whatever value_parse accepts is a well-formed Variant of the type asked for: an array of
  that element type with dimensions that multiply to its length, or a scalar of that type (a
  scalar Variant literal gives the value inside it); nested values are well formed too.\<close>

theorem value_parse_typed:
  assumes "value_parse J st (Some ts) v d = Some (Ok out)"
  shows "wf_variant out \<and> (\<exists>t isArray. asked_type ts = Some (t, isArray) \<and>
    (if isArray then \<exists>vs ds. out = Array t vs ds
     else t = TVariant \<or> (\<exists>w. out = Scalar w \<and> type_of w = t)))"
proof -
  obtain a where "wf_variant out" "asked_type ts = Some a" "shape_ok a out"
    using value_parse_fuel_typed [OF assms [unfolded value_parse_def]] by auto
  then show ?thesis by (cases a) (auto simp: shape_ok_def split: if_splits)
qed

theorem value_parse_typed_witness:
  "value_parse plain_json plain_stack (Some ''Boolean'') (Some ''true'') None = Some (Ok (Scalar (VBoolean True)))
   \<and> asked_type ''Boolean'' = Some (TBoolean, False)"
proof -
  have a: "value_parse plain_json plain_stack (Some ''Boolean'') (Some ''true'') None = Some (Ok (Scalar (VBoolean True)))"
    by (simp add: value_parse_scalar [of _ TBoolean] value_builtin_type_def g_builtin_def parse_scalar_def)
  with value_parse_typed [OF a] show ?thesis
    by (simp add: asked_type_def ends_with_brackets_def value_builtin_type_def g_builtin_def)
qed

text \<open>C24 value_parse returns on every input: nested Variant and DataValue literals cannot
  recurse for ever, given that the strings of a JSON array are shorter than its text and that
  the printed text of a JSON value other than a string does not start like a type name.\<close>

theorem value_parse_returns:
  assumes "json_lib_ok J"
  shows "\<exists>r. value_parse J st ts v d = Some r"
  using value_parse_fuel_returns [OF assms, of v "Suc (val_len v)" st ts d]
  by (auto simp: value_parse_def val_len_def)

lemma plain_json_ok: "json_lib_ok plain_json"
proof -
  have "length s < length p" if "plain_parse p = Some (CArray els)" "CString s \<in> set els" for p els s
    using that by (auto simp: plain_parse_def split: if_splits)
  moreover have "\<not> in_range CHR ''A'' CHR ''Z'' c" if "plain_print el = Some (c # r)" for el c r
    using that by (cases el rule: plain_print.cases) (auto simp: in_range_def split: if_splits)
  ultimately show ?thesis unfolding json_lib_ok_def plain_json_def by auto
qed

theorem value_parse_returns_witness:
  "json_lib_ok plain_json \<and>
   (\<exists>r. value_parse plain_json plain_stack (Some ''Variant[]'') (Some ''[1]'') (Some ''1'') = Some r)"
  using value_parse_returns [OF plain_json_ok] plain_json_ok by simp

text \<open>Every integer of the eight integer types, printed in decimal, is read back unchanged by
  value_parse under the name of its type.\<close>

lemma int_literal_roundtrip:
  assumes "int_text v = Some s"
  shows "value_parse J st (Some (value_type_name (Some (type_of v)))) (Some s) None = Some (Ok (Scalar v))"
proof -
  have t: "\<forall>n. type_of v \<noteq> TOther n" "type_of v \<noteq> TVariant" using assms by (cases v; simp)+
  show ?thesis
    using value_parse_scalar [OF builtin_names [OF t(1)] t(2)] type_name_shape [OF t(1)] parse_scalar_int [OF assms]
    by simp
qed

lemma int_literal_roundtrip_witness:
  "value_parse plain_json plain_stack (Some ''Int64'') (Some (dec_int (sint (- 9 :: u64)))) None
    = Some (Ok (Scalar (VInt64 (- 9))))"
  using int_literal_roundtrip [of "VInt64 (- 9)" "dec_int (sint (- 9 :: u64))" plain_json plain_stack]
  by (simp add: value_type_name_def g_builtin_def)

text \<open>Array and matrix literals: the comma separated decimal texts of integers of one type,
  under the type name with brackets, give the array of those integers; the dimensions are taken
  over exactly when they multiply (in size_t arithmetic) to the number of elements and are
  refused with a message otherwise.\<close>

lemma matrix_literal:
  assumes "map int_text vs = map Some ss" and "ss \<noteq> []" and "\<forall>v\<in>set vs. type_of v = t"
  shows "value_parse J st (Some (value_type_name (Some t) @ ''[]'')) (Some (join_comma ss)) (Some (dims_text ds)) =
    Some (if ds = [] \<or> dims_product ds = word_of_nat (length vs) then Ok (Array t vs ds)
      else Fail (''--dimensions product does not match the '' @ dec (length vs) @ '' array elements''))"
proof -
  have "vs \<noteq> []" using assms(1,2) by auto
  moreover have "int_text v \<noteq> None" if "v \<in> set vs" for v
    using that assms(1) by (metis image_eqI imageE list.set_map option.distinct(1))
  ultimately obtain v where "type_of v = t" "int_text v \<noteq> None" using assms(3) by (cases vs) auto
  then have t: "\<forall>n. t \<noteq> TOther n" by (cases v) auto
  show ?thesis
    using value_parse_array [OF builtin_names [OF t] _ split_int_texts [OF assms(1,2)] parse_elements_ints [OF assms(1,3)]]
      type_name_shape [OF t]
    by (simp only: check_dims_text)
qed

lemma matrix_literal_witness:
  "value_parse plain_json plain_stack (Some ''Byte[]'') (Some (join_comma [dec (unat (7 :: byte)), dec (unat (8 :: byte))]))
     (Some (dims_text [1, 2])) = Some (Ok (Array TByte [VByte 7, VByte 8] [1, 2]))"
  using matrix_literal [of "[VByte 7, VByte 8]" "[dec (unat (7 :: byte)), dec (unat (8 :: byte))]" TByte
      plain_json plain_stack "[1, 2]"]
  by (simp add: value_type_name_def g_builtin_def dims_product_def)

text \<open>An RFC 3339 UTC time with any number of fraction digits gives the ticks of its calendar
  fields plus its first seven fraction digits.\<close>

lemma datetime_literal:
  assumes "Y < 2 ^ 31" "M < 2 ^ 31" "D < 2 ^ 31" "h < 2 ^ 31" "m < 2 ^ 31" "s < 2 ^ 31"
    and "\<forall>d\<in>set ds. d < 10"
  shows "value_parse_datetime (Some (date_text Y M D h m s (CHR ''.'' # map digit_char ds @ ''Z''))) =
    Some (word_of_int (date_ticks Y M D h m s (frac_ticks ds)))"
  using date_lit_parses(2) [OF assms(1-6)] assms(7) by blast

lemma datetime_literal_witness:
  "value_parse_datetime (Some (date_text 2024 2 29 23 59 58 (CHR ''.'' # map digit_char [5] @ ''Z''))) =
    Some (word_of_int (date_ticks 2024 2 29 23 59 58 5000000))"
  using datetime_literal [of 2024 2 29 23 59 58 "[5]"] by (simp add: frac_ticks_def undigits_def)
end
