(* ===== verification/Fixture.thy ===== *)
theory Fixture
  imports CJson Ua_Types
begin

text \<open>
  fixture.c: reading a fixture (the description of the server's address space) from a JSON
  file. The file system gives the bytes of a file or the text of the error; the structures of
  fixture.h are records, an array with its count is a list, and a member that stays zero after
  \<open>calloc\<close> has the value of the zero bytes.
\<close>

section \<open>The structures of fixture.h\<close>

datatype NodeClass = NODE_OBJECT | NODE_VARIABLE | NODE_METHOD

datatype BehaviorKind =
  BEH_COUNTER | BEH_TOGGLE | BEH_RAMP | BEH_STATIC | BEH_TIMESTAMP | BEH_STATUS_SEQUENCE | BEH_FIXED_STATUS

record Argument =
  arg_name :: cstr
  arg_dataType :: cstr
  arg_valueRank :: int
  arg_description :: cstr

record FixtureNode =
  nodeClass :: NodeClass
  fn_nodeId :: cstr
  browseName :: cstr
  displayName :: cstr
  fn_description :: cstr
  parentNodeId :: cstr
  referenceType :: cstr
  typeDefinition :: cstr
  dataType :: cstr
  valueRank :: int
  arrayDimensions :: "u32 list"
  accessLevel :: byte
  initialValue :: "cjson option"
  hasEuRange :: bool
  euRangeLow :: double
  euRangeHigh :: double
  methodBehavior :: cstr
  inputArgs :: "Argument list"
  outputArgs :: "Argument list"

record Behavior =
  beh_target :: cstr
  beh_kind :: BehaviorKind
  beh_initial :: double
  beh_increment :: double
  beh_minimum :: double
  beh_maximum :: double
  intervalMs :: int

record Namespace =
  ns_alias :: cstr
  ns_uri :: cstr

record SecurityProfile =
  sp_policy :: cstr
  sp_mode :: cstr

record UserCredential =
  username :: cstr
  password :: cstr

record Fixture =
  schemaVersion :: cstr
  fix_id :: cstr
  fix_description :: cstr
  applicationUri :: cstr
  productUri :: cstr
  applicationName :: cstr
  port :: int
  endpointPath :: cstr
  namespaces :: "Namespace list"
  nodes :: "FixtureNode list"
  behaviors :: "Behavior list"
  securityProfiles :: "SecurityProfile list"
  users :: "UserCredential list"

section \<open>Reading members\<close>

abbreviation AL_CURRENT_READ :: byte where "AL_CURRENT_READ \<equiv> 0x01"
abbreviation AL_CURRENT_WRITE :: byte where "AL_CURRENT_WRITE \<equiv> 0x02"
abbreviation AL_HISTORY_READ :: byte where "AL_HISTORY_READ \<equiv> 0x04"
abbreviation AL_HISTORY_WRITE :: byte where "AL_HISTORY_WRITE \<equiv> 0x10"
abbreviation AL_SEMANTIC_CHANGE :: byte where "AL_SEMANTIC_CHANGE \<equiv> 0x40"
abbreviation AL_STATUS_WRITE :: byte where "AL_STATUS_WRITE \<equiv> 0x20"
abbreviation AL_TIMESTAMP_WRITE :: byte where "AL_TIMESTAMP_WRITE \<equiv> 0x80"

definition json_str_dup :: "cjson_lib \<Rightarrow> cjson \<Rightarrow> string \<Rightarrow> cstr" where
  "json_str_dup J obj key = (case item J (Some obj) key of None \<Rightarrow> None
     | Some it \<Rightarrow> if \<not> cJSON_IsString it then None else valuestring it)"

definition json_int :: "cjson_lib \<Rightarrow> cjson \<Rightarrow> string \<Rightarrow> int \<Rightarrow> int" where
  "json_int J obj key fallback = (case item J (Some obj) key of None \<Rightarrow> fallback
     | Some it \<Rightarrow> if \<not> cJSON_IsNumber it then fallback else double_to_int (valuedouble it))"

definition json_double :: "cjson_lib \<Rightarrow> cjson \<Rightarrow> string \<Rightarrow> double \<Rightarrow> double" where
  "json_double J obj key fallback = (case item J (Some obj) key of None \<Rightarrow> fallback
     | Some it \<Rightarrow> if \<not> cJSON_IsNumber it then fallback else valuedouble it)"

text \<open>The bit one array element adds to the mask; 0 for an element that is skipped.\<close>

definition access_bit :: "cjson \<Rightarrow> byte" where
  "access_bit el = (case el of CString s \<Rightarrow>
       (if s = ''CurrentRead'' then AL_CURRENT_READ
        else if s = ''CurrentWrite'' then AL_CURRENT_WRITE
        else if s = ''HistoryRead'' then AL_HISTORY_READ
        else if s = ''HistoryWrite'' then AL_HISTORY_WRITE
        else if s = ''SemanticChange'' then AL_SEMANTIC_CHANGE
        else if s = ''StatusWrite'' then AL_STATUS_WRITE
        else if s = ''TimestampWrite'' then AL_TIMESTAMP_WRITE
        else 0)
     | _ \<Rightarrow> 0)"

definition parse_access_level :: "cjson option \<Rightarrow> byte" where
  "parse_access_level arr = (case arr of
     Some (CArray els) \<Rightarrow> foldl (\<lambda>mask el. mask OR access_bit el) 0 els
   | _ \<Rightarrow> AL_CURRENT_READ)"

definition parse_node_class :: "cstr \<Rightarrow> NodeClass" where
  "parse_node_class s = (case s of None \<Rightarrow> NODE_OBJECT
     | Some s \<Rightarrow> if s = ''Variable'' then NODE_VARIABLE
               else if s = ''Method'' then NODE_METHOD else NODE_OBJECT)"

definition parse_behavior_kind :: "cstr \<Rightarrow> BehaviorKind" where
  "parse_behavior_kind s = (case s of None \<Rightarrow> BEH_STATIC
     | Some s \<Rightarrow> if s = ''counter'' then BEH_COUNTER
               else if s = ''toggle'' then BEH_TOGGLE
               else if s = ''ramp'' then BEH_RAMP
               else if s = ''static'' then BEH_STATIC
               else if s = ''timestamp'' then BEH_TIMESTAMP
               else if s = ''status-sequence'' then BEH_STATUS_SEQUENCE
               else if s = ''fixed-status'' then BEH_FIXED_STATUS
               else BEH_STATIC)"

definition parse_argument :: "cjson_lib \<Rightarrow> cjson \<Rightarrow> Argument" where
  "parse_argument J el =
    \<lparr>arg_name = json_str_dup J el ''name'', arg_dataType = json_str_dup J el ''dataType'',
     arg_valueRank = json_int J el ''valueRank'' (- 1), arg_description = json_str_dup J el ''description''\<rparr>"

definition parse_arguments :: "cjson_lib \<Rightarrow> cjson option \<Rightarrow> Argument list" where
  "parse_arguments J arr = (case arr of Some (CArray els) \<Rightarrow> map (parse_argument J) els | _ \<Rightarrow> [])"

section \<open>Nodes\<close>

definition named :: "cstr \<Rightarrow> string" where
  "named s = (case s of None \<Rightarrow> ''(unknown)'' | Some n \<Rightarrow> n)"

definition UINT32_MAX_d :: double where
  "UINT32_MAX_d = DFin False (2 ^ 32 - 1)"

definition bad_dimension :: "cjson \<Rightarrow> bool" where
  "bad_dimension d \<longleftrightarrow> \<not> cJSON_IsNumber d \<or> dless (valuedouble d) (DFin False 0)
     \<or> dless UINT32_MAX_d (valuedouble d) \<or> \<not> deq (dfloor (valuedouble d)) (valuedouble d)"

text \<open>The loop over the entries of arrayDimensions, from index di on.\<close>

fun read_dimensions :: "cstr \<Rightarrow> nat \<Rightarrow> cjson list \<Rightarrow> u32 list res" where
  "read_dimensions who di [] = Ok []"
| "read_dimensions who di (d # dims) =
    (if bad_dimension d
     then Fail (''invalid arrayDimensions entry at index '' @ dec di @ '' for node '' @ [CHR 0x27] @ named who @ [CHR 0x27])
     else (case read_dimensions who (di + 1) dims of
             Inl e \<Rightarrow> Inl e | Inr ds \<Rightarrow> Inr (double_to_u32 (valuedouble d) # ds)))"

definition fixture_node_zero :: FixtureNode where
  "fixture_node_zero = \<lparr>nodeClass = NODE_OBJECT, fn_nodeId = None, browseName = None, displayName = None,
     fn_description = None, parentNodeId = None, referenceType = None, typeDefinition = None, dataType = None,
     valueRank = 0, arrayDimensions = [], accessLevel = 0, initialValue = None, hasEuRange = False,
     euRangeLow = DFin False 0, euRangeHigh = DFin False 0, methodBehavior = None, inputArgs = [], outputArgs = []\<rparr>"

definition read_dims_member :: "cjson_lib \<Rightarrow> cstr \<Rightarrow> cjson \<Rightarrow> u32 list res" where
  "read_dims_member J who el = (case item J (Some el) ''arrayDimensions'' of
     Some (CArray dims) \<Rightarrow> read_dimensions who 0 dims
   | _ \<Rightarrow> Ok [])"

definition number_item :: "cjson option \<Rightarrow> double option" where
  "number_item it = (case it of Some (CNumber d) \<Rightarrow> Some d | _ \<Rightarrow> None)"

definition read_eu_range :: "cjson_lib \<Rightarrow> cstr \<Rightarrow> cjson \<Rightarrow> (double \<times> double) option res" where
  "read_eu_range J who el = (case item J (Some el) ''euRange'' of
     Some (CObject ms) \<Rightarrow>
       (case (number_item (item J (Some (CObject ms)) ''low''), number_item (item J (Some (CObject ms)) ''high'')) of
          (Some lo, Some hi) \<Rightarrow> Ok (Some (lo, hi))
        | _ \<Rightarrow> Fail (''euRange of node '' @ [CHR 0x27] @ named who @ [CHR 0x27] @ '' needs numeric low and high''))
   | _ \<Rightarrow> Ok None)"

definition read_variable :: "cjson_lib \<Rightarrow> cjson \<Rightarrow> FixtureNode \<Rightarrow> FixtureNode res" where
  "read_variable J el nd =
    (case read_dims_member J (fn_nodeId nd) el of Inl e \<Rightarrow> Inl e
     | Inr dims \<Rightarrow>
        (case read_eu_range J (fn_nodeId nd) el of Inl e \<Rightarrow> Inl e
         | Inr eu \<Rightarrow>
            let nd = nd\<lparr>dataType := json_str_dup J el ''dataType'', valueRank := json_int J el ''valueRank'' (- 1),
                        arrayDimensions := dims,
                        accessLevel := parse_access_level (item J (Some el) ''accessLevel''),
                        initialValue := item J (Some el) ''initialValue''\<rparr>
            in (case eu of None \<Rightarrow> Inr nd
                | Some (lo, hi) \<Rightarrow> Inr (nd\<lparr>hasEuRange := True, euRangeLow := lo, euRangeHigh := hi\<rparr>))))"

definition read_method :: "cjson_lib \<Rightarrow> cjson \<Rightarrow> FixtureNode \<Rightarrow> FixtureNode" where
  "read_method J el nd =
    nd\<lparr>methodBehavior := json_str_dup J el ''methodBehavior'',
       inputArgs := parse_arguments J (item J (Some el) ''inputArguments''),
       outputArgs := parse_arguments J (item J (Some el) ''outputArguments'')\<rparr>"

definition read_node :: "cjson_lib \<Rightarrow> cjson \<Rightarrow> FixtureNode res" where
  "read_node J el =
    (let nd = fixture_node_zero\<lparr>nodeClass := parse_node_class (json_str_dup J el ''nodeClass''),
         fn_nodeId := json_str_dup J el ''nodeId'', browseName := json_str_dup J el ''browseName'',
         displayName := json_str_dup J el ''displayName'', fn_description := json_str_dup J el ''description'',
         parentNodeId := json_str_dup J el ''parentNodeId'', referenceType := json_str_dup J el ''referenceType'',
         typeDefinition := json_str_dup J el ''typeDefinition''\<rparr>
     in case nodeClass nd of
          NODE_VARIABLE \<Rightarrow> read_variable J el nd
        | NODE_METHOD \<Rightarrow> Ok (read_method J el nd)
        | NODE_OBJECT \<Rightarrow> Ok nd)"

section \<open>The document\<close>

definition read_behavior :: "cjson_lib \<Rightarrow> cjson \<Rightarrow> Behavior" where
  "read_behavior J el =
    \<lparr>beh_target = json_str_dup J el ''target'', beh_kind = parse_behavior_kind (json_str_dup J el ''kind''),
     beh_initial = json_double J el ''initial'' (DFin False 0),
     beh_increment = json_double J el ''increment'' (DFin False 1),
     beh_minimum = json_double J el ''minimum'' (DFin False 0),
     beh_maximum = json_double J el ''maximum'' (DFin False 100),
     intervalMs = json_int J el ''intervalMs'' 250\<rparr>"

definition array_items :: "cjson_lib \<Rightarrow> cjson \<Rightarrow> string \<Rightarrow> cjson list" where
  "array_items J doc key = (case item J (Some doc) key of Some (CArray els) \<Rightarrow> els | _ \<Rightarrow> [])"

definition fixture_of_json :: "cjson_lib \<Rightarrow> cjson \<Rightarrow> Fixture res" where
  "fixture_of_json J doc =
    (let srv = item J (Some doc) ''server''; ep = item J (Some doc) ''endpoint'';
         member = (\<lambda>x k. case x of None \<Rightarrow> None | Some n \<Rightarrow> json_str_dup J n k)
     in case map_res (read_node J) (array_items J doc ''nodes'') of Inl e \<Rightarrow> Inl e
        | Inr nds \<Rightarrow> Inr
           \<lparr>schemaVersion = json_str_dup J doc ''schemaVersion'', fix_id = json_str_dup J doc ''id'',
            fix_description = json_str_dup J doc ''description'',
            applicationUri = member srv ''applicationUri'', productUri = member srv ''productUri'',
            applicationName = member srv ''applicationName'',
            port = (case ep of None \<Rightarrow> 0 | Some n \<Rightarrow> json_int J n ''port'' 4840),
            endpointPath = member ep ''path'',
            namespaces = map (\<lambda>el. \<lparr>ns_alias = json_str_dup J el ''alias'', ns_uri = json_str_dup J el ''uri''\<rparr>)
              (array_items J doc ''namespaces''),
            nodes = nds,
            behaviors = map (read_behavior J) (array_items J doc ''behaviors''),
            securityProfiles = map (\<lambda>el. \<lparr>sp_policy = json_str_dup J el ''securityPolicy'',
              sp_mode = json_str_dup J el ''securityMode''\<rparr>) (array_items J doc ''securityProfiles''),
            users = map (\<lambda>el. \<lparr>username = json_str_dup J el ''username'', password = json_str_dup J el ''password''\<rparr>)
              (array_items J doc ''users'')\<rparr>)"

text \<open>The file system: the text of the error, or the bytes of the file.\<close>

type_synonym file_system = "string \<Rightarrow> string res"

definition fixture_load :: "cjson_lib \<Rightarrow> file_system \<Rightarrow> string \<Rightarrow> Fixture res" where
  "fixture_load J fs path =
    (let q = [CHR 0x27] @ path @ [CHR 0x27] in
     case fs path of
       Inl strerror \<Rightarrow> Fail (''cannot open fixture '' @ q @ '': '' @ strerror)
     | Inr bytes \<Rightarrow>
         if length bytes = 0 then Fail (''fixture file '' @ q @ '' is empty or unreadable'')
         else
           (case cJSON_ParseWithOpts J (takeWhile (\<lambda>c. c \<noteq> CHR 0x00) bytes) of
              (None, parse_err) \<Rightarrow>
                Fail (''JSON parse error in '' @ q @ '' near: '' @
                  (case parse_err of None \<Rightarrow> ''(unknown)'' | Some p \<Rightarrow> take 80 p))
            | (Some doc, _) \<Rightarrow> fixture_of_json J doc))"

section \<open>Array dimensions keep their value\<close>

lemma good_dimension:
  assumes "\<not> bad_dimension d"
  shows "\<exists>k < 2 ^ 32. dval (valuedouble d) = of_nat k \<and> double_to_u32 (valuedouble d) = word_of_nat k"
proof -
  from assms obtain s m where d: "valuedouble d = DFin s m"
    by (cases "valuedouble d") (auto simp: bad_dimension_def deq_def UINT32_MAX_d_def)
  define x where "x = dval (DFin s m)"
  from assms have x: "0 \<le> x" "x \<le> 2 ^ 32 - 1" by (auto simp: bad_dimension_def d x_def UINT32_MAX_d_def not_less)
  from assms have "dval (dfloor (DFin s m)) = x"
    by (auto simp: bad_dimension_def d deq_def Let_def x_def not_less intro: order_antisym)
  then have "x = of_int \<bar>\<lfloor>x\<rfloor>\<bar> \<or> x = - of_int \<bar>\<lfloor>x\<rfloor>\<bar>" by (auto simp: x_def Let_def split: if_splits)
  with x(1) obtain i :: int where i: "x = of_int i" by (metis of_int_minus)
  have "of_int i \<le> (of_int (2 ^ 32 - 1) :: rat)" using i x(2) by simp
  then have "i < 2 ^ 32" by (simp only: of_int_le_iff)
  moreover have "0 \<le> i" using i x(1) by simp
  ultimately have "0 \<le> i" "i < 2 ^ 32" by simp_all
  then have ki: "i = int (nat i)" by simp
  have "dtrunc (DFin s m) = i" using i \<open>0 \<le> i\<close> by (simp only: dtrunc_def x_def [symmetric]) simp
  then have "double_to_u32 (DFin s m) = word_of_int i"
    using \<open>0 \<le> i\<close> \<open>i < 2 ^ 32\<close> by (simp add: double_to_u32_def double_to_i64_def Let_def)
  then have "double_to_u32 (DFin s m) = word_of_nat (nat i)" using ki by (metis of_int_of_nat_eq)
  moreover have "x = of_nat (nat i)" using i ki by (metis of_int_of_nat_eq)
  moreover have "nat i < 2 ^ 32" using \<open>i < 2 ^ 32\<close> \<open>0 \<le> i\<close> by (simp add: nat_less_iff)
  ultimately show ?thesis unfolding d x_def by blast
qed

lemma read_dimensions_good:
  "\<forall>d\<in>set dims. \<not> bad_dimension d \<Longrightarrow>
    read_dimensions who di dims = Ok (map (\<lambda>d. double_to_u32 (valuedouble d)) dims)"
  by (induction dims arbitrary: di) simp_all

text \<open>The error names the first bad entry.\<close>

lemma read_dimensions_error:
  "\<forall>d\<in>set pre. \<not> bad_dimension d \<Longrightarrow> bad_dimension b \<Longrightarrow>
    read_dimensions who di (pre @ b # post) =
      Fail (''invalid arrayDimensions entry at index '' @ dec (di + length pre) @ '' for node '' @ [CHR 0x27] @ named who @ [CHR 0x27])"
  by (induction pre arbitrary: di) simp_all

lemma read_dimensions_Ok:
  "read_dimensions who di dims = Inr ds \<longleftrightarrow>
    (\<forall>d\<in>set dims. \<not> bad_dimension d) \<and> ds = map (\<lambda>d. double_to_u32 (valuedouble d)) dims"
proof (cases "\<forall>d\<in>set dims. \<not> bad_dimension d")
  case False
  then obtain pre b post where "dims = pre @ b # post" "bad_dimension b" "\<forall>d\<in>set pre. \<not> bad_dimension d"
    using split_list_first_prop [of dims bad_dimension] by auto
  then show ?thesis using read_dimensions_error [of pre b who di post] False by auto
qed (auto simp: read_dimensions_good)

section \<open>Access levels\<close>

lemma foldl_or: "foldl (\<lambda>mask el. mask OR f el) (a :: byte) els = a OR foldl (\<lambda>mask el. mask OR f el) 0 els"
  by (induction els arbitrary: a) (simp, metis (no_types, lifting) foldl_Cons or.assoc or.left_neutral)

lemma bit_foldl_or: "bit (foldl (\<lambda>mask el. mask OR f el) (0 :: byte) els) n \<longleftrightarrow> (\<exists>el\<in>set els. bit (f el) n)"
proof (induction els)
  case (Cons e els)
  have "foldl (\<lambda>mask el. mask OR f el) 0 (e # els) = f e OR foldl (\<lambda>mask el. mask OR f el) 0 els"
    using foldl_or [of f "f e" els] by simp
  with Cons show ?case by (simp add: bit_or_iff)
qed simp

definition access_names :: "(string \<times> byte) list" where
  "access_names = [(''CurrentRead'', 1), (''CurrentWrite'', 2), (''HistoryRead'', 4), (''HistoryWrite'', 0x10),
     (''SemanticChange'', 0x40), (''StatusWrite'', 0x20), (''TimestampWrite'', 0x80)]"

lemma access_bit_names: "access_bit el = (case el of CString s \<Rightarrow> (case map_of access_names s of None \<Rightarrow> 0 | Some b \<Rightarrow> b) | _ \<Rightarrow> 0)"
  by (auto simp: access_bit_def access_names_def split: cjson.split)

definition example_doc :: cjson where
  "example_doc = CObject [(''nodes'', CArray [CObject [(''nodeClass'', CString ''Variable''),
     (''arrayDimensions'', CArray [CNumber (DFin False 3)])]])]"

definition example_json :: cjson_lib where
  "example_json = plain_json\<lparr>cJSON_ParseWithOpts := (\<lambda>_. (Some example_doc, None))\<rparr>"

lemma example_dimension: "\<not> bad_dimension (CNumber (DFin False 3))"
  by (simp add: bad_dimension_def UINT32_MAX_d_def deq_def)

text \<open>The access level of a Variable is the union of the levels named in its array, whatever
  their order or repetition; unknown names and entries that are not strings add nothing, and a
  node without the array is readable only.\<close>

lemma access_level_union:
  "bit (parse_access_level (Some (CArray els))) n \<longleftrightarrow>
     (\<exists>s b. CString s \<in> set els \<and> map_of access_names s = Some b \<and> bit b n)"
proof -
  have "bit (access_bit el) n \<longleftrightarrow> (\<exists>s b. el = CString s \<and> map_of access_names s = Some b \<and> bit b n)" for el
    by (auto simp: access_bit_names split: cjson.splits option.splits)
  then show ?thesis by (auto simp: parse_access_level_def bit_foldl_or)
qed

lemma map_res_succeeds: "(\<exists>ys. map_res f xs = Inr ys) \<longleftrightarrow> (\<forall>x\<in>set xs. \<exists>y. f x = Inr y)"
  by (induction xs) (auto split: sum.splits)

section \<open>Loading\<close>

text \<open>The members of an object, read off the fixture format: texts and numbers, the elements of an
  array, and whole numbers that fit 32 bits (of which 0 may be written with a sign).\<close>

definition text_member :: "cjson_lib \<Rightarrow> cjson \<Rightarrow> string \<Rightarrow> cstr" where
  "text_member J obj key = (case item J (Some obj) key of Some (CString s) \<Rightarrow> Some s | _ \<Rightarrow> None)"

definition number_member :: "cjson_lib \<Rightarrow> cjson \<Rightarrow> string \<Rightarrow> double \<Rightarrow> double" where
  "number_member J obj key fallback = (case item J (Some obj) key of Some (CNumber d) \<Rightarrow> d | _ \<Rightarrow> fallback)"

definition int_member :: "cjson_lib \<Rightarrow> cjson \<Rightarrow> string \<Rightarrow> int \<Rightarrow> int" where
  "int_member J obj key fallback = (case item J (Some obj) key of Some (CNumber d) \<Rightarrow> double_to_int d | _ \<Rightarrow> fallback)"

definition elements :: "cjson option \<Rightarrow> cjson list" where
  "elements v = (case v of Some (CArray els) \<Rightarrow> els | _ \<Rightarrow> [])"

definition whole_number :: "cjson \<Rightarrow> u32 \<Rightarrow> bool" where
  "whole_number j w \<longleftrightarrow> j = CNumber (DFin False (of_nat (unat w))) \<or> (w = 0 \<and> j = CNumber (DFin True 0))"

definition describes_arg :: "cjson_lib \<Rightarrow> cjson \<Rightarrow> Argument \<Rightarrow> bool" where
  "describes_arg J el a \<longleftrightarrow> arg_name a = text_member J el ''name'' \<and> arg_dataType a = text_member J el ''dataType'' \<and>
     arg_valueRank a = int_member J el ''valueRank'' (- 1) \<and> arg_description a = text_member J el ''description''"

text \<open>The documented form of a Variable entry: dimensions are whole numbers below 2^32, a range has two numbers.\<close>

definition dimensions_fit :: "cjson_lib \<Rightarrow> cjson \<Rightarrow> bool" where
  "dimensions_fit J el \<longleftrightarrow> (\<forall>j\<in>set (elements (item J (Some el) ''arrayDimensions'')). \<exists>w. whole_number j w)"

definition range_numeric :: "cjson_lib \<Rightarrow> cjson \<Rightarrow> bool" where
  "range_numeric J el \<longleftrightarrow> (\<forall>ms. item J (Some el) ''euRange'' = Some (CObject ms) \<longrightarrow>
     (\<exists>lo hi. item J (Some (CObject ms)) ''low'' = Some (CNumber lo) \<and> item J (Some (CObject ms)) ''high'' = Some (CNumber hi)))"

definition describes_variable_entry :: "cjson_lib \<Rightarrow> cjson \<Rightarrow> FixtureNode \<Rightarrow> bool" where
  "describes_variable_entry J el nd \<longleftrightarrow>
     dataType nd = text_member J el ''dataType'' \<and> valueRank nd = int_member J el ''valueRank'' (- 1) \<and>
     list_all2 whole_number (elements (item J (Some el) ''arrayDimensions'')) (arrayDimensions nd) \<and>
     (case item J (Some el) ''accessLevel'' of
        Some (CArray els) \<Rightarrow> (\<forall>n. bit (accessLevel nd) n \<longleftrightarrow> (\<exists>s b. CString s \<in> set els \<and> map_of access_names s = Some b \<and> bit b n))
      | _ \<Rightarrow> accessLevel nd = 1) \<and>
     initialValue nd = item J (Some el) ''initialValue'' \<and>
     (case item J (Some el) ''euRange'' of
        Some (CObject ms) \<Rightarrow> hasEuRange nd \<and> item J (Some (CObject ms)) ''low'' = Some (CNumber (euRangeLow nd)) \<and>
          item J (Some (CObject ms)) ''high'' = Some (CNumber (euRangeHigh nd))
      | _ \<Rightarrow> \<not> hasEuRange nd)"

definition describes_node :: "cjson_lib \<Rightarrow> cjson \<Rightarrow> FixtureNode \<Rightarrow> bool" where
  "describes_node J el nd \<longleftrightarrow>
     fn_nodeId nd = text_member J el ''nodeId'' \<and> browseName nd = text_member J el ''browseName'' \<and>
     displayName nd = text_member J el ''displayName'' \<and> fn_description nd = text_member J el ''description'' \<and>
     parentNodeId nd = text_member J el ''parentNodeId'' \<and> referenceType nd = text_member J el ''referenceType'' \<and>
     typeDefinition nd = text_member J el ''typeDefinition'' \<and>
     (if text_member J el ''nodeClass'' = Some ''Variable'' then nodeClass nd = NODE_VARIABLE \<and> describes_variable_entry J el nd
      else if text_member J el ''nodeClass'' = Some ''Method'' then nodeClass nd = NODE_METHOD \<and>
        methodBehavior nd = text_member J el ''methodBehavior'' \<and>
        list_all2 (describes_arg J) (elements (item J (Some el) ''inputArguments'')) (inputArgs nd) \<and>
        list_all2 (describes_arg J) (elements (item J (Some el) ''outputArguments'')) (outputArgs nd)
      else nodeClass nd = NODE_OBJECT)"

definition behavior_kinds :: "(string \<times> BehaviorKind) list" where
  "behavior_kinds = [(''counter'', BEH_COUNTER), (''toggle'', BEH_TOGGLE), (''ramp'', BEH_RAMP), (''timestamp'', BEH_TIMESTAMP),
     (''status-sequence'', BEH_STATUS_SEQUENCE), (''fixed-status'', BEH_FIXED_STATUS)]"

definition describes_behavior :: "cjson_lib \<Rightarrow> cjson \<Rightarrow> Behavior \<Rightarrow> bool" where
  "describes_behavior J el b \<longleftrightarrow> beh_target b = text_member J el ''target'' \<and>
     beh_kind b = (case text_member J el ''kind'' of None \<Rightarrow> BEH_STATIC
       | Some k \<Rightarrow> (case map_of behavior_kinds k of None \<Rightarrow> BEH_STATIC | Some kd \<Rightarrow> kd)) \<and>
     beh_initial b = number_member J el ''initial'' (DFin False 0) \<and> beh_increment b = number_member J el ''increment'' (DFin False 1) \<and>
     beh_minimum b = number_member J el ''minimum'' (DFin False 0) \<and> beh_maximum b = number_member J el ''maximum'' (DFin False 100) \<and>
     intervalMs b = int_member J el ''intervalMs'' 250"

text \<open>The parts of the document that hold lists, each element in its place.\<close>

definition describes_fixture :: "cjson_lib \<Rightarrow> cjson \<Rightarrow> Fixture \<Rightarrow> bool" where
  "describes_fixture J doc f \<longleftrightarrow>
     list_all2 (describes_node J) (elements (item J (Some doc) ''nodes'')) (nodes f) \<and>
     list_all2 (describes_behavior J) (elements (item J (Some doc) ''behaviors'')) (behaviors f) \<and>
     list_all2 (\<lambda>el n. ns_alias n = text_member J el ''alias'' \<and> ns_uri n = text_member J el ''uri'')
       (elements (item J (Some doc) ''namespaces'')) (namespaces f) \<and>
     list_all2 (\<lambda>el p. sp_policy p = text_member J el ''securityPolicy'' \<and> sp_mode p = text_member J el ''securityMode'')
       (elements (item J (Some doc) ''securityProfiles'')) (securityProfiles f) \<and>
     list_all2 (\<lambda>el u. username u = text_member J el ''username'' \<and> password u = text_member J el ''password'')
       (elements (item J (Some doc) ''users'')) (users f)"

lemma json_str_dup_text: "json_str_dup J el k = text_member J el k"
  by (auto simp: json_str_dup_def text_member_def split: option.split cjson.split)

lemma json_int_member: "json_int J el k d = int_member J el k d"
  by (auto simp: json_int_def int_member_def split: option.split cjson.split)

lemma json_double_member: "json_double J el k d = number_member J el k d"
  by (auto simp: json_double_def number_member_def split: option.split cjson.split)

lemma array_items_elements: "array_items J doc k = elements (item J (Some doc) k)"
  by (simp add: array_items_def elements_def)

lemmas json_members = json_str_dup_text json_int_member json_double_member array_items_elements

lemma whole_dimension:
  assumes "\<not> bad_dimension j"
  shows "whole_number j (double_to_u32 (valuedouble j))"
proof -
  obtain k where k: "k < 2 ^ 32" "dval (valuedouble j) = of_nat k" "double_to_u32 (valuedouble j) = word_of_nat k"
    using good_dimension [OF assms] by blast
  have u: "unat (word_of_nat k :: u32) = k" using k(1) by (simp add: unat_of_nat)
  obtain s m where j: "j = CNumber (DFin s m)"
    using assms by (cases j; cases "valuedouble j") (auto simp: bad_dimension_def UINT32_MAX_d_def deq_def)
  show ?thesis
  proof (cases s)
    case True
    then have m: "m = - of_nat k" using k(2) j by simp
    then have "\<lfloor>dval (DFin s m)\<rfloor> = int k" using True by simp
    then have "dval (dfloor (DFin s m)) = - of_nat k" using True by (simp add: Let_def)
    moreover have "deq (dfloor (DFin s m)) (DFin s m)" using assms j by (simp add: bad_dimension_def del: dfloor.simps)
    ultimately have "- of_nat k = (of_nat k :: rat)" using True m by (auto simp: deq_def Let_def)
    then have "k = 0" by simp
    then show ?thesis using True m j k(3) by (simp add: whole_number_def)
  qed (use k j u in \<open>simp add: whole_number_def\<close>)
qed

lemma whole_number_dimension:
  assumes "whole_number j w"
  shows "\<not> bad_dimension j"
proof -
  have "unat w \<le> 2 ^ 32 - 1" using unsigned_less [of w, where ?'a = nat] by simp
  then have le: "(of_nat (unat w) :: rat) \<le> of_nat (2 ^ 32 - 1)" by (simp only: of_nat_le_iff)
  from assms show ?thesis unfolding whole_number_def
  proof
    assume j: "j = CNumber (DFin False (of_nat (unat w)))"
    have "dfloor (DFin False (of_nat n)) = DFin False (of_nat n)" for n :: nat by (simp add: Let_def)
    then show ?thesis using le
      by (simp add: bad_dimension_def j UINT32_MAX_d_def deq_def del: dfloor.simps of_nat_unat)
  qed (simp add: bad_dimension_def UINT32_MAX_d_def deq_def)
qed

lemma dimensions_described:
  "read_dims_member J who el = Inr ds \<Longrightarrow>
    dimensions_fit J el \<and> list_all2 whole_number (elements (item J (Some el) ''arrayDimensions'')) ds"
  by (auto simp: read_dims_member_def read_dimensions_Ok elements_def dimensions_fit_def list_all2_map2 list_all2_same
    dest: whole_dimension split: option.splits cjson.splits)

lemma dimensions_fit_read: "dimensions_fit J el \<Longrightarrow> \<exists>ds. read_dims_member J who el = Inr ds"
  by (auto simp: read_dims_member_def read_dimensions_Ok elements_def dimensions_fit_def
    dest: whole_number_dimension split: option.splits cjson.splits)

lemma range_described:
  "read_eu_range J who el = Inr r \<Longrightarrow> range_numeric J el \<and>
    (case item J (Some el) ''euRange'' of
       Some (CObject ms) \<Rightarrow> (\<exists>lo hi. r = Some (lo, hi) \<and> item J (Some (CObject ms)) ''low'' = Some (CNumber lo) \<and>
         item J (Some (CObject ms)) ''high'' = Some (CNumber hi))
     | _ \<Rightarrow> r = None)"
  by (auto simp: read_eu_range_def range_numeric_def number_item_def split: option.splits cjson.splits)

lemma range_numeric_read: "range_numeric J el \<Longrightarrow> \<exists>r. read_eu_range J who el = Inr r"
  by (auto simp: read_eu_range_def range_numeric_def number_item_def split: option.split cjson.split)

lemma access_described:
  "case v of Some (CArray els) \<Rightarrow> (\<forall>n. bit (parse_access_level v) n \<longleftrightarrow> (\<exists>s b. CString s \<in> set els \<and> map_of access_names s = Some b \<and> bit b n))
    | _ \<Rightarrow> parse_access_level v = 1"
  by (auto simp: access_level_union split: option.split cjson.split) (simp_all add: parse_access_level_def)

lemma read_variable_described:
  assumes "read_variable J el nd = Inr nd'" "\<not> hasEuRange nd"
  shows "dimensions_fit J el \<and> range_numeric J el \<and> describes_variable_entry J el nd' \<and> nodeClass nd' = nodeClass nd \<and>
    fn_nodeId nd' = fn_nodeId nd \<and> browseName nd' = browseName nd \<and> displayName nd' = displayName nd \<and> fn_description nd' = fn_description nd \<and>
    parentNodeId nd' = parentNodeId nd \<and> referenceType nd' = referenceType nd \<and> typeDefinition nd' = typeDefinition nd"
proof -
  obtain ds r where d: "read_dims_member J (fn_nodeId nd) el = Inr ds" and r: "read_eu_range J (fn_nodeId nd) el = Inr r"
    using assms by (auto simp: read_variable_def split: sum.splits)
  let ?nd = "nd\<lparr>dataType := text_member J el ''dataType'', valueRank := int_member J el ''valueRank'' (- 1), arrayDimensions := ds,
     accessLevel := parse_access_level (item J (Some el) ''accessLevel''), initialValue := item J (Some el) ''initialValue''\<rparr>"
  have nd': "nd' = (case r of None \<Rightarrow> ?nd | Some (lo, hi) \<Rightarrow> ?nd\<lparr>hasEuRange := True, euRangeLow := lo, euRangeHigh := hi\<rparr>)"
    using assms(1) by (cases r) (auto simp: read_variable_def d r Let_def json_members)
  have eu: "case item J (Some el) ''euRange'' of
      Some (CObject ms) \<Rightarrow> hasEuRange nd' \<and> item J (Some (CObject ms)) ''low'' = Some (CNumber (euRangeLow nd')) \<and>
        item J (Some (CObject ms)) ''high'' = Some (CNumber (euRangeHigh nd'))
    | _ \<Rightarrow> \<not> hasEuRange nd'"
    using range_described [OF r] assms(2) unfolding nd' by (auto split: option.splits cjson.splits)
  have nd'_fields: "dataType nd' = dataType ?nd \<and> valueRank nd' = valueRank ?nd \<and> arrayDimensions nd' = ds \<and>
      accessLevel nd' = accessLevel ?nd \<and> initialValue nd' = initialValue ?nd \<and> nodeClass nd' = nodeClass nd \<and>
      fn_nodeId nd' = fn_nodeId nd \<and> browseName nd' = browseName nd \<and> displayName nd' = displayName nd \<and> fn_description nd' = fn_description nd \<and>
      parentNodeId nd' = parentNodeId nd \<and> referenceType nd' = referenceType nd \<and> typeDefinition nd' = typeDefinition nd"
    unfolding nd' by (simp split: option.split)
  then have al: "accessLevel nd' = parse_access_level (item J (Some el) ''accessLevel'')" by simp
  show ?thesis
    using dimensions_described [OF d] range_described [OF r] access_described [of "item J (Some el) ''accessLevel''", folded al] eu
    unfolding describes_variable_entry_def by (simp add: nd'_fields)
qed

lemma read_variable_reads: "dimensions_fit J el \<Longrightarrow> range_numeric J el \<Longrightarrow> \<exists>nd'. read_variable J el nd = Inr nd'"
  using dimensions_fit_read [of J el "fn_nodeId nd"] range_numeric_read [of J el "fn_nodeId nd"]
  by (auto simp: read_variable_def Let_def split: option.split)

lemma parse_arguments_described: "list_all2 (describes_arg J) (elements v) (parse_arguments J v)"
  by (auto simp: parse_arguments_def elements_def list_all2_map2 list_all2_same describes_arg_def parse_argument_def json_members
    split: option.split cjson.split)

lemma node_class_text: "parse_node_class s = (if s = Some ''Variable'' then NODE_VARIABLE else if s = Some ''Method'' then NODE_METHOD else NODE_OBJECT)"
  by (auto simp: parse_node_class_def split: option.split)

text \<open>An entry can be read exactly when it is not a Variable or has the documented form.\<close>

definition entry_ok :: "cjson_lib \<Rightarrow> cjson \<Rightarrow> bool" where
  "entry_ok J el \<longleftrightarrow> text_member J el ''nodeClass'' = Some ''Variable'' \<longrightarrow> dimensions_fit J el \<and> range_numeric J el"

lemma read_node_described:
  assumes "read_node J el = Inr nd"
  shows "entry_ok J el \<and> describes_node J el nd"
proof (cases "text_member J el ''nodeClass'' = Some ''Variable''")
  case True
  then show ?thesis using assms read_variable_described
    by (simp add: read_node_def Let_def json_members node_class_text entry_ok_def describes_node_def) (fastforce simp: fixture_node_zero_def)
next
  case False
  then show ?thesis using assms parse_arguments_described [of J]
    by (auto simp: read_node_def Let_def json_members node_class_text entry_ok_def describes_node_def read_method_def split: if_splits)
qed

lemma read_node_reads: "entry_ok J el \<Longrightarrow> \<exists>nd. read_node J el = Inr nd"
  using read_variable_reads by (auto simp: read_node_def Let_def json_members node_class_text entry_ok_def)

lemma read_behavior_described: "describes_behavior J el (read_behavior J el)"
  by (auto simp: describes_behavior_def read_behavior_def json_members parse_behavior_kind_def behavior_kinds_def split: option.split)

lemma fixture_of_json_described:
  assumes "fixture_of_json J doc = Inr f"
  shows "describes_fixture J doc f"
proof -
  have "list_all2 (\<lambda>el nd. read_node J el = Inr nd) (array_items J doc ''nodes'') (nodes f)"
    using assms by (auto simp: fixture_of_json_def Let_def map_res_Ok split: sum.splits)
  then have "list_all2 (describes_node J) (array_items J doc ''nodes'') (nodes f)"
    by (rule list_all2_mono) (use read_node_described in blast)
  moreover have "behaviors f = map (read_behavior J) (array_items J doc ''behaviors'')"
    "namespaces f = map (\<lambda>el. \<lparr>ns_alias = json_str_dup J el ''alias'', ns_uri = json_str_dup J el ''uri''\<rparr>) (array_items J doc ''namespaces'')"
    "securityProfiles f = map (\<lambda>el. \<lparr>sp_policy = json_str_dup J el ''securityPolicy'', sp_mode = json_str_dup J el ''securityMode''\<rparr>) (array_items J doc ''securityProfiles'')"
    "users f = map (\<lambda>el. \<lparr>username = json_str_dup J el ''username'', password = json_str_dup J el ''password''\<rparr>) (array_items J doc ''users'')"
    using assms by (auto simp: fixture_of_json_def Let_def split: sum.splits)
  ultimately show ?thesis
    by (simp add: describes_fixture_def json_members list_all2_map2 list_all2_same read_behavior_described)
qed

lemma fixture_of_json_reads:
  "(\<exists>f. fixture_of_json J doc = Inr f) \<longleftrightarrow> (\<forall>el\<in>set (elements (item J (Some doc) ''nodes'')). entry_ok J el)"
proof -
  have "(\<exists>f. fixture_of_json J doc = Inr f) \<longleftrightarrow> (\<exists>nds. map_res (read_node J) (array_items J doc ''nodes'') = Inr nds)"
    by (auto simp: fixture_of_json_def Let_def split: sum.splits)
  then show ?thesis unfolding map_res_succeeds array_items_elements using read_node_described read_node_reads by blast
qed

lemma example_entry_ok: "\<forall>el\<in>set (elements (item example_json (Some example_doc) ''nodes'')). entry_ok example_json el"
  using whole_dimension [OF example_dimension]
  by (auto simp: entry_ok_def dimensions_fit_def range_numeric_def example_json_def example_doc_def plain_json_def elements_def)

text \<open>C28 A fixture loads exactly when its file can be read and is not empty, its text (up to the first zero byte) parses as
  JSON, and every Variable of its nodes array has, if any, whole dimensions from 0 to 2^32 - 1 and a
  euRange with two numbers; nothing else makes it fail, and otherwise the result is an error. What is loaded is what the document
  describes: the nodes, behaviors, namespaces, security profiles and users are the elements of their arrays, each in its place, with the members' texts
  and numbers, the defaults for the missing ones, the exact dimensions and the union of the named access levels.\<close>

theorem fixture_load_succeeds:
  "((\<exists>f. fixture_load J fs path = Ok f) \<longleftrightarrow>
     (\<exists>bytes doc rest. fs path = Ok bytes \<and> bytes \<noteq> [] \<and>
       cJSON_ParseWithOpts J (takeWhile (\<lambda>c. c \<noteq> CHR 0x00) bytes) = (Some doc, rest) \<and>
       (\<forall>el\<in>set (elements (item J (Some doc) ''nodes'')).
          text_member J el ''nodeClass'' = Some ''Variable'' \<longrightarrow> dimensions_fit J el \<and> range_numeric J el))) \<and>
   (\<forall>f. fixture_load J fs path = Ok f \<longrightarrow>
     (\<exists>bytes doc rest. fs path = Ok bytes \<and> cJSON_ParseWithOpts J (takeWhile (\<lambda>c. c \<noteq> CHR 0x00) bytes) = (Some doc, rest) \<and>
       describes_fixture J doc f))"
proof -
  have load: "fixture_load J fs path = Ok f \<longleftrightarrow> (\<exists>bytes doc rest. fs path = Ok bytes \<and> bytes \<noteq> [] \<and>
      cJSON_ParseWithOpts J (takeWhile (\<lambda>c. c \<noteq> CHR 0x00) bytes) = (Some doc, rest) \<and> fixture_of_json J doc = Ok f)" for f
    by (auto simp: fixture_load_def Let_def split: sum.split prod.split option.split)
  show ?thesis unfolding load entry_ok_def [symmetric] fixture_of_json_reads [symmetric]
    using fixture_of_json_described by blast
qed

theorem fixture_load_succeeds_witness:
  "\<exists>f. fixture_load example_json (\<lambda>_. Ok ''x'') ''f.json'' = Ok f \<and> describes_fixture example_json example_doc f"
proof -
  have parse: "cJSON_ParseWithOpts example_json s = (Some example_doc, None)" for s by (simp add: example_json_def)
  have "\<exists>f. fixture_load example_json (\<lambda>_. Ok ''x'') ''f.json'' = Ok f"
    using fixture_load_succeeds [of example_json "\<lambda>_. Ok ''x''" "''f.json''"] example_entry_ok by (simp add: parse entry_ok_def)
  then show ?thesis using fixture_load_succeeds [of example_json "\<lambda>_. Ok ''x''" "''f.json''"] by (auto simp: parse)
qed

end
