(* ===== verification/Output.thy ===== *)
theory Output
  imports Values
begin

text \<open>
  output.c: the JSON the adapter prints. A function that prints to stdout is the text it
  prints; an object that the source prints member by member is \<open>jobj\<close> of its members, in the
  same order and with the same conditions, an array is \<open>jarr\<close> of its elements. A function
  that formats into a caller's buffer gives the bytes it writes before the terminating NUL and
  the length it returns.
\<close>

section \<open>Strings\<close>

definition escape_char :: "char \<Rightarrow> string" where
  "escape_char c =
    (if c = quote then [bslash, quote]
     else if c = bslash then [bslash, bslash]
     else if c = CHR 0x0A then [bslash, CHR ''n'']
     else if c = CHR 0x0D then [bslash, CHR ''r'']
     else if c = CHR 0x09 then [bslash, CHR ''t'']
     else if (of_char c :: nat) < 32 then [bslash, CHR ''u''] @ hex_pad 4 (of_char c)
     else [c])"

definition print_json_string :: "cstr \<Rightarrow> string" where
  "print_json_string s = (case s of None \<Rightarrow> ''null''
     | Some s \<Rightarrow> quote # concat (map escape_char s) @ [quote])"

text \<open>The copy is a C string: it ends at the first NUL byte of the data.\<close>

definition until_nul :: "string \<Rightarrow> string" where
  "until_nul s = takeWhile (\<lambda>c. c \<noteq> CHR 0x00) s"

definition print_json_string_len :: "ua_string \<Rightarrow> string" where
  "print_json_string_len s = (case s of None \<Rightarrow> ''null''
     | Some s \<Rightarrow> print_json_string (Some (until_nul s)))"

section \<open>Status codes, type ids, timestamps\<close>

definition output_severity :: "stack \<Rightarrow> u32 \<Rightarrow> string" where
  "output_severity st code =
    (if StatusCode_isGood st code then ''Good''
     else if StatusCode_isUncertain st code then ''Uncertain'' else ''Bad'')"

definition output_status_code_name :: "stack \<Rightarrow> u32 \<Rightarrow> string" where
  "output_status_code_name st code = (case StatusCode_name st code of
     Some (c # cs) \<Rightarrow> c # cs | _ \<Rightarrow> ''Unknown'')"

fun ua_type_to_builtin_id :: "ua_type option \<Rightarrow> nat" where
  "ua_type_to_builtin_id None = 0"
| "ua_type_to_builtin_id (Some TBoolean) = 1"
| "ua_type_to_builtin_id (Some TSByte) = 2"
| "ua_type_to_builtin_id (Some TByte) = 3"
| "ua_type_to_builtin_id (Some TInt16) = 4"
| "ua_type_to_builtin_id (Some TUInt16) = 5"
| "ua_type_to_builtin_id (Some TInt32) = 6"
| "ua_type_to_builtin_id (Some TUInt32) = 7"
| "ua_type_to_builtin_id (Some TInt64) = 8"
| "ua_type_to_builtin_id (Some TUInt64) = 9"
| "ua_type_to_builtin_id (Some TFloat) = 10"
| "ua_type_to_builtin_id (Some TDouble) = 11"
| "ua_type_to_builtin_id (Some TString) = 12"
| "ua_type_to_builtin_id (Some TDateTime) = 13"
| "ua_type_to_builtin_id (Some TGuid) = 14"
| "ua_type_to_builtin_id (Some TByteString) = 15"
| "ua_type_to_builtin_id (Some TXmlElement) = 16"
| "ua_type_to_builtin_id (Some TNodeId) = 17"
| "ua_type_to_builtin_id (Some TExpandedNodeId) = 18"
| "ua_type_to_builtin_id (Some TStatusCode) = 19"
| "ua_type_to_builtin_id (Some TQualifiedName) = 20"
| "ua_type_to_builtin_id (Some TLocalizedText) = 21"
| "ua_type_to_builtin_id (Some TExtensionObject) = 22"
| "ua_type_to_builtin_id (Some TDataValue) = 23"
| "ua_type_to_builtin_id (Some TVariant) = 24"
| "ua_type_to_builtin_id (Some TDiagnosticInfo) = 25"
| "ua_type_to_builtin_id (Some (TOther _)) = 0"

text \<open>\<open>snprintf (buf, bufLen, ...)\<close> of a text: what the buffer holds before its NUL.\<close>

definition snprintf_buf :: "nat \<Rightarrow> string \<Rightarrow> string" where
  "snprintf_buf bufLen s = take (bufLen - 1) s"

definition output_timestamp :: "stack \<Rightarrow> u64 \<Rightarrow> nat \<Rightarrow> string" where
  "output_timestamp st dt bufLen =
    (if dt = 0 then [] else
     let dts = DateTime_toStruct st dt in
     snprintf_buf bufLen
       (dec_pad 4 (unat (word_of_int (dts_year dts) :: u32)) @ ''-'' @ dec_pad 2 (unat (dts_month dts)) @ ''-''
        @ dec_pad 2 (unat (dts_day dts)) @ ''T'' @ dec_pad 2 (unat (dts_hour dts)) @ '':''
        @ dec_pad 2 (unat (dts_min dts)) @ '':'' @ dec_pad 2 (unat (dts_sec dts)) @ ''.''
        @ dec_pad 3 (unat (dts_milliSec dts)) @ ''Z''))"

section \<open>Node ids\<close>

definition guid_text :: "guid \<Rightarrow> string" where
  "guid_text g =
    hex_pad 8 (unat (data1 g)) @ ''-'' @ hex_pad 4 (unat (data2 g)) @ ''-'' @ hex_pad 4 (unat (data3 g)) @ ''-''
    @ hex_pad 2 (unat (data4 g ! 0)) @ hex_pad 2 (unat (data4 g ! 1)) @ ''-''
    @ hex_pad 2 (unat (data4 g ! 2)) @ hex_pad 2 (unat (data4 g ! 3)) @ hex_pad 2 (unat (data4 g ! 4))
    @ hex_pad 2 (unat (data4 g ! 5)) @ hex_pad 2 (unat (data4 g ! 6)) @ hex_pad 2 (unat (data4 g ! 7))"

text \<open>The loop over the bytes of a string identifier: only the quote and the backslash are
  escaped.\<close>

definition escape_quotes :: "string \<Rightarrow> string" where
  "escape_quotes s = concat (map (\<lambda>c. if c = quote \<or> c = bslash then [bslash, c] else [c]) s)"

definition bytes_of_string :: "ua_string \<Rightarrow> string" where
  "bytes_of_string s = (case s of None \<Rightarrow> [] | Some s \<Rightarrow> s)"

definition base64_of :: "ua_bytes \<Rightarrow> string" where
  "base64_of bs = (case bs of None \<Rightarrow> [] | Some b \<Rightarrow> print_base64 b [])"

definition print_ua_nodeid :: "nodeid \<Rightarrow> string" where
  "print_ua_nodeid n =
    (let ns = ''ns='' @ dec (unat (namespaceIndex n)) @ '';'' in
     case nid n of
       Numeric i \<Rightarrow>
         (if namespaceIndex n = 0 then [quote] @ ''i='' @ dec (unat i) @ [quote]
          else [quote] @ ns @ ''i='' @ dec (unat i) @ [quote])
     | StringId s \<Rightarrow> [quote] @ ns @ ''s='' @ escape_quotes (bytes_of_string s) @ [quote]
     | GuidId g \<Rightarrow> [quote] @ ns @ ''g='' @ guid_text g @ [quote]
     | ByteStringId bs \<Rightarrow> [quote] @ ns @ ''b='' @ base64_of bs @ [quote])"

datatype node_class =
    NC_Object | NC_Variable | NC_Method | NC_ObjectType | NC_VariableType | NC_ReferenceType
  | NC_DataType | NC_View | NC_Unspecified

fun node_class_name :: "node_class \<Rightarrow> string" where
  "node_class_name NC_Object = ''Object''"
| "node_class_name NC_Variable = ''Variable''"
| "node_class_name NC_Method = ''Method''"
| "node_class_name NC_ObjectType = ''ObjectType''"
| "node_class_name NC_VariableType = ''VariableType''"
| "node_class_name NC_ReferenceType = ''ReferenceType''"
| "node_class_name NC_DataType = ''DataType''"
| "node_class_name NC_View = ''View''"
| "node_class_name NC_Unspecified = ''Unknown''"

section \<open>Values\<close>

definition print_ua_string :: "ua_string \<Rightarrow> string" where
  "print_ua_string s = (case s of None \<Rightarrow> ''null'' | Some [] \<Rightarrow> [quote, quote]
     | Some s \<Rightarrow> print_json_string_len (Some s))"

definition print_ua_string_nn :: "ua_string \<Rightarrow> string" where
  "print_ua_string_nn s = (case s of None \<Rightarrow> [quote, quote] | Some [] \<Rightarrow> [quote, quote]
     | Some s \<Rightarrow> print_json_string_len (Some s))"

definition print_ua_guid :: "guid \<Rightarrow> string" where
  "print_ua_guid g = [quote] @ guid_text g @ [quote]"

definition print_nodeid_ident_raw :: "nodeid \<Rightarrow> string" where
  "print_nodeid_ident_raw n = (case nid n of
       Numeric i \<Rightarrow> ''i='' @ dec (unat i)
     | StringId s \<Rightarrow> ''s='' @ escape_quotes (bytes_of_string s)
     | GuidId g \<Rightarrow> ''g='' @ guid_text g
     | ByteStringId bs \<Rightarrow> ''b='' @ base64_of bs)"

definition print_expanded_nodeid :: "expanded_nodeid \<Rightarrow> string" where
  "print_expanded_nodeid en =
    [quote] @ (if serverIndex en \<noteq> 0 then ''svr='' @ dec (unat (serverIndex en)) @ '';'' else [])
    @ (if 0 < length (bytes_of_string (namespaceUri en))
       then ''nsu='' @ escape_quotes (bytes_of_string (namespaceUri en)) @ '';''
       else if namespaceIndex (en_nodeId en) \<noteq> 0
       then ''ns='' @ dec (unat (namespaceIndex (en_nodeId en))) @ '';'' else [])
    @ print_nodeid_ident_raw (en_nodeId en) @ [quote]"

definition print_status_obj :: "stack \<Rightarrow> u32 \<Rightarrow> string" where
  "print_status_obj st sc =
    jobj [(''name'', [quote] @ output_status_code_name st sc @ [quote]), (''code'', dec (unat sc)),
          (''severity'', [quote] @ output_severity st sc @ [quote])]"

text \<open>A member printed only when the value is there.\<close>

definition opt_member :: "string \<Rightarrow> ('a \<Rightarrow> string) \<Rightarrow> 'a option \<Rightarrow> (string \<times> string) list" where
  "opt_member k f x = (case x of None \<Rightarrow> [] | Some v \<Rightarrow> [(k, f v)])"

primrec print_diagnostic_info :: "stack \<Rightarrow> diaginfo \<Rightarrow> string" where
  "print_diagnostic_info st (DiagnosticInfo sid uri txt loc info code inner) =
    jobj (opt_member ''symbolicId'' (\<lambda>i. dec_int (sint i)) sid
      @ opt_member ''namespaceUri'' (\<lambda>i. dec_int (sint i)) uri
      @ opt_member ''localizedText'' (\<lambda>i. dec_int (sint i)) txt
      @ opt_member ''locale'' (\<lambda>i. dec_int (sint i)) loc
      @ opt_member ''additionalInfo'' print_ua_string_nn info
      @ opt_member ''innerStatusCode'' (print_status_obj st) code
      @ opt_member ''innerDiagnosticInfo'' id (map_option (print_diagnostic_info st) inner))"

definition print_extension_object :: "stack \<Rightarrow> extobj \<Rightarrow> string" where
  "print_extension_object st eo = (case eo of
     NoBody \<Rightarrow> ''null''
   | EncodedBytes typeId body \<Rightarrow>
       jobj [(''typeId'', print_ua_nodeid typeId), (''encoding'', [quote] @ ''binary'' @ [quote]),
             (''body'', [quote] @ base64_of body @ [quote])]
   | EncodedXml typeId body \<Rightarrow>
       jobj [(''typeId'', print_ua_nodeid typeId), (''encoding'', [quote] @ ''xml'' @ [quote]),
             (''body'', print_ua_string_nn (map_option (map char_of_byte) body))]
   | Decoded encodingId tn d \<Rightarrow>
       jobj [(''typeId'', print_ua_nodeid encodingId), (''encoding'', [quote] @ ''binary'' @ [quote]),
             (''dataTypeName'', print_json_string (Some (case tn of None \<Rightarrow> [] | Some n \<Rightarrow> n))),
             (''body'', [quote] @ base64_of (encodeBinary st d) @ [quote])])"

definition variant_dims :: "variant \<Rightarrow> u32 list" where
  "variant_dims v = (case v of Array t vs ds \<Rightarrow> ds | _ \<Rightarrow> [])"

definition variant_typeName :: "stack \<Rightarrow> string \<Rightarrow> variant \<Rightarrow> string" where
  "variant_typeName st null v = (case variant_type v of None \<Rightarrow> null
     | Some t \<Rightarrow> (case typeName st t of None \<Rightarrow> ''Unknown'' | Some n \<Rightarrow> n))"

fun print_scalar :: "stack \<Rightarrow> ua_val \<Rightarrow> string"
and output_ua_variant_value :: "stack \<Rightarrow> variant \<Rightarrow> string"
and output_ua_datavalue :: "stack \<Rightarrow> datavalue \<Rightarrow> string" where
  "print_scalar st (VBoolean b) = (if b then ''true'' else ''false'')"
| "print_scalar st (VSByte w) = dec_int (sint w)"
| "print_scalar st (VByte w) = dec (unat w)"
| "print_scalar st (VInt16 w) = dec_int (sint w)"
| "print_scalar st (VUInt16 w) = dec (unat w)"
| "print_scalar st (VInt32 w) = dec_int (sint w)"
| "print_scalar st (VUInt32 w) = dec (unat w)"
| "print_scalar st (VInt64 w) = [quote] @ dec_int (sint w) @ [quote]"
| "print_scalar st (VUInt64 w) = [quote] @ dec (unat w) @ [quote]"
| "print_scalar st (VFloat d) = (if isfinite d then fmt_g 6 d else ''null'')"
| "print_scalar st (VDouble d) = (if isfinite d then fmt_g 17 d else ''null'')"
| "print_scalar st (VString s) = print_ua_string s"
| "print_scalar st (VDateTime t) =
    (let buf = output_timestamp st t 64 in
     if buf \<noteq> [] then [quote] @ buf @ [quote] else ''null'')"
| "print_scalar st (VGuid g) = print_ua_guid g"
| "print_scalar st (VByteString bs) = (if bs = None then ''null'' else [quote] @ base64_of bs @ [quote])"
| "print_scalar st (VXmlElement s) = (if s = None then ''null'' else print_json_string_len s)"
| "print_scalar st (VNodeId n) = print_ua_nodeid n"
| "print_scalar st (VQualifiedName q) =
    jobj [(''ns'', dec (unat (qn_namespaceIndex q))), (''name'', print_ua_string_nn (qn_name q))]"
| "print_scalar st (VLocalizedText l) =
    jobj [(''locale'', print_ua_string_nn (lt_locale l)), (''text'', print_ua_string_nn (lt_text l))]"
| "print_scalar st (VStatusCode sc) = print_status_obj st sc"
| "print_scalar st (VExpandedNodeId n) = print_expanded_nodeid n"
| "print_scalar st (VExtensionObject eo) = print_extension_object st eo"
| "print_scalar st (VDataValue dv) = output_ua_datavalue st dv"
| "print_scalar st (VVariant v) =
    (if v = EmptyVariant then ''null'' else
     jobj [(''dataType'', print_json_string (Some (variant_typeName st ''Unknown'' v))),
           (''builtInType'', dec (ua_type_to_builtin_id (variant_type v))),
           (''value'', output_ua_variant_value st v)])"
| "print_scalar st (VDiagnosticInfo di) = print_diagnostic_info st di"
| "print_scalar st (VOther n d) = ''null''"
| "output_ua_variant_value st EmptyVariant = ''null''"
| "output_ua_variant_value st (Scalar v) = print_scalar st v"
| "output_ua_variant_value st (Array t vs ds) = jarr (map (print_scalar st) vs)"
| "output_ua_datavalue st (DataValue hv v status sts sps vts vps) =
    jobj ((if hv then
             [(''dataType'', print_json_string (Some (variant_typeName st ''Null'' v))),
              (''builtInType'', dec (ua_type_to_builtin_id (variant_type v)))]
             @ (if 0 < length (variant_dims v)
                then [(''arrayDimensions'', jarr (map (\<lambda>d. dec (unat d)) (variant_dims v)))] else [])
             @ [(''value'', output_ua_variant_value st v)]
           else [])
      @ opt_member ''statusCode'' (print_status_obj st) status
      @ opt_member ''sourceTimestamp'' (\<lambda>t. [quote] @ output_timestamp st t 64 @ [quote]) sts
      @ opt_member ''sourcePicoseconds'' (\<lambda>p. dec (unat p)) sps
      @ opt_member ''serverTimestamp'' (\<lambda>t. [quote] @ output_timestamp st t 64 @ [quote]) vts
      @ opt_member ''serverPicoseconds'' (\<lambda>p. dec (unat p)) vps)"

definition output_json_string_len :: "ua_string \<Rightarrow> nat \<Rightarrow> string" where
  "output_json_string_len data len =
    (if data = None \<and> len = 0 then [quote, quote] else print_json_string_len data)"

section \<open>The result envelope\<close>

text \<open>These functions print consecutive pieces of one object; each is the text of its piece.\<close>

definition output_begin :: "cstr \<Rightarrow> cstr \<Rightarrow> string" where
  "output_begin adapter op =
    ''{'' @ jkey ''schemaVersion'' @ '':'' @ jkey ''1.0'' @ '','' @ jkey ''adapter'' @ '':'' @ print_json_string adapter
    @ '','' @ jkey ''operation'' @ '':'' @ print_json_string op"

definition output_success :: "bool \<Rightarrow> string" where
  "output_success ok = '','' @ jkey ''success'' @ '':'' @ (if ok then ''true'' else ''false'')"

definition output_service_result :: "stack \<Rightarrow> u32 \<Rightarrow> string" where
  "output_service_result st code = '','' @ jkey ''serviceResult'' @ '':'' @ print_status_obj st code"

definition output_end :: string where
  "output_end = ''}'' @ [CHR 0x0A]"

definition output_open_results :: string where
  "output_open_results = '','' @ jkey ''results'' @ '':[''"

definition output_close_results :: string where
  "output_close_results = '']''"

definition output_null_error :: string where
  "output_null_error = '','' @ jkey ''error'' @ '':null''"

definition output_no_results :: string where
  "output_no_results = '','' @ jkey ''results'' @ '':[]'' @ '','' @ jkey ''error'' @ '':null''"

definition output_error :: "cstr \<Rightarrow> cstr \<Rightarrow> string" where
  "output_error category message =
    '','' @ jkey ''results'' @ '':[]'' @ '','' @ jkey ''error'' @ '':''
    @ jobj [(''category'', print_json_string category), (''message'', print_json_string message)]"

definition output_read_result_item ::
  "stack \<Rightarrow> cstr \<Rightarrow> u32 \<Rightarrow> cstr \<Rightarrow> int \<Rightarrow> variant option \<Rightarrow> u64 \<Rightarrow> string" where
  "output_read_result_item st nodeId sc dataType builtInType val sourceTs =
    jobj ([(''nodeId'', print_json_string nodeId), (''statusCode'', print_status_obj st sc),
           (''dataType'', print_json_string dataType), (''builtInType'', dec_int builtInType),
           (''value'', case val of Some v \<Rightarrow> output_ua_variant_value st v | None \<Rightarrow> ''null'')]
      @ (if sourceTs \<noteq> 0 \<and> output_timestamp st sourceTs 64 \<noteq> []
         then [(''sourceTimestamp'', [quote] @ output_timestamp st sourceTs 64 @ [quote])] else []))"

definition output_read_result ::
  "stack \<Rightarrow> cstr \<Rightarrow> u32 \<Rightarrow> cstr \<Rightarrow> int \<Rightarrow> variant option \<Rightarrow> u64 \<Rightarrow> string" where
  "output_read_result st nodeId sc dataType builtInType val sourceTs =
    output_open_results @ output_read_result_item st nodeId sc dataType builtInType val sourceTs
    @ output_close_results @ output_null_error"

definition output_write_result_item :: "stack \<Rightarrow> cstr \<Rightarrow> u32 \<Rightarrow> string" where
  "output_write_result_item st nodeId sc =
    jobj [(''nodeId'', print_json_string nodeId), (''statusCode'', print_status_obj st sc)]"

definition output_write_result :: "stack \<Rightarrow> cstr \<Rightarrow> u32 \<Rightarrow> string" where
  "output_write_result st nodeId sc =
    '','' @ jkey ''results'' @ '':['' @ output_write_result_item st nodeId sc @ '']''
    @ '','' @ jkey ''error'' @ '':null''"

record reference_description =
  rd_referenceTypeId :: nodeid
  rd_isForward :: bool
  rd_nodeId :: expanded_nodeid
  rd_browseName :: qname
  rd_displayName :: ltext
  rd_nodeClass :: node_class

definition browse_item :: "reference_description \<Rightarrow> string" where
  "browse_item ref =
    jobj [(''referenceTypeId'', print_ua_nodeid (rd_referenceTypeId ref)),
          (''isForward'', if rd_isForward ref then ''true'' else ''false''),
          (''nodeId'', print_ua_nodeid (en_nodeId (rd_nodeId ref))),
          (''browseName'', jobj [(''ns'', dec (unat (qn_namespaceIndex (rd_browseName ref)))),
             (''name'', print_ua_string_nn (qn_name (rd_browseName ref)))]),
          (''displayName'', jobj [(''locale'', print_ua_string_nn (lt_locale (rd_displayName ref))),
             (''text'', print_ua_string_nn (lt_text (rd_displayName ref)))]),
          (''nodeClass'', [quote] @ node_class_name (rd_nodeClass ref) @ [quote])]"

definition output_browse_results :: "reference_description list \<Rightarrow> string" where
  "output_browse_results refs =
    '','' @ jkey ''results'' @ '':'' @ jarr (map browse_item refs) @ '','' @ jkey ''error'' @ '':null''"

definition output_call_result :: "stack \<Rightarrow> cstr \<Rightarrow> cstr \<Rightarrow> u32 \<Rightarrow> variant list \<Rightarrow> string" where
  "output_call_result st objectNodeId methodNodeId sc outputs =
    jobj [(''objectNodeId'', print_json_string objectNodeId), (''methodNodeId'', print_json_string methodNodeId),
          (''statusCode'', print_status_obj st sc),
          (''outputArguments'', jarr (map (output_ua_variant_value st) outputs))]"

section \<open>Formatting into a buffer\<close>

text \<open>\<open>snprintf\<close>: the bytes before the NUL and the returned length of the full text.\<close>

definition snprintf :: "nat \<Rightarrow> string \<Rightarrow> string \<times> nat" where
  "snprintf bufLen s = (take (bufLen - 1) s, length s)"

text \<open>The loop over the bytes of a string: buf holds out bytes; it stops when fewer than nine
  bytes are left.\<close>

fun format_string_loop :: "nat \<Rightarrow> string \<Rightarrow> string \<Rightarrow> string" where
  "format_string_loop bufLen [] buf = buf"
| "format_string_loop bufLen (c # cs) buf =
    (if length buf + 8 < bufLen then format_string_loop bufLen cs (buf @ escape_char c) else buf)"

definition push_char :: "nat \<Rightarrow> char \<Rightarrow> string \<Rightarrow> string" where
  "push_char bufLen c buf = (if length buf < bufLen then buf @ [c] else buf)"

definition format_scalar_to_buf :: "ua_val \<Rightarrow> nat \<Rightarrow> string \<times> nat" where
  "format_scalar_to_buf v bufLen =
    (if bufLen = 0 then ([], 0) else
     case v of
       VBoolean b \<Rightarrow> snprintf bufLen (if b then ''true'' else ''false'')
     | VSByte w \<Rightarrow> snprintf bufLen (dec_int (sint w))
     | VByte w \<Rightarrow> snprintf bufLen (dec (unat w))
     | VInt16 w \<Rightarrow> snprintf bufLen (dec_int (sint w))
     | VUInt16 w \<Rightarrow> snprintf bufLen (dec (unat w))
     | VInt32 w \<Rightarrow> snprintf bufLen (dec_int (sint w))
     | VUInt32 w \<Rightarrow> snprintf bufLen (dec (unat w))
     | VInt64 w \<Rightarrow> snprintf bufLen ([quote] @ dec_int (sint w) @ [quote])
     | VUInt64 w \<Rightarrow> snprintf bufLen ([quote] @ dec (unat w) @ [quote])
     | VFloat d \<Rightarrow> snprintf bufLen (if isfinite d then fmt_g 6 d else ''null'')
     | VDouble d \<Rightarrow> snprintf bufLen (if isfinite d then fmt_g 17 d else ''null'')
     | VString None \<Rightarrow> snprintf bufLen ''null''
     | VString (Some s) \<Rightarrow>
         (let buf = push_char bufLen quote [];
              buf = format_string_loop bufLen s buf;
              buf = push_char bufLen quote buf
          in (buf, length buf))
     | _ \<Rightarrow> snprintf bufLen ''null'')"

text \<open>The loop over the elements; the first argument says whether this is not the first one.\<close>

fun format_elements :: "bool \<Rightarrow> nat \<Rightarrow> ua_val list \<Rightarrow> string \<Rightarrow> string" where
  "format_elements later bufLen [] buf = buf"
| "format_elements later bufLen (v # vs) buf =
    (if length buf + 32 < bufLen then
       let buf = (if later \<and> length buf + 1 < bufLen then buf @ '','' else buf);
           (tmp, r) = format_scalar_to_buf v 256;
           buf = (if 0 < r \<and> length buf + r < bufLen then buf @ take r tmp else buf)
       in format_elements True bufLen vs buf
     else buf)"

definition output_variant_to_buf :: "variant \<Rightarrow> nat \<Rightarrow> string \<times> nat" where
  "output_variant_to_buf var bufLen = (case var of
     EmptyVariant \<Rightarrow> snprintf bufLen ''null''
   | Scalar v \<Rightarrow> format_scalar_to_buf v bufLen
   | Array t vs ds \<Rightarrow>
       (let buf = push_char bufLen CHR ''['' [];
            buf = format_elements False bufLen vs buf;
            buf = push_char bufLen CHR '']'' buf
        in (buf, length buf)))"

section \<open>Printed strings are JSON strings and read back\<close>

lemma is_hex_digit_char: "d < 16 \<Longrightarrow> is_hex_digit (digit_char d)"
  by (simp add: is_hex_digit_def)

lemma hex_pad_set: "x \<in> set (hex_pad w n) \<Longrightarrow> \<exists>d<16. x = digit_char d"
proof -
  assume "x \<in> set (hex_pad w n)"
  then have "x = digit_char 0 \<or> (\<exists>d\<in>set (digits_of 16 n). x = digit_char d)"
    by (auto simp: hex_pad_def pad_zero_def digit_char_0)
  then show ?thesis using digits_of_less [of 16 _ n] by force
qed

lemma length_4: "length xs = 4 \<Longrightarrow> (\<And>a b c d. xs = [a, b, c, d] \<Longrightarrow> thesis) \<Longrightarrow> thesis"
  by (auto simp: numeral_eq_Suc length_Suc_conv)

lemma hex_pad_4: "n < 65536 \<Longrightarrow> \<exists>a b c d. hex_pad 4 n = map digit_char [a, b, c, d]
    \<and> a < 16 \<and> b < 16 \<and> c < 16 \<and> d < 16 \<and> undigits 16 [a, b, c, d] = n"
proof -
  assume n: "n < 65536"
  let ?ds = "replicate (4 - length (digits_of 16 n)) 0 @ digits_of 16 n"
  have eq: "hex_pad 4 n = map digit_char ?ds" by (simp add: hex_pad_def pad_zero_digits del: map_append)
  have "length ?ds = 4" using length_hex_pad [of n 4] n by (simp only: eq length_map) simp
  then obtain a b c d where abcd: "?ds = [a, b, c, d]"
    by (rule length_4)
  have "e < 16" if "e \<in> set ?ds" for e
    using that digits_of_less [of 16 e n] by auto
  then have "a < 16" "b < 16" "c < 16" "d < 16" by (simp_all add: abcd)
  moreover have "undigits 16 ?ds = n" by simp
  ultimately show ?thesis using eq by (metis abcd)
qed

lemma char_small: "(of_char c :: nat) < 65536"
  by (rule less_trans [OF nat_of_char_less_256]) simp

lemma json_chars_escape: "json_chars (escape_char c @ r) = json_chars r"
proof -
  obtain a b x d where h: "hex_pad 4 (of_char c) = map digit_char [a, b, x, d]" "a < 16" "b < 16" "x < 16" "d < 16"
    using hex_pad_4 [OF char_small [of c]] by blast
  show ?thesis by (simp add: escape_char_def h is_hex_digit_char)
qed

lemma json_unescape_escape: "json_unescape (escape_char c @ r) = map_option ((#) c) (json_unescape r)"
proof -
  obtain a b x d where h: "hex_pad 4 (of_char c) = map digit_char [a, b, x, d]" "a < 16" "b < 16" "x < 16" "d < 16"
    "undigits 16 [a, b, x, d] = of_char c"
    using hex_pad_4 [OF char_small [of c]] by blast
  have sc: "scan_digits 16 (map digit_char [a, b, x, d]) = ([a, b, x, d], [])"
    using scan_digits_map [of "[a, b, x, d]" 16 "[]"] h by auto
  show ?thesis
  proof (cases "c \<in> {quote, bslash, CHR 0x0A, CHR 0x0D, CHR 0x09}")
    case True
    then show ?thesis by (auto simp: escape_char_def)
  next
    case False
    then show ?thesis using sc h by (auto simp: escape_char_def simp del: scan_digits.simps)
  qed
qed

lemma json_chars_escapes: "json_chars (concat (map escape_char s) @ r) = json_chars r"
  by (induction s) (simp_all add: json_chars_escape)

lemma json_unescape_escapes: "json_unescape (concat (map escape_char s)) = Some s"
  using json_unescape_escape [of _ "[]"] by (induction s) (simp_all add: json_unescape_escape)

lemma json_value_print_string [json_intro]: "json_value (print_json_string s)"
proof (cases s)
  case None
  then show ?thesis by (simp add: print_json_string_def json_value.null [simplified])
next
  case (Some t)
  have "json_chars (concat (map escape_char t))" using json_chars_escapes [of t "[]"] by simp
  then have "json_string (print_json_string s)" by (auto simp: Some print_json_string_def json_string_def)
  then show ?thesis by (rule json_value.str)
qed
section \<open>Every printer produces JSON\<close>

text \<open>The contract of a printer, and what the printers built from it inherit.\<close>

locale json_printer =
  fixes pr :: "'a \<Rightarrow> string" and ok :: "'a \<Rightarrow> bool"
  assumes pr_json: "ok x \<Longrightarrow> json_value (pr x)"
begin

lemma list_json: "\<forall>x\<in>set xs. ok x \<Longrightarrow> json_value (jarr (map pr xs))"
  by (rule jarr_value) (auto intro: pr_json)

lemma member_json:
  "json_chars k \<Longrightarrow> \<forall>v. x = Some v \<longrightarrow> ok v \<Longrightarrow> \<forall>(k, v)\<in>set (opt_member k pr x). json_chars k \<and> json_value v"
  by (auto simp: opt_member_def intro: pr_json split: option.splits)

lemma or_null_json: "\<forall>v. x = Some v \<longrightarrow> ok v \<Longrightarrow> json_value (case x of None \<Rightarrow> ''null'' | Some v \<Rightarrow> pr v)"
  using json_value.null by (auto intro: pr_json split: option.splits)

end

text \<open>Text without quotes, backslashes and control characters stands for itself in a string.\<close>

definition plain_char :: "char \<Rightarrow> bool" where
  "plain_char c \<longleftrightarrow> c \<noteq> quote \<and> c \<noteq> bslash \<and> 32 \<le> (of_char c :: nat)"

definition plain_text :: "string \<Rightarrow> bool" where
  "plain_text s \<longleftrightarrow> (\<forall>c\<in>set s. plain_char c)"

lemma plain_text_simps [simp]: "plain_text []" "plain_text (c # s) \<longleftrightarrow> plain_char c \<and> plain_text s"
    "plain_text (s @ t) \<longleftrightarrow> plain_text s \<and> plain_text t"
  by (auto simp: plain_text_def)

lemma json_chars_plain: "plain_text s \<Longrightarrow> json_chars (s @ r) = json_chars r"
  by (induction s) (auto simp: plain_char_def)

lemma json_unescape_plain: "plain_text s \<Longrightarrow> json_unescape (s @ r) = map_option ((@) s) (json_unescape r)"
  by (cases "json_unescape r"; induction s) (auto simp: plain_char_def)

lemma json_value_plain: "plain_text s \<Longrightarrow> json_value (quote # s @ [quote])"
  using json_chars_plain [of s "[]"] by (auto intro!: json_value.str simp: json_string_def)

lemma plain_digit_char: "d < 16 \<Longrightarrow> plain_char (digit_char d)"
  by (auto simp: plain_char_def digit_char_def dest: arg_cong [where f = "of_char :: char \<Rightarrow> nat"])

lemma plain_dec [simp]: "plain_text (dec n)"
  using digits_of_less [of 10 _ n] plain_digit_char by (fastforce simp: plain_text_def dec_def)

lemma plain_dec_int [simp]: "plain_text (dec_int i)"
  by (simp add: dec_int_def plain_char_def)

lemma plain_hex_pad [simp]: "plain_text (hex_pad w n)"
  using hex_pad_set [of _ w n] plain_digit_char by (fastforce simp: plain_text_def)

lemma plain_zeros: "plain_text (replicate n CHR ''0'')"
  by (induction n) (simp_all add: plain_char_def)

lemma plain_dec_pad [simp]: "plain_text (dec_pad w n)"
  by (simp add: dec_pad_def pad_zero_def plain_zeros)

lemma plain_b64 [simp]: "plain_text (value_b64_encode bs)"
proof -
  have "list_all plain_char (CHR ''='' # b64_table)" by (simp add: b64_table_def plain_char_def)
  then have "\<forall>c\<in>b64_alphabet. plain_char c" by (auto simp: b64_alphabet_def list_all_iff)
  then show ?thesis using encode_alphabet [of bs] by (auto simp: plain_text_def)
qed

lemma plain_base64_of [simp]: "plain_text (base64_of bs)"
  by (cases bs) (simp_all add: base64_of_def print_base64_encode)

lemma plain_guid_text [simp]: "plain_text (guid_text g)"
  by (simp add: guid_text_def plain_char_def)

lemma plain_take: "plain_text s \<Longrightarrow> plain_text (take n s)"
  by (auto simp: plain_text_def dest: in_set_takeD)

lemma plain_timestamp [simp]: "plain_text (output_timestamp st t n)"
  by (auto simp: output_timestamp_def Let_def snprintf_buf_def plain_char_def intro!: plain_take)

text \<open>String identifiers and namespace URIs are only free of control characters; their quotes
  and backslashes are escaped.\<close>

definition printable :: "string \<Rightarrow> bool" where
  "printable s \<longleftrightarrow> (\<forall>c\<in>set s. 32 \<le> (of_char c :: nat))"

lemma escape_quotes_simps [simp]: "escape_quotes [] = []"
    "escape_quotes (c # s) = (if c = quote \<or> c = bslash then [bslash, c] else [c]) @ escape_quotes s"
  by (simp_all add: escape_quotes_def)

lemma json_chars_escape_quotes: "printable s \<Longrightarrow> json_chars (escape_quotes s @ r) = json_chars r"
  by (induction s) (auto simp: printable_def)

lemma json_unescape_escape_quotes:
  "printable s \<Longrightarrow> json_unescape (escape_quotes s @ r) = map_option ((@) s) (json_unescape r)"
  by (cases "json_unescape r"; induction s) (auto simp: printable_def)

fun clean_nid :: "nid \<Rightarrow> bool" where
  "clean_nid (StringId (Some s)) = printable s"
| "clean_nid _ = True"

definition clean_nodeid :: "nodeid \<Rightarrow> bool" where
  "clean_nodeid n = clean_nid (nid n)"

definition clean_expanded :: "expanded_nodeid \<Rightarrow> bool" where
  "clean_expanded n \<longleftrightarrow> printable (bytes_of_string (namespaceUri n)) \<and> clean_nodeid (en_nodeId n)"

fun clean_extobj :: "extobj \<Rightarrow> bool" where
  "clean_extobj NoBody = True"
| "clean_extobj (EncodedBytes t b) = clean_nodeid t"
| "clean_extobj (EncodedXml t b) = clean_nodeid t"
| "clean_extobj (Decoded t n d) = clean_nodeid t"

fun clean_val :: "ua_val \<Rightarrow> bool" and clean_variant :: "variant \<Rightarrow> bool" and clean_datavalue :: "datavalue \<Rightarrow> bool" where
  "clean_val (VFloat d) = wf_double d"
| "clean_val (VDouble d) = wf_double d"
| "clean_val (VNodeId n) = clean_nodeid n"
| "clean_val (VExpandedNodeId n) = clean_expanded n"
| "clean_val (VExtensionObject e) = clean_extobj e"
| "clean_val (VDataValue d) = clean_datavalue d"
| "clean_val (VVariant v) = clean_variant v"
| "clean_val _ = True"
| "clean_variant EmptyVariant = True"
| "clean_variant (Scalar v) = clean_val v"
| "clean_variant (Array t vs ds) = (\<forall>v\<in>set vs. clean_val v)"
| "clean_datavalue (DataValue hv v _ _ _ _ _) = clean_variant v"

text \<open>The names of status codes are identifiers.\<close>

definition names_ok :: "stack \<Rightarrow> bool" where
  "names_ok st \<longleftrightarrow> (\<forall>c n. StatusCode_name st c = Some n \<longrightarrow> plain_text n)"

lemma print_base64_Nil: "print_base64 bs [] = value_b64_encode bs"
  by (simp add: print_base64_encode)

lemma bytes_of_string_simps [simp]: "bytes_of_string None = []" "bytes_of_string (Some s) = s"
  by (simp_all add: bytes_of_string_def)

lemma clean_nid_string: "clean_nid (StringId s) = printable (bytes_of_string s)"
  by (cases s) (simp_all add: printable_def)

lemma nodeid_text_chars:
  "clean_nodeid n \<Longrightarrow> json_chars (print_nodeid_ident_raw n @ r) = json_chars r"
  by (cases "nid n")
    (simp_all add: print_nodeid_ident_raw_def clean_nodeid_def clean_nid_string json_chars_plain json_chars_escape_quotes
      del: clean_nid.simps)

text \<open>Both NodeId printers write the namespace prefix and the identifier.\<close>

definition ns_prefix :: "nodeid \<Rightarrow> string" where
  "ns_prefix n = (if namespaceIndex n = 0 \<and> (\<exists>i. nid n = Numeric i) then []
     else ''ns='' @ dec (unat (namespaceIndex n)) @ '';'')"

lemma print_ua_nodeid_parts: "print_ua_nodeid n = quote # ns_prefix n @ print_nodeid_ident_raw n @ [quote]"
  by (cases "nid n") (simp_all add: print_ua_nodeid_def print_nodeid_ident_raw_def ns_prefix_def)

lemma plain_ns_prefix [simp]: "plain_text (ns_prefix n)"
  by (simp add: ns_prefix_def plain_char_def)

lemma json_nodeid [json_intro]: "clean_nodeid n \<Longrightarrow> json_value (print_ua_nodeid n)"
  unfolding print_ua_nodeid_parts
  using nodeid_text_chars [of n "[]"] json_chars_plain [of "ns_prefix n" "print_nodeid_ident_raw n"]
  by (auto intro!: json_value.str simp: json_string_def)

definition expanded_prefix :: "expanded_nodeid \<Rightarrow> string" where
  "expanded_prefix en =
    (if 0 < length (bytes_of_string (namespaceUri en))
     then ''nsu='' @ escape_quotes (bytes_of_string (namespaceUri en)) @ '';''
     else if namespaceIndex (en_nodeId en) \<noteq> 0
     then ''ns='' @ dec (unat (namespaceIndex (en_nodeId en))) @ '';'' else [])"

definition svr_prefix :: "expanded_nodeid \<Rightarrow> string" where
  "svr_prefix en = (if serverIndex en \<noteq> 0 then ''svr='' @ dec (unat (serverIndex en)) @ '';'' else [])"

lemma print_expanded_parts: "print_expanded_nodeid en =
    quote # svr_prefix en @ expanded_prefix en @ print_nodeid_ident_raw (en_nodeId en) @ [quote]"
  by (simp add: print_expanded_nodeid_def svr_prefix_def expanded_prefix_def)

lemma plain_svr_prefix [simp]: "plain_text (svr_prefix en)"
  by (simp add: svr_prefix_def plain_char_def)

lemma expanded_prefix_chars: "clean_expanded en \<Longrightarrow> json_chars (expanded_prefix en @ r) = json_chars r"
  by (simp add: expanded_prefix_def clean_expanded_def json_chars_escape_quotes json_chars_plain)

lemma json_expanded [json_intro]: "clean_expanded n \<Longrightarrow> json_value (print_expanded_nodeid n)"
  unfolding print_expanded_parts
  using nodeid_text_chars [of "en_nodeId n" "[]"] expanded_prefix_chars [of n "print_nodeid_ident_raw (en_nodeId n)"]
    json_chars_plain [of "svr_prefix n" "expanded_prefix n @ print_nodeid_ident_raw (en_nodeId n)"]
  by (auto intro!: json_value.str simp: json_string_def clean_expanded_def)
lemma json_null [json_intro]: "json_value ''null''"
  by (rule json_value.null)

lemma json_bool [json_intro]: "json_value (if b then ''true'' else ''false'')"
  using json_value.true json_value.false by simp

lemma json_quoted [json_intro]: "plain_text s \<Longrightarrow> json_value ([quote] @ s @ [quote])"
  using json_value_plain by simp

lemma json_literal: "json_chars (butlast u) \<Longrightarrow> last u = quote \<Longrightarrow> u \<noteq> [] \<Longrightarrow> json_value (quote # u)"
  by (rule json_value.str) (metis append_butlast_last_id json_string_def)

lemma json_ua_string_len [json_intro]: "json_value (print_json_string_len s)"
  by (auto simp: print_json_string_len_def json_null json_value_print_string split: option.split)

lemma json_empty_string [json_intro]: "json_value [quote, quote]"
  using json_value_plain [of "[]"] by simp

lemma json_ua_string [json_intro]: "json_value (print_ua_string s)" "json_value (print_ua_string_nn s)"
  by (auto simp: print_ua_string_def print_ua_string_nn_def json_null json_empty_string json_ua_string_len
    split: option.split list.split)

lemma plain_status_name: "names_ok st \<Longrightarrow> plain_text (output_status_code_name st sc)"
proof -
  assume "names_ok st"
  then have "StatusCode_name st sc = Some n \<Longrightarrow> plain_text n" for n by (auto simp: names_ok_def)
  moreover have "plain_text ''Unknown''" by (simp add: plain_char_def)
  ultimately show ?thesis
    by (auto simp: output_status_code_name_def split: option.split list.split simp del: plain_text_simps)
qed

lemma plain_severity: "plain_text (output_severity st sc)"
  by (simp add: output_severity_def plain_char_def)

lemma json_status_obj [json_intro]: "names_ok st \<Longrightarrow> json_value (print_status_obj st sc)"
  unfolding print_status_obj_def
  by (rule jobj_value) (auto intro!: json_quoted [simplified] dec_value plain_status_name plain_severity)

lemma opt_member_json:
  "json_chars k \<Longrightarrow> (\<And>v. x = Some v \<Longrightarrow> json_value (f v)) \<Longrightarrow>
    \<forall>(k, v)\<in>set (opt_member k f x). json_chars k \<and> json_value v"
  by (auto simp: opt_member_def split: option.splits)

lemma members_append:
  "(\<forall>(k, v)\<in>set (xs @ ys). json_chars k \<and> json_value v) \<longleftrightarrow>
    (\<forall>(k, v)\<in>set xs. json_chars k \<and> json_value v) \<and> (\<forall>(k, v)\<in>set ys. json_chars k \<and> json_value v)"
  by auto

lemma json_diagnostic_info [json_intro]: "names_ok st \<Longrightarrow> json_value (print_diagnostic_info st di)"
proof (induction di)
  case (DiagnosticInfo sid uri tx loc inf cod inn)
  have "json_value (id s)" if "map_option (print_diagnostic_info st) inn = Some s" for s
    using that DiagnosticInfo by auto
  then show ?case
    unfolding print_diagnostic_info.simps
    by (intro jobj_value members_append [THEN iffD2] conjI opt_member_json)
      (auto intro: json_intro simp: DiagnosticInfo.prems)
qed

lemma json_extension_object [json_intro]: "clean_extobj e \<Longrightarrow> json_value (print_extension_object st e)"
  by (cases e)
    (auto simp: print_extension_object_def plain_char_def intro!: json_null jobj_value json_nodeid json_ua_string
      json_quoted [simplified] json_value_plain json_value_print_string json_literal)

lemma json_guid [json_intro]: "json_value (print_ua_guid g)"
  unfolding print_ua_guid_def by (rule json_quoted) simp

lemma json_dims: "json_value (jarr (map (\<lambda>d. dec (unat d)) ds))"
  by (rule jarr_value) (auto intro: dec_value)

lemma json_values [json_intro]:
  assumes "names_ok st"
  shows "clean_val v \<Longrightarrow> json_value (print_scalar st v)"
    and "clean_variant x \<Longrightarrow> json_value (output_ua_variant_value st x)"
    and "clean_datavalue d \<Longrightarrow> json_value (output_ua_datavalue st d)"
proof (induction v and x and d)
  case (VQualifiedName q)
  then show ?case by (auto intro!: jobj_value dec_value json_ua_string)
next
  case (VLocalizedText q)
  then show ?case by (auto intro!: jobj_value json_ua_string)
next
  case (VVariant x)
  then show ?case by (auto intro!: jobj_value dec_value json_null json_value_print_string)
next
  case (VDateTime t)
  then show ?case by (auto simp: Let_def intro!: json_null json_value_plain)
next
  case (Array t vs ds)
  then show ?case by (auto intro!: jarr_value)
next
  case (DataValue hv v status sts sps vts vps)
  then show ?case
    unfolding output_ua_datavalue.simps
    by (intro jobj_value members_append [THEN iffD2] conjI opt_member_json)
      (auto intro!: dec_value json_value_print_string json_dims json_status_obj json_value_plain simp: assms)
qed (auto intro!: json_intro fmt_g_value json_value_plain simp: assms simp del: append_Cons append_Nil split: if_splits)

interpretation scalar_json: json_printer "print_scalar st" "\<lambda>v. names_ok st \<and> clean_val v"
  by unfold_locales (blast intro: json_values)

interpretation variant_json: json_printer "output_ua_variant_value st" "\<lambda>v. names_ok st \<and> clean_variant v"
  by unfold_locales (blast intro: json_values)

interpretation nodeid_json: json_printer print_ua_nodeid clean_nodeid
  by unfold_locales (rule json_nodeid)

section \<open>The result envelope is one JSON object\<close>

text \<open>What follows the operation name: the members printed by the pieces, in order.\<close>

definition envelope :: "cstr \<Rightarrow> cstr \<Rightarrow> (string \<times> string) list \<Rightarrow> string" where
  "envelope adapter op ms = jobj ([(''schemaVersion'', jkey ''1.0''), (''adapter'', print_json_string adapter),
     (''operation'', print_json_string op)] @ ms) @ [CHR 0x0A]"

definition piece :: "string \<times> string \<Rightarrow> string" where
  "piece m = '','' @ jkey (fst m) @ '':'' @ snd m"

lemma join_comma_snoc: "xs \<noteq> [] \<Longrightarrow> join_comma (xs @ ys) = join_comma xs @ concat (map (\<lambda>y. '','' @ y) ys)"
proof (induction xs)
  case (Cons x xs)
  show ?case
  proof (cases "xs = []")
    case True
    have "join_comma (x # ys) = x @ concat (map (\<lambda>y. '','' @ y) ys)"
      by (induction ys arbitrary: x) (simp_all add: join_comma_Cons)
    with True show ?thesis by simp
  next
    case False
    with Cons show ?thesis by (simp add: join_comma_Cons)
  qed
qed simp

lemma envelope_pieces: "envelope adapter op ms = output_begin adapter op @ concat (map piece ms) @ output_end"
proof -
  have "map (\<lambda>y. '','' @ y) (map (\<lambda>(k, v). jkey k @ '':'' @ v) ms) = map piece ms"
    by (auto simp: piece_def)
  then show ?thesis
    unfolding envelope_def jobj_def map_append
    by (subst join_comma_snoc, simp, simp only:) (simp add: output_begin_def output_end_def)
qed

lemma json_envelope:
  assumes "\<forall>(k, v)\<in>set ms. json_chars k \<and> json_value v"
  shows "\<exists>d. envelope adapter op ms = d @ [CHR 0x0A] \<and> json_value d"
proof -
  have "json_value (jobj ([(''schemaVersion'', jkey ''1.0''), (''adapter'', print_json_string adapter),
     (''operation'', print_json_string op)] @ ms))"
    using assms by (intro jobj_value) (simp add: json_value_jkey json_value_print_string)
  then show ?thesis by (auto simp: envelope_def)
qed

lemmas piece_defs = piece_def output_success_def output_service_result_def output_error_def output_no_results_def
  output_read_result_def output_write_result_def output_open_results_def output_close_results_def
  output_null_error_def output_browse_results_def jarr_def

lemma json_read_item:
  "names_ok st \<Longrightarrow> \<forall>v. val = Some v \<longrightarrow> clean_variant v \<Longrightarrow>
    json_value (output_read_result_item st nodeId sc dataType bt val ts)"
  using variant_json.or_null_json [of val]
  by (auto simp: output_read_result_item_def intro!: jobj_value json_value_print_string json_status_obj dec_int_value
    json_value_plain)

lemma json_write_item: "names_ok st \<Longrightarrow> json_value (output_write_result_item st nodeId sc)"
  by (auto simp: output_write_result_item_def intro!: jobj_value json_value_print_string json_status_obj)

lemma json_call_result:
  "names_ok st \<Longrightarrow> \<forall>v\<in>set outs. clean_variant v \<Longrightarrow> json_value (output_call_result st oid mid sc outs)"
  using variant_json.list_json [of outs]
  by (auto simp: output_call_result_def intro!: jobj_value json_value_print_string json_status_obj)

definition clean_reference :: "reference_description \<Rightarrow> bool" where
  "clean_reference ref \<longleftrightarrow> clean_nodeid (rd_referenceTypeId ref) \<and> clean_nodeid (en_nodeId (rd_nodeId ref))"

lemma json_browse_item: "clean_reference ref \<Longrightarrow> json_value (browse_item ref)"
  by (cases "rd_nodeClass ref")
   (auto simp: browse_item_def clean_reference_def intro!: jobj_value json_nodeid json_bool dec_value json_ua_string
    json_literal json_value.true json_value.false)

interpretation browse_json: json_printer browse_item clean_reference
  by unfold_locales (rule json_browse_item)

text \<open>The part of the envelope after the service result: the results array and the error.\<close>

definition result_block :: "string \<Rightarrow> bool" where
  "result_block body \<longleftrightarrow> (\<exists>rs e. body = piece (''results'', jarr rs) @ piece (''error'', e)
     \<and> (\<forall>r\<in>set rs. json_value r) \<and> json_value e)"

lemma result_blockI:
  "body = piece (''results'', jarr rs) @ piece (''error'', e) \<Longrightarrow> \<forall>r\<in>set rs. json_value r \<Longrightarrow> json_value e
    \<Longrightarrow> result_block body"
  by (auto simp: result_block_def)

lemma result_block_error: "result_block (output_error cat msg)"
  by (rule result_blockI [of _ "[]" "jobj [(''category'', print_json_string cat), (''message'', print_json_string msg)]"])
    (auto simp: piece_defs intro!: jobj_value json_value_print_string)

lemma result_block_none: "result_block output_no_results"
  by (rule result_blockI [of _ "[]" "''null''", OF _ _ json_null]) (simp_all add: piece_defs)

lemma result_block_read:
  "names_ok st \<Longrightarrow> \<forall>v. val = Some v \<longrightarrow> clean_variant v \<Longrightarrow>
    result_block (output_read_result st nodeId sc dt bt val ts)"
  by (rule result_blockI [of _ "[output_read_result_item st nodeId sc dt bt val ts]" "''null''", OF _ _ json_null])
    (simp_all add: piece_defs json_read_item)

lemma result_block_write: "names_ok st \<Longrightarrow> result_block (output_write_result st nodeId sc)"
  by (rule result_blockI [of _ "[output_write_result_item st nodeId sc]" "''null''", OF _ _ json_null])
    (simp_all add: piece_defs json_write_item)

lemma result_block_browse: "\<forall>r\<in>set refs. clean_reference r \<Longrightarrow> result_block (output_browse_results refs)"
  by (rule result_blockI [of _ "map browse_item refs" "''null''", OF _ _ json_null])
    (auto simp: piece_defs json_browse_item)

lemmas result_blocks = result_block_error result_block_none result_block_read result_block_write result_block_browse

lemma json_envelope_block:
  assumes "names_ok st" and "result_block body"
  shows "\<exists>d. output_begin adapter op @ output_success ok @ output_service_result st code @ body @ output_end
      = d @ [CHR 0x0A] \<and> json_value d"
proof -
  obtain rs e where b: "body = piece (''results'', jarr rs) @ piece (''error'', e)"
    "\<forall>r\<in>set rs. json_value r" "json_value e" using assms(2) by (auto simp: result_block_def)
  let ?ms = "[(''success'', if ok then ''true'' else ''false''), (''serviceResult'', print_status_obj st code),
     (''results'', jarr rs), (''error'', e)]"
  have "output_success ok = piece (''success'', if ok then ''true'' else ''false'')"
      "output_service_result st code = piece (''serviceResult'', print_status_obj st code)"
    by (simp_all add: output_success_def output_service_result_def piece_def)
  then have "output_begin adapter op @ output_success ok @ output_service_result st code @ body @ output_end
      = envelope adapter op ?ms"
    by (simp add: envelope_pieces b(1))
  moreover have "\<forall>(k, v)\<in>set ?ms. json_chars k \<and> json_value v"
    using b assms(1) json_bool [of ok] by (simp add: json_status_obj jarr_value)
  ultimately show ?thesis using json_envelope [of ?ms] by simp
qed

text \<open>C19 What a read, write or browse command prints, on success or failure, is a single JSON object
  followed by a newline: the envelope is opened, the pieces are members of it, and it is
  closed. The names of status codes are taken to be identifiers, and string identifiers to be
  free of control characters.\<close>

theorem envelope_json:
  assumes "names_ok st"
    and "body \<in> {output_error cat msg, output_no_results, output_read_result st nodeId sc dt bt val ts,
      output_write_result st nodeId sc, output_browse_results refs}"
    and "\<forall>v. val = Some v \<longrightarrow> clean_variant v" and "\<forall>r\<in>set refs. clean_reference r"
  shows "\<exists>d. output_begin adapter op @ output_success ok @ output_service_result st code @ body @ output_end
      = d @ [CHR 0x0A] \<and> json_value d"
proof -
  have "result_block body" using assms result_blocks by blast
  then show ?thesis by (rule json_envelope_block [OF assms(1)])
qed

lemma names_ok_plain_stack: "names_ok plain_stack"
  by (simp add: names_ok_def plain_stack_def plain_char_def)

theorem envelope_json_witness:
  "\<exists>d. output_begin (Some ''open62541'') (Some ''read'') @ output_success True @ output_service_result plain_stack 0
     @ output_read_result plain_stack (Some ''ns=1;s=x'') 0 (Some ''Int32'') 6 (Some (Scalar (VInt32 5))) 0 @ output_end
     = d @ [CHR 0x0A] \<and> json_value d"
  using envelope_json [OF names_ok_plain_stack, of
      "output_read_result plain_stack (Some ''ns=1;s=x'') 0 (Some ''Int32'') 6 (Some (Scalar (VInt32 5))) 0"
      None None "Some ''ns=1;s=x''" 0 "Some ''Int32''" 6 "Some (Scalar (VInt32 5))" 0 "[]"]
  by simp
section \<open>Printed identifiers read back\<close>

lemma sscanf_hexes_step:
  "n < 16 ^ w \<Longrightarrow> 0 < w \<Longrightarrow> sscanf_hexes (Hex w # fs) (hex_pad w n @ r) = n # sscanf_hexes fs r"
  by (simp add: sscanf_x_hex_pad)

lemma length_8: "length xs = 8 \<Longrightarrow> (\<And>a b c d e f g h. xs = [a, b, c, d, e, f, g, h] \<Longrightarrow> thesis) \<Longrightarrow> thesis"
  by (auto simp: numeral_eq_Suc length_Suc_conv)

lemma unat_less: "unat (w :: u32) < 16 ^ 8" "unat (x :: u16) < 16 ^ 4" "unat (y :: byte) < 16 ^ 2"
  using unsigned_less [of w, where ?'a = nat] unsigned_less [of x, where ?'a = nat] unsigned_less [of y, where ?'a = nat]
  by simp_all

lemma sscanf_guid_text:
  assumes "wf_guid g"
  shows "sscanf_hexes guid_format (guid_text g) = unat (data1 g) # unat (data2 g) # unat (data3 g) # map unat (data4 g)"
proof -
  have "length (data4 g) = 8" using assms by (simp add: wf_guid_def)
  then obtain a b c d e f h i where d4: "data4 g = [a, b, c, d, e, f, h, i]" by (rule length_8)
  show ?thesis
    unfolding guid_format_def guid_text_def d4
    using sscanf_x_hex_pad [of "unat i" 2 "[]"] unat_less(3) [of i]
    by (simp add: sscanf_x_hex_pad unat_less [simplified])
qed

lemma parse_guid_text: "wf_guid g \<Longrightarrow> parse_guid (Some (guid_text g)) = Some g"
proof -
  assume g: "wf_guid g"
  have "length (guid_text g) = 36"
    by (simp add: guid_text_def length_hex_pad unat_less [simplified])
  with g sscanf_guid_text [OF g] show ?thesis by (simp add: parse_guid_def wf_guid_def comp_def)
qed

interpretation guid_codec: alphabet_codec guid_text "\<lambda>s. parse_guid (Some s)" wf_guid "{c. plain_char c}"
  using plain_guid_text by unfold_locales (auto simp: parse_guid_text plain_text_def simp del: plain_guid_text)

lemma no_digit_semi: "no_digit 10 (CHR '';'' # r)"
  by (simp add: digit_value_seps)

text \<open>The identifier text without escapes.\<close>

fun ident_text :: "nid \<Rightarrow> string" where
  "ident_text (Numeric i) = ''i='' @ dec (unat i)"
| "ident_text (StringId s) = ''s='' @ bytes_of_string s"
| "ident_text (GuidId g) = ''g='' @ guid_text g"
| "ident_text (ByteStringId b) = ''b='' @ base64_of b"

lemma unescape_ident:
  "clean_nodeid n \<Longrightarrow> json_unescape (print_nodeid_ident_raw n @ r) = map_option ((@) (ident_text (nid n))) (json_unescape r)"
  by (cases "nid n"; cases "json_unescape r")
    (simp_all add: print_nodeid_ident_raw_def clean_nodeid_def clean_nid_string json_unescape_plain json_unescape_escape_quotes
      del: clean_nid.simps)

text \<open>The identifiers a text can denote: no NULL strings, and well-formed Guids.\<close>

fun readable_nid :: "nid \<Rightarrow> bool" where
  "readable_nid (StringId s) = (s \<noteq> None)"
| "readable_nid (ByteStringId b) = (b \<noteq> None)"
| "readable_nid (GuidId g) = wf_guid g"
| "readable_nid (Numeric i) = True"

lemma parse_ident_text: "readable_nid i \<Longrightarrow> parse_nodeid_ident (ident_text i) ns = Some \<lparr>namespaceIndex = ns, nid = i\<rparr>"
proof (cases i)
  case (Numeric w)
  have "strtoul 10 (dec (unat w)) = (word_of_nat (unat w), [], False)"
    using strtoul_dec [of "unat w" "[]"] unat_less(1) [of w] by simp
  moreover have "(ucast (word_of_nat (unat w) :: u64) :: u32) = w"
    using strtoul_unat [of w] calculation by simp
  ultimately show ?thesis by (simp add: Numeric parse_nodeid_ident_def dec_ne [symmetric] del: of_nat_unat)
next
  case (ByteStringId b)
  moreover assume "readable_nid i"
  ultimately obtain bs where "b = Some bs" by auto
  then show ?thesis
    by (simp add: ByteStringId parse_nodeid_ident_def base64_of_def print_base64_encode decode_encode)
qed (auto simp: parse_nodeid_ident_def parse_guid_text)

lemma strtoul_ns: "strtoul 10 (dec (unat (w :: u16)) @ CHR '';'' # r) = (word_of_nat (unat w), CHR '';'' # r, False)"
  using strtoul_dec [of "unat w" "CHR '';'' # r", OF _ no_digit_semi] unat_less(2) [of w] by simp

lemma ucast_ns: "(ucast (word_of_nat (unat w) :: u64) :: u16) = w"
proof -
  have "strtoul 10 (dec (unat w)) = (word_of_nat (unat w), [], False)"
    using strtoul_dec [of "unat w" "[]"] unat_less(2) [of w] by simp
  then show ?thesis using strtoul_unat [of w] by simp
qed

lemma ident_text_not_ns: "\<not> starts_with ''ns='' (ident_text i)" "\<not> starts_with ''nsu='' (ident_text i)"
    "\<not> starts_with ''svr='' (ident_text i)"
proof -
  have "hd (ident_text i) \<in> set ''isgb'' \<and> hd (tl (ident_text i)) = CHR ''=''" by (cases i) simp_all
  then show "\<not> starts_with ''ns='' (ident_text i)" "\<not> starts_with ''nsu='' (ident_text i)"
    "\<not> starts_with ''svr='' (ident_text i)" by (auto simp: starts_with_iff)
qed

lemma parse_nodeid_text:
  assumes "readable_nid (nid n)"
  shows "parse_nodeid (ns_prefix n @ ident_text (nid n)) = Some n"
proof (cases "ns_prefix n = []")
  case True
  then have "namespaceIndex n = 0" by (auto simp: ns_prefix_def split: if_splits)
  then show ?thesis using True ident_text_not_ns parse_ident_text [OF assms, of 0]
    by (simp add: parse_nodeid_def)
next
  case False
  then have "ns_prefix n = ''ns='' @ dec (unat (namespaceIndex n)) @ '';''"
    by (auto simp: ns_prefix_def split: if_splits)
  then show ?thesis using parse_ident_text [OF assms, of "namespaceIndex n"]
    by (simp add: parse_nodeid_def strtoul_ns ucast_ns del: of_nat_unat)
qed

text \<open>The text between the quotes, read as a JSON string.\<close>

definition unquote :: "string \<Rightarrow> string option" where
  "unquote s = json_unescape (butlast (tl s))"

lemma unquote_nodeid: "clean_nodeid n \<Longrightarrow> unquote (print_ua_nodeid n) = Some (ns_prefix n @ ident_text (nid n))"
  using unescape_ident [of n "[]"] json_unescape_plain [of "ns_prefix n" "print_nodeid_ident_raw n"]
  by (simp add: unquote_def print_ua_nodeid_parts butlast_append)



definition readable_expanded :: "expanded_nodeid \<Rightarrow> bool" where
  "readable_expanded en \<longleftrightarrow> readable_nid (nid (en_nodeId en)) \<and>
    (case namespaceUri en of None \<Rightarrow> True
     | Some u \<Rightarrow> u \<noteq> [] \<and> CHR '';'' \<notin> set u \<and> namespaceIndex (en_nodeId en) = 0)"

definition uri_text :: "expanded_nodeid \<Rightarrow> string" where
  "uri_text en =
    (case namespaceUri en of Some u \<Rightarrow> ''nsu='' @ u @ '';''
     | None \<Rightarrow> if namespaceIndex (en_nodeId en) \<noteq> 0
               then ''ns='' @ dec (unat (namespaceIndex (en_nodeId en))) @ '';'' else [])"

lemma unquote_expanded:
  assumes "clean_expanded en" and "readable_expanded en"
  shows "unquote (print_expanded_nodeid en) = Some (svr_prefix en @ uri_text en @ ident_text (nid (en_nodeId en)))"
proof -
  have u: "json_unescape (expanded_prefix en @ r) = map_option ((@) (uri_text en)) (json_unescape r)" for r
    using assms by (cases "namespaceUri en"; cases "json_unescape r")
      (auto simp: expanded_prefix_def uri_text_def clean_expanded_def readable_expanded_def
        json_unescape_plain json_unescape_escape_quotes)
  show ?thesis
    using assms(1) unescape_ident [of "en_nodeId en" "[]"] u [of "print_nodeid_ident_raw (en_nodeId en)"]
      json_unescape_plain [of "svr_prefix en" "expanded_prefix en @ print_nodeid_ident_raw (en_nodeId en)"]
    by (simp add: unquote_def print_expanded_parts butlast_append clean_expanded_def)
qed

lemma parse_expanded_tail_text:
  assumes "readable_expanded en"
  shows "parse_expanded_tail svr (uri_text en @ ident_text (nid (en_nodeId en))) =
    Some (en\<lparr>serverIndex := svr\<rparr>)"
proof -
  have r: "readable_nid (nid (en_nodeId en))" using assms by (simp add: readable_expanded_def)
  show ?thesis
  proof (cases "namespaceUri en")
    case None
    have "\<not> starts_with ''nsu='' (uri_text en @ ident_text (nid (en_nodeId en)))"
      using ident_text_not_ns(2) by (auto simp: uri_text_def None starts_with_iff)
    moreover have "parse_nodeid (uri_text en @ ident_text (nid (en_nodeId en))) = Some (en_nodeId en)"
    proof (cases "namespaceIndex (en_nodeId en) = 0")
      case True
      then show ?thesis using ident_text_not_ns parse_ident_text [OF r, of 0]
        by (simp add: parse_nodeid_def uri_text_def None)
    next
      case False
      then show ?thesis using parse_ident_text [OF r, of "namespaceIndex (en_nodeId en)"]
        by (simp add: parse_nodeid_def uri_text_def None strtoul_ns ucast_ns del: of_nat_unat)
    qed
    ultimately show ?thesis by (simp add: parse_expanded_tail_def None)
  next
    case (Some u)
    with assms have "CHR '';'' \<notin> set u" "namespaceIndex (en_nodeId en) = 0" by (auto simp: readable_expanded_def)
    then show ?thesis using parse_ident_text [OF r, of 0]
      by (simp add: parse_expanded_tail_def uri_text_def Some)
  qed
qed

lemma strtoul_svr: "strtoul 10 (dec (unat (w :: u32)) @ CHR '';'' # r) = (word_of_nat (unat w), CHR '';'' # r, False)"
  using strtoul_dec [of "unat w" "CHR '';'' # r", OF _ no_digit_semi] unat_less(1) [of w] by simp

lemma ucast_svr: "(ucast (word_of_nat (unat w) :: u64) :: u32) = w"
proof -
  have "strtoul 10 (dec (unat w)) = (word_of_nat (unat w), [], False)"
    using strtoul_dec [of "unat w" "[]"] unat_less(1) [of w] by simp
  then show ?thesis using strtoul_unat [of w] by simp
qed

text \<open>ExpandedNodeId round trip: server index, namespace URI or namespace index, and identifier
  are read back from the printed text, provided the URI has no semicolon, and a NodeId that
  carries a URI has namespace index 0.\<close>

lemma expanded_nodeid_roundtrip:
  assumes "clean_expanded en" and "readable_expanded en"
  shows "\<exists>t. unquote (print_expanded_nodeid en) = Some t \<and> parse_expanded_nodeid t = Some en"
proof -
  let ?r = "uri_text en @ ident_text (nid (en_nodeId en))"
  have "\<not> starts_with ''svr='' ?r"
    using ident_text_not_ns(3) [of "nid (en_nodeId en)"]
    by (auto simp: uri_text_def starts_with_iff split: option.splits)
  then have "parse_expanded_nodeid (svr_prefix en @ ?r) = Some en"
    using parse_expanded_tail_text [OF assms(2), of "serverIndex en"]
    by (cases "serverIndex en = 0")
      (simp_all add: parse_expanded_nodeid_def svr_prefix_def strtoul_svr ucast_svr del: of_nat_unat)
  then show ?thesis using unquote_expanded [OF assms] by simp
qed

lemma expanded_nodeid_roundtrip_witness:
  "\<exists>t. unquote (print_expanded_nodeid \<lparr>serverIndex = 1, namespaceUri = Some ''urn:x'',
      en_nodeId = nodeid_numeric 0 7\<rparr>) = Some t
    \<and> parse_expanded_nodeid t = Some \<lparr>serverIndex = 1, namespaceUri = Some ''urn:x'', en_nodeId = nodeid_numeric 0 7\<rparr>"
  using expanded_nodeid_roundtrip [of "\<lparr>serverIndex = 1, namespaceUri = Some ''urn:x'', en_nodeId = nodeid_numeric 0 7\<rparr>"]
  by (simp add: clean_expanded_def readable_expanded_def nodeid_numeric_def clean_nodeid_def printable_def)
section \<open>Timestamps\<close>

definition year_nat :: "dt_struct \<Rightarrow> nat" where
  "year_nat d = unat (word_of_int (dts_year d) :: u32)"

text \<open>What the stack's calendar conversion promises: the fields of t, with t at most one
  millisecond after the time they denote.\<close>

definition calendar_ok :: "stack \<Rightarrow> u64 \<Rightarrow> bool" where
  "calendar_ok st t \<longleftrightarrow>
    (let d = DateTime_toStruct st t in
     0 \<le> dts_year d \<and> dts_year d < 10000 \<and> unat (dts_milliSec d) < 1000 \<and>
     (let ticks = date_ticks (nat (dts_year d)) (unat (dts_month d)) (unat (dts_day d)) (unat (dts_hour d))
        (unat (dts_min d)) (unat (dts_sec d)) (int (unat (dts_milliSec d)) * 10000)
      in ticks \<le> sint t \<and> sint t < ticks + 10000))"

lemma length_dec: "n < 10 ^ k \<Longrightarrow> 0 < k \<Longrightarrow> length (dec n) \<le> k"
  using length_digits_of [of 10 n k] by (simp add: dec_def)

lemma length_dec_pad: "n < 10 ^ k \<Longrightarrow> 0 < k \<Longrightarrow> w \<le> k \<Longrightarrow> length (dec_pad w n) \<le> k"
  using length_dec [of n k] by (simp add: dec_pad_def pad_zero_def)

lemma u16_small: "unat (x :: u16) < 10 ^ 5" and u32_small: "unat (y :: u32) < 10 ^ 10"
proof -
  show "unat x < 10 ^ 5" using unat_less(2) [of x] by simp
  show "unat y < 10 ^ 10" using unat_less(1) [of y] by simp
qed

definition timestamp_text :: "dt_struct \<Rightarrow> string" where
  "timestamp_text d = date_text (year_nat d) (unat (dts_month d)) (unat (dts_day d)) (unat (dts_hour d))
     (unat (dts_min d)) (unat (dts_sec d)) (CHR ''.'' # dec_pad 3 (unat (dts_milliSec d)) @ ''Z'')"

lemma length_timestamp_text: "length (timestamp_text d) \<le> 47"
proof -
  have y: "length (dec_pad 4 (year_nat d)) \<le> 10"
    unfolding year_nat_def by (rule length_dec_pad [OF u32_small]) auto
  have w: "length (dec_pad k (unat x)) \<le> 5" if "k \<le> 5" for k and x :: u16
    by (rule length_dec_pad [OF u16_small]) (use that in auto)
  show ?thesis
    using y w [of 2 "dts_month d"] w [of 2 "dts_day d"] w [of 2 "dts_hour d"] w [of 2 "dts_min d"]
      w [of 2 "dts_sec d"] w [of 3 "dts_milliSec d"]
    by (simp add: timestamp_text_def date_text_def)
qed

text \<open>The 64-byte buffers of the callers are never too small.\<close>

lemma output_timestamp_text:
  "t \<noteq> 0 \<Longrightarrow> 48 \<le> n \<Longrightarrow> output_timestamp st t n = timestamp_text (DateTime_toStruct st t)"
  using length_timestamp_text [of "DateTime_toStruct st t"]
  by (simp add: output_timestamp_def Let_def snprintf_buf_def timestamp_text_def date_text_def year_nat_def)

lemma dec_pad_3: "n < 1000 \<Longrightarrow> \<exists>ds. dec_pad 3 n = map digit_char ds \<and> (\<forall>d\<in>set ds. d < 10) \<and> frac_ticks ds = int n * 10000"
proof -
  assume n: "n < 1000"
  let ?ds = "replicate (3 - length (digits_of 10 n)) 0 @ digits_of 10 n"
  have eq: "dec_pad 3 n = map digit_char ?ds"
    by (simp add: dec_pad_def dec_def pad_zero_digits del: map_append)
  have l: "length (digits_of 10 n) \<le> 3" using length_digits_of [of 10 n 3] n by simp
  have "\<forall>d\<in>set ?ds. d < 10" using digits_of_less [of 10 _ n] by auto
  moreover have "frac_ticks ?ds = int n * 10000"
  proof -
    have "length ?ds = 3" using l by simp
    then have "take 7 ?ds = ?ds" "7 - length ?ds = 4" by simp_all
    moreover have "undigits 10 ?ds = n" by simp
    ultimately show ?thesis by (simp only: frac_ticks_def) simp
  qed
  ultimately show ?thesis using eq by blast
qed

text \<open>Timestamp round trip: a printed timestamp is an RFC 3339 text that the DateTime parser maps
  back to the same time, truncated to the millisecond.\<close>

lemma timestamp_roundtrip:
  assumes "t \<noteq> 0" and "calendar_ok st t"
  shows "\<exists>rest. 0 \<le> rest \<and> rest < 10000
    \<and> value_parse_datetime (Some (output_timestamp st t 64)) = Some (word_of_int (sint t - rest))"
proof -
  define d where "d = DateTime_toStruct st t"
  from assms(2) have c: "0 \<le> dts_year d" "dts_year d < 10000" "unat (dts_milliSec d) < 1000"
    by (simp_all add: calendar_ok_def Let_def d_def)
  have y: "year_nat d = nat (dts_year d)"
  proof -
    have "dts_year d < 2 ^ 32" using c(2) by simp
    then have "take_bit 32 (dts_year d) = dts_year d" by (rule take_bit_int_eq_self [OF c(1)])
    then have "uint (word_of_int (dts_year d) :: u32) = dts_year d" by (simp add: uint_word_of_int_eq)
    then show ?thesis by (simp only: year_nat_def unat_eq_nat_uint)
  qed
  obtain ds where ds: "dec_pad 3 (unat (dts_milliSec d)) = map digit_char ds" "\<forall>x\<in>set ds. x < 10"
      "frac_ticks ds = int (unat (dts_milliSec d)) * 10000"
    using dec_pad_3 [OF c(3)] by blast
  define ticks where "ticks = date_ticks (nat (dts_year d)) (unat (dts_month d)) (unat (dts_day d)) (unat (dts_hour d))
        (unat (dts_min d)) (unat (dts_sec d)) (frac_ticks ds)"
  have small: "unat (x :: u16) < 2 ^ 31" for x using unat_less(2) [of x] by simp
  have "value_parse_datetime (Some (timestamp_text d)) = Some (word_of_int ticks)"
    unfolding timestamp_text_def ds(1) ticks_def y
    by (rule date_lit_parses(2)) (use c ds(2) small in auto)
  moreover have "ticks \<le> sint t" "sint t < ticks + 10000"
    using assms(2) by (simp_all add: calendar_ok_def Let_def d_def [symmetric] ticks_def ds(3))
  ultimately show ?thesis
    by (intro exI [of _ "sint t - ticks"]) (simp add: output_timestamp_text [OF assms(1)] d_def [symmetric])
qed

text \<open>The stack of the examples has the fields of 1601-01-01 for every time.\<close>

lemma calendar_ok_plain: "calendar_ok plain_stack 1"
  by (simp add: calendar_ok_def plain_stack_def Let_def date_ticks_def timegm_def days_since_epoch_def
    days_before_month_def leaps_before_def UA_DATETIME_SEC_def)

lemma timestamp_roundtrip_witness:
  "\<exists>rest. 0 \<le> rest \<and> rest < 10000
    \<and> value_parse_datetime (Some (output_timestamp plain_stack 1 64)) = Some (word_of_int (sint (1 :: u64) - rest))"
  using timestamp_roundtrip [OF _ calendar_ok_plain] by simp
section \<open>Formatting into a buffer stays inside it\<close>

lemma length_escape_char: "length (escape_char c) \<le> 6"
proof -
  have "length (hex_pad 4 (of_char c)) = 4" using length_hex_pad [of "of_char c" 4] char_small [of c] by simp
  then show ?thesis by (simp add: escape_char_def)
qed

lemma length_format_string_loop:
  "length buf + 2 \<le> n \<Longrightarrow> length (format_string_loop n s buf) + 2 \<le> n"
proof (induction s arbitrary: buf)
  case (Cons c s)
  show ?case
  proof (cases "length buf + 8 < n")
    case True
    then have "length (buf @ escape_char c) + 2 \<le> n" using length_escape_char [of c] by simp
    with True Cons.IH show ?thesis by simp
  qed (use Cons.prems in simp)
qed simp

lemma format_string_loop_full: "\<not> length buf + 8 < n \<Longrightarrow> format_string_loop n s buf = buf"
  by (cases s) auto

lemma length_push_char: "length buf \<le> n \<Longrightarrow> length (push_char n c buf) \<le> n"
    "length (push_char n c buf) \<le> Suc (length buf)"
  by (simp_all add: push_char_def)

lemma string_buf_length:
  "3 \<le> n \<Longrightarrow> length (push_char n quote (format_string_loop n s (push_char n quote []))) < n"
proof -
  assume n: "3 \<le> n"
  then have "length (format_string_loop n s (push_char n quote [])) + 2 \<le> n"
    by (intro length_format_string_loop) (simp add: push_char_def)
  then show ?thesis using length_push_char(2) [of n quote "format_string_loop n s (push_char n quote [])"] by simp
qed

lemma format_scalar_length: "3 \<le> n \<Longrightarrow> length (fst (format_scalar_to_buf v n)) < n"
proof -
  assume n: "3 \<le> n"
  have s: "length (fst (snprintf n t)) < n" for t using n by (simp add: snprintf_def)
  show ?thesis
  proof (cases v)
    case (VString x)
    then show ?thesis using n s string_buf_length [OF n] by (cases x) (simp_all add: format_scalar_to_buf_def Let_def)
  qed (use n s in \<open>simp_all add: format_scalar_to_buf_def\<close>)
qed

lemma format_elements_length:
  "length buf \<le> n \<Longrightarrow> length (format_elements later n vs buf) \<le> n"
proof (induction vs arbitrary: later buf)
  case (Cons v vs)
  obtain tmp r where f: "format_scalar_to_buf v 256 = (tmp, r)" by fastforce
  show ?case
    using Cons.prems by (auto simp: f Let_def intro!: Cons.IH)
qed simp

lemma length_dec_int_word:
  fixes w :: "'a :: len word"
  assumes "LENGTH('a) \<le> 64"
  shows "length (dec_int (sint w)) \<le> 21" "length (dec (unat w)) \<le> 20"
proof -
  have p: "(2 :: int) ^ (LENGTH('a) - 1) \<le> 2 ^ 64" "(2 :: nat) ^ LENGTH('a) \<le> 2 ^ 64"
    using assms by (intro power_increasing; simp)+
  have "nat \<bar>sint w\<bar> < 10 ^ 20"
  proof -
    have "\<bar>sint w\<bar> \<le> 2 ^ 64" using sint_greater_eq [of w] sint_less [of w] p(1)
      unfolding One_nat_def abs_le_iff by linarith
    then show ?thesis by simp
  qed
  then show "length (dec_int (sint w)) \<le> 21"
    using length_dec [of "nat \<bar>sint w\<bar>" 20] by (simp add: dec_int_def abs_if split: if_splits)
  have "unat w < 2 ^ 64" by (rule less_le_trans [OF unsigned_less p(2)])
  then have "unat w < 10 ^ 20" by simp
  then show "length (dec (unat w)) \<le> 20" using length_dec [of "unat w" 20] by simp
qed

fun is_float :: "ua_val \<Rightarrow> bool" where
  "is_float (VFloat d) = True"
| "is_float (VDouble d) = True"
| "is_float _ = False"

lemma format_scalar_exact:
  assumes "\<not> is_float v"
  shows "snd (format_scalar_to_buf v 256) = length (fst (format_scalar_to_buf v 256))"
proof (cases v)
  case (VString x)
  then show ?thesis by (cases x) (simp_all add: format_scalar_to_buf_def snprintf_def Let_def)
next
  case (VInt64 w)
  then show ?thesis using length_dec_int_word(1) [of w] by (simp add: format_scalar_to_buf_def snprintf_def)
next
  case (VUInt64 w)
  then show ?thesis using length_dec_int_word(2) [of w] by (simp add: format_scalar_to_buf_def snprintf_def)
next
  case (VInt32 w)
  then show ?thesis using length_dec_int_word(1) [of w] by (simp add: format_scalar_to_buf_def snprintf_def)
next
  case (VUInt32 w)
  then show ?thesis using length_dec_int_word(2) [of w] by (simp add: format_scalar_to_buf_def snprintf_def)
next
  case (VInt16 w)
  then show ?thesis using length_dec_int_word(1) [of w] by (simp add: format_scalar_to_buf_def snprintf_def)
next
  case (VUInt16 w)
  then show ?thesis using length_dec_int_word(2) [of w] by (simp add: format_scalar_to_buf_def snprintf_def)
next
  case (VSByte w)
  then show ?thesis using length_dec_int_word(1) [of w] by (simp add: format_scalar_to_buf_def snprintf_def)
next
  case (VByte w)
  then show ?thesis using length_dec_int_word(2) [of w] by (simp add: format_scalar_to_buf_def snprintf_def)
qed (use assms in \<open>simp_all add: format_scalar_to_buf_def snprintf_def\<close>)

text \<open>C26 Formatting a Variant into a caller's buffer never writes outside it, whatever the value and
  the size of the buffer (from three bytes on, as all callers have), and a scalar leaves room
  for the terminating NUL. When an array element is copied from the 256-byte scratch buffer,
  the number of bytes copied is what was written there (floating point elements, whose text
  length is not bounded here, apart).\<close>

theorem variant_to_buf_bounds:
  assumes "3 \<le> n"
  shows "length (fst (output_variant_to_buf var n)) \<le> n
    \<and> length (fst (output_variant_to_buf (Scalar v) n)) < n
    \<and> (is_float v \<or> snd (format_scalar_to_buf v 256) = length (fst (format_scalar_to_buf v 256))
        \<and> snd (format_scalar_to_buf v 256) < 256)"
proof -
  have "length (push_char n CHR ''['' []) \<le> n" using assms by (simp add: push_char_def)
  then have arr: "length (push_char n CHR '']'' (format_elements False n vs (push_char n CHR ''['' []))) \<le> n" for vs
    by (rule length_push_char(1) [OF format_elements_length])
  have "length (fst (output_variant_to_buf var n)) \<le> n"
    using arr format_scalar_length [OF assms] assms
    by (cases var) (auto simp: output_variant_to_buf_def snprintf_def Let_def less_imp_le)
  moreover have "length (fst (output_variant_to_buf (Scalar v) n)) < n"
    using format_scalar_length [OF assms] by (simp add: output_variant_to_buf_def)
  ultimately show ?thesis
    using format_scalar_exact [of v] format_scalar_length [of 256 v] by auto
qed

theorem variant_to_buf_bounds_witness:
  "length (fst (output_variant_to_buf (Array TInt32 [VInt32 1, VInt32 2] []) 512)) \<le> 512"
  using variant_to_buf_bounds [of 512 "Array TInt32 [VInt32 1, VInt32 2] []"] by simp

text \<open>An array of strings can fill the buffer to the last byte, leaving no room for the NUL, and
  an element that does not fit any more is dropped after its comma was written.\<close>

lemma format_string_loop_plain:
  "plain_text s \<Longrightarrow> length buf + length s + 8 \<le> n \<Longrightarrow> format_string_loop n s buf = buf @ s"
proof (induction s arbitrary: buf)
  case (Cons c s)
  moreover have "escape_char c = [c]" using Cons.prems(1) by (auto simp: escape_char_def plain_char_def)
  ultimately show ?case by simp
qed simp

lemma format_plain_string:
  "plain_text s \<Longrightarrow> length s \<le> 247 \<Longrightarrow>
    format_scalar_to_buf (VString (Some s)) 256 = (quote # s @ [quote], length s + 2)"
  using format_string_loop_plain [of s "[quote]" 256]
  by (simp add: format_scalar_to_buf_def push_char_def Let_def)

lemma format_plain_elements:
  "plain_text s \<Longrightarrow> length s \<le> 247 \<Longrightarrow> length buf + 32 < n \<Longrightarrow>
    format_elements later n (VString (Some s) # vs) buf =
      (let buf' = (if later then buf @ '','' else buf)
       in format_elements True n vs (if length buf' + length s + 2 < n then buf' @ quote # s @ [quote] else buf'))"
  by (simp add: format_plain_string Let_def)

lemma plain_replicate_a: "plain_text (replicate k CHR ''a'')"
  by (induction k) (simp_all add: plain_char_def)

lemma variant_to_buf_unterminated:
  "length (fst (output_variant_to_buf (Array TString
     [VString (Some (replicate 198 CHR ''a'')), VString (Some (replicate 198 CHR ''a'')),
      VString (Some (replicate 106 CHR ''a''))] []) 512)) = 512"
  by (simp add: output_variant_to_buf_def push_char_def format_plain_elements plain_replicate_a
    Let_def del: format_elements.simps(2))

lemma variant_to_buf_dangling_comma:
  "\<exists>t. fst (output_variant_to_buf (Array TString
     [VString (Some (replicate 240 CHR ''a'')), VString (Some (replicate 218 CHR ''a'')),
      VString (Some (replicate 100 CHR ''a''))] []) 512) = t @ '',]''"
  by (simp add: output_variant_to_buf_def push_char_def format_plain_elements plain_replicate_a
    Let_def del: format_elements.simps(2))

section \<open>Values and strings\<close>

text \<open>C20 Every built-in value, with arrays, matrices, DataValues, nested Variants, extension
  objects and diagnostic infos, prints as one JSON value; what is required of the value is that
  its string identifiers and namespace URIs are free of control characters.\<close>

theorem values_print_json:
  assumes "names_ok st"
  shows "(clean_variant v \<longrightarrow> json_value (output_ua_variant_value st v)) \<and>
    (clean_datavalue d \<longrightarrow> json_value (output_ua_datavalue st d))"
  using json_values [OF assms] by blast

theorem values_print_json_witness:
  "json_value (output_ua_variant_value plain_stack (Array TNodeId [VNodeId (nodeid_numeric 1 5)] []))
   \<and> json_value (output_ua_datavalue plain_stack (DataValue True (Scalar (VBoolean True)) (Some 0) None None None None))"
  using values_print_json [OF names_ok_plain_stack, of "Array TNodeId [VNodeId (nodeid_numeric 1 5)] []"
      "DataValue True (Scalar (VBoolean True)) (Some 0) None None None None"]
  by (simp add: clean_nodeid_def nodeid_numeric_def)

text \<open>A string identifier with a control character is printed raw: the text is no JSON string.\<close>

lemma nodeid_control_char_not_json:
  "\<not> json_string (print_ua_nodeid \<lparr>namespaceIndex = 1, nid = StringId (Some [CHR 0x0A])\<rparr>)"
  by (auto simp: json_string_def print_ua_nodeid_def dec_def digits_of.simps digit_char_def append_eq_Cons_conv
    Cons_eq_append_conv)

text \<open>A string value is printed as a JSON string that denotes exactly the bytes before its first
  NUL; a string without NUL bytes is therefore transmitted faithfully, whatever quotes,
  backslashes or control characters it holds.\<close>

lemma string_print_faithful:
  "unquote (print_json_string (Some s)) = Some s
   \<and> (CHR 0x00 \<in> set s \<or> unquote (print_ua_string (Some s)) = Some s)
   \<and> unquote (print_ua_string_nn (Some s)) = Some (takeWhile (\<lambda>c. c \<noteq> CHR 0x00) s)"
proof -
  have p: "unquote (print_json_string (Some s)) = Some s" for s
    using json_unescape_escapes by (simp add: unquote_def print_json_string_def)
  have e: "unquote [quote, quote] = Some []" by (simp add: unquote_def)
  have "takeWhile (\<lambda>c. c \<noteq> CHR 0x00) s = s" if "CHR 0x00 \<notin> set s" using that by (auto simp: takeWhile_eq_all_conv)
  then show ?thesis using p e
    by (cases s) (auto simp: print_ua_string_def print_ua_string_nn_def print_json_string_len_def until_nul_def)
qed
end
