(* ===== verification/Server_Values.thy ===== *)
theory Server_Values
  imports Values Fixture Output
begin

text \<open>
  server.c: NodeIds of the fixture, the tables from names to reference types and data types, and
  the initial value of a Variable (\<open>build_variant\<close>). The server's namespace table belongs to the
  stack: \<open>UA_Server_addNamespace\<close> is the parameter \<open>addns\<close>, a function from the state of the
  server and a URI to the index and the new state. \<open>mktime\<close> reads local time: the offset from
  UTC is a parameter.
\<close>

section \<open>NodeIds\<close>

definition server_parse_ident :: "string \<Rightarrow> u16 \<Rightarrow> nodeid" where
  "server_parse_ident semi ns =
    (if starts_with ''s='' semi then nodeid_string ns (drop 2 semi)
     else if starts_with ''i='' semi then nodeid_numeric ns (word_of_int (atoi (drop 2 semi)))
     else nodeid_null)"

definition server_parse_nodeid :: "cstr \<Rightarrow> u16 \<Rightarrow> nodeid" where
  "server_parse_nodeid s nsuIndex = (case s of None \<Rightarrow> nodeid_null
     | Some s \<Rightarrow>
        if starts_with ''nsu='' s then
          (case strchr CHR '';'' s of None \<Rightarrow> nodeid_null
           | Some (_, semi) \<Rightarrow> server_parse_ident (drop 1 semi) nsuIndex)
        else if starts_with ''ns='' s then
          (case strchr CHR '';'' s of None \<Rightarrow> nodeid_null
           | Some (_, semi) \<Rightarrow> server_parse_ident (drop 1 semi) (word_of_int (atoi (drop 3 s))))
        else if starts_with ''i='' s then nodeid_numeric 0 (word_of_int (atoi (drop 2 s)))
        else nodeid_null)"

type_synonym 's add_namespace = "'s \<Rightarrow> string \<Rightarrow> u16 \<times> 's"

definition resolve_nodeid :: "'s add_namespace \<Rightarrow> 's \<Rightarrow> cstr \<Rightarrow> nodeid \<times> 's" where
  "resolve_nodeid addns srv s = (case s of None \<Rightarrow> (nodeid_null, srv)
     | Some t \<Rightarrow>
        if starts_with ''nsu='' t then
          (case strchr CHR '';'' (drop 4 t) of None \<Rightarrow> (nodeid_null, srv)
           | Some (uri, _) \<Rightarrow> (case addns srv uri of (idx, srv') \<Rightarrow> (server_parse_nodeid s idx, srv')))
        else (server_parse_nodeid s 0, srv))"

section \<open>Names of reference types and data types\<close>

definition UA_NS0ID_ORGANIZES :: u32 where "UA_NS0ID_ORGANIZES = 35"

definition ref_type_id :: "cstr \<Rightarrow> nodeid" where
  "ref_type_id name = nodeid_numeric 0 (case name of None \<Rightarrow> UA_NS0ID_ORGANIZES
     | Some n \<Rightarrow>
        if n = ''Organizes'' then UA_NS0ID_ORGANIZES
        else if n = ''HasComponent'' then 47
        else if n = ''HasProperty'' then 46
        else if n = ''HasSubtype'' then 45
        else if n = ''HasTypeDefinition'' then 40
        else if n = ''HasModellingRule'' then 37
        else if n = ''HasEncoding'' then 38
        else if n = ''Aggregates'' then 44
        else UA_NS0ID_ORGANIZES)"

definition data_type_for_name :: "cstr \<Rightarrow> ua_type" where
  "data_type_for_name name = (case name of None \<Rightarrow> TVariant
     | Some n \<Rightarrow>
        if n = ''Boolean'' then TBoolean
        else if n = ''SByte'' then TSByte
        else if n = ''Byte'' then TByte
        else if n = ''Int16'' then TInt16
        else if n = ''UInt16'' then TUInt16
        else if n = ''Int32'' then TInt32
        else if n = ''UInt32'' then TUInt32
        else if n = ''Int64'' then TInt64
        else if n = ''UInt64'' then TUInt64
        else if n = ''Float'' then TFloat
        else if n = ''Double'' then TDouble
        else if n = ''String'' then TString
        else if n = ''DateTime'' then TDateTime
        else if n = ''Guid'' then TGuid
        else if n = ''ByteString'' then TByteString
        else if n = ''XmlElement'' then TXmlElement
        else if n = ''NodeId'' then TNodeId
        else if n = ''ExpandedNodeId'' then TExpandedNodeId
        else if n = ''QualifiedName'' then TQualifiedName
        else if n = ''LocalizedText'' then TLocalizedText
        else if n = ''StatusCode'' then TStatusCode
        else TVariant)"

text \<open>\<open>dt->typeId.identifier.numeric\<close> of the built-in types: the numbers OPC UA Part 6 gives them.\<close>

definition builtin_typeId :: "ua_type \<Rightarrow> u32" where
  "builtin_typeId t = word_of_nat (ua_type_to_builtin_id (Some t))"

definition data_type_nodeid :: "cstr \<Rightarrow> nodeid" where
  "data_type_nodeid name = nodeid_numeric 0 (builtin_typeId (data_type_for_name name))"

section \<open>Initial values\<close>

definition UA_DATETIME_UNIX_EPOCH :: int where
  "UA_DATETIME_UNIX_EPOCH = 11644473600 * UA_DATETIME_SEC"

definition field :: "int list \<Rightarrow> nat \<Rightarrow> int" where
  "field xs i = (if i < length xs then xs ! i else 0)"

definition server_parse_datetime :: "int \<Rightarrow> cstr \<Rightarrow> u64" where
  "server_parse_datetime utcoff s = (case s of None \<Rightarrow> 0
     | Some s \<Rightarrow>
        (let f = fst (sscanf_ints ''--T::'' s) in
         if length f < 3 then 0
         else
           let epoch = mktime utcoff \<lparr>tm_year = field f 0 - 1900, tm_mon = field f 1 - 1, tm_mday = field f 2,
                                      tm_hour = field f 3, tm_min = field f 4, tm_sec = field f 5\<rparr>
           in word_of_int (epoch * UA_DATETIME_SEC + UA_DATETIME_UNIX_EPOCH)))"

definition guid_zero :: guid where
  "guid_zero = \<lparr>data1 = 0, data2 = 0, data3 = 0, data4 = replicate 8 0\<rparr>"

definition server_parse_guid :: "cstr \<Rightarrow> guid" where
  "server_parse_guid s = (case s of None \<Rightarrow> guid_zero
     | Some s \<Rightarrow>
        (case sscanf_hexes guid_format s of
           d1 # d2 # d3 # b \<Rightarrow>
             (if length b = 8 then \<lparr>data1 = word_of_nat d1, data2 = word_of_nat d2, data3 = word_of_nat d3,
                                     data4 = map word_of_nat b\<rparr>
              else guid_zero)
         | _ \<Rightarrow> guid_zero))"

definition server_parse_qualified_name :: "cstr \<Rightarrow> qname" where
  "server_parse_qualified_name s = (case s of None \<Rightarrow> \<lparr>qn_namespaceIndex = 0, qn_name = None\<rparr>
     | Some s \<Rightarrow>
        (case strchr CHR '':'' s of
           Some (_, colon) \<Rightarrow> \<lparr>qn_namespaceIndex = word_of_int (atoi s), qn_name = Some (drop 1 colon)\<rparr>
         | None \<Rightarrow> \<lparr>qn_namespaceIndex = 0, qn_name = Some s\<rparr>))"

definition server_parse_localized_text :: "cstr \<Rightarrow> ltext" where
  "server_parse_localized_text s = (case s of None \<Rightarrow> \<lparr>lt_locale = Some [], lt_text = Some []\<rparr>
     | Some s \<Rightarrow>
        (case strchr CHR '':'' s of
           None \<Rightarrow> \<lparr>lt_locale = Some [], lt_text = Some s\<rparr>
         | Some (loc, colon) \<Rightarrow> \<lparr>lt_locale = Some loc, lt_text = Some (drop 1 colon)\<rparr>))"

definition string_or_empty :: "cjson \<Rightarrow> string" where
  "string_or_empty jv = (case jv of CString s \<Rightarrow> s | _ \<Rightarrow> [])"

definition build_bytestring :: "cjson \<Rightarrow> ua_bytes" where
  "build_bytestring jv = (case jv of CString (c # cs) \<Rightarrow> server_b64_decode (Some (c # cs)) | _ \<Rightarrow> None)"

definition build_variant_scalar :: "cjson_lib \<Rightarrow> int \<Rightarrow> cjson option \<Rightarrow> cstr \<Rightarrow> variant" where
  "build_variant_scalar J utcoff jv dtn = (case (jv, dtn) of
     (Some jv, Some n) \<Rightarrow>
       if n = ''Boolean'' then Scalar (VBoolean (cJSON_IsTrue jv))
       else if n = ''SByte'' then Scalar (VSByte (word_of_int (cJSON_valueint J jv)))
       else if n = ''Byte'' then Scalar (VByte (word_of_int (cJSON_valueint J jv)))
       else if n = ''Int16'' then Scalar (VInt16 (word_of_int (cJSON_valueint J jv)))
       else if n = ''UInt16'' then Scalar (VUInt16 (word_of_int (cJSON_valueint J jv)))
       else if n = ''Int32'' then Scalar (VInt32 (word_of_int (cJSON_valueint J jv)))
       else if n = ''UInt32'' then Scalar (VUInt32 (double_to_u32 (valuedouble jv)))
       else if n = ''Int64'' then Scalar (VInt64 (case jv of CString s \<Rightarrow> word_of_int (strtoll s)
              | _ \<Rightarrow> word_of_int (double_to_i64 (valuedouble jv))))
       else if n = ''UInt64'' then Scalar (VUInt64 (case jv of CString s \<Rightarrow> strtoull s | _ \<Rightarrow> double_to_u64 (valuedouble jv)))
       else if n = ''Float'' then Scalar (VFloat (to_float (valuedouble jv)))
       else if n = ''Double'' then Scalar (VDouble (valuedouble jv))
       else if n = ''String'' then Scalar (VString (Some (string_or_empty jv)))
       else if n = ''XmlElement'' then Scalar (VXmlElement (Some (string_or_empty jv)))
       else if n = ''DateTime'' then Scalar (VDateTime (server_parse_datetime utcoff (Some (string_or_empty jv))))
       else if n = ''Guid'' then Scalar (VGuid (server_parse_guid (Some (string_or_empty jv))))
       else if n = ''ByteString'' then Scalar (VByteString (build_bytestring jv))
       else if n = ''NodeId'' then Scalar (VNodeId (case jv of CString s \<Rightarrow> server_parse_nodeid (Some s) 0 | _ \<Rightarrow> nodeid_null))
       else if n = ''QualifiedName'' then Scalar (VQualifiedName (server_parse_qualified_name (Some (string_or_empty jv))))
       else if n = ''LocalizedText'' then Scalar (VLocalizedText (server_parse_localized_text (Some (string_or_empty jv))))
       else if n = ''StatusCode'' then Scalar (VStatusCode (double_to_u32 (valuedouble jv)))
       else EmptyVariant
   | _ \<Rightarrow> EmptyVariant)"

text \<open>\<open>UA_init\<close>: the value of a type whose bytes are all zero.\<close>

fun ua_init :: "ua_type \<Rightarrow> ua_val" where
  "ua_init TBoolean = VBoolean False"
| "ua_init TSByte = VSByte 0"
| "ua_init TByte = VByte 0"
| "ua_init TInt16 = VInt16 0"
| "ua_init TUInt16 = VUInt16 0"
| "ua_init TInt32 = VInt32 0"
| "ua_init TUInt32 = VUInt32 0"
| "ua_init TInt64 = VInt64 0"
| "ua_init TUInt64 = VUInt64 0"
| "ua_init TFloat = VFloat (DFin False 0)"
| "ua_init TDouble = VDouble (DFin False 0)"
| "ua_init TString = VString None"
| "ua_init TDateTime = VDateTime 0"
| "ua_init TGuid = VGuid guid_zero"
| "ua_init TByteString = VByteString None"
| "ua_init TXmlElement = VXmlElement None"
| "ua_init TNodeId = VNodeId nodeid_null"
| "ua_init TExpandedNodeId = VExpandedNodeId \<lparr>serverIndex = 0, namespaceUri = None, en_nodeId = nodeid_null\<rparr>"
| "ua_init TStatusCode = VStatusCode 0"
| "ua_init TQualifiedName = VQualifiedName \<lparr>qn_namespaceIndex = 0, qn_name = None\<rparr>"
| "ua_init TLocalizedText = VLocalizedText \<lparr>lt_locale = None, lt_text = None\<rparr>"
| "ua_init TExtensionObject = VExtensionObject NoBody"
| "ua_init TDataValue = VDataValue (DataValue False EmptyVariant None None None None None)"
| "ua_init TVariant = VVariant EmptyVariant"
| "ua_init TDiagnosticInfo = VDiagnosticInfo (DiagnosticInfo None None None None None None None)"
| "ua_init (TOther n) = VOther n (Opaque 0)"

text \<open>One slot of the array: the bytes of the element's value are copied as a value of the
  array's type, or the slot stays zero.\<close>

definition build_slot :: "cjson_lib \<Rightarrow> int \<Rightarrow> cstr \<Rightarrow> cjson \<Rightarrow> ua_val" where
  "build_slot J utcoff dtn el = (case build_variant_scalar J utcoff (Some el) dtn of
     Scalar v \<Rightarrow> v
   | _ \<Rightarrow> ua_init (data_type_for_name dtn))"

definition build_variant :: "cjson_lib \<Rightarrow> int \<Rightarrow> cjson option \<Rightarrow> cstr \<Rightarrow> int \<Rightarrow> variant" where
  "build_variant J utcoff jv dtn rank = (case jv of None \<Rightarrow> EmptyVariant
     | Some (CArray els) \<Rightarrow>
         (if rank = - 1 then build_variant_scalar J utcoff jv dtn
          else if els = [] then Array (data_type_for_name dtn) [] []
          else Array (data_type_for_name dtn) (map (build_slot J utcoff dtn) els) [])
     | Some _ \<Rightarrow> build_variant_scalar J utcoff jv dtn)"

definition parse_browse_name :: "cstr \<Rightarrow> qname" where
  "parse_browse_name s = (case s of None \<Rightarrow> \<lparr>qn_namespaceIndex = 0, qn_name = Some []\<rparr>
     | Some s \<Rightarrow>
        (case strchr CHR '':'' s of
           Some (_, colon) \<Rightarrow> \<lparr>qn_namespaceIndex = word_of_int (atoi s), qn_name = Some (drop 1 colon)\<rparr>
         | None \<Rightarrow> \<lparr>qn_namespaceIndex = 0, qn_name = Some s\<rparr>))"

section \<open>Initial values have the declared type\<close>

text \<open>\<open>UA_copy (elem.data, dst, dt)\<close> copies the element as a value of the type the data type
  name stands for; it is a value of that type.\<close>

lemma build_variant_scalar_typed [typing]:
  "build_variant_scalar J utcoff jv dt = Scalar v \<Longrightarrow> type_of v = data_type_for_name dt"
  by (auto simp: build_variant_scalar_def data_type_for_name_def split: option.splits if_splits)

lemma build_variant_scalar_not_array: "build_variant_scalar J utcoff jv dt \<noteq> Array t vs ds"
  by (auto simp: build_variant_scalar_def split: option.splits)

lemma type_of_ua_init [simp]: "type_of (ua_init t) = t"
  by (cases t) simp_all

lemma wf_ua_init: "wf_val (ua_init t)"
  by (cases t) (simp_all add: wf_guid_def guid_zero_def wf_nodeid_def nodeid_null_def nodeid_numeric_def)

lemma wf_server_parse_guid: "wf_guid (server_parse_guid s)"
  by (auto simp: server_parse_guid_def guid_zero_def wf_guid_def split: option.split list.split)

lemma wf_server_parse_nodeid: "wf_nodeid (server_parse_nodeid s ns)"
  by (auto simp: server_parse_nodeid_def server_parse_ident_def wf_nodeid_def nodeid_null_def nodeid_numeric_def
        nodeid_string_def split: option.split)

text \<open>The numbers of the document are doubles.\<close>

definition json_number_ok :: "cjson \<Rightarrow> bool" where
  "json_number_ok jv \<longleftrightarrow> wf_double (valuedouble jv)"

lemma wf_nodeid_null: "wf_nodeid nodeid_null"
  by (simp add: wf_nodeid_def nodeid_null_def nodeid_numeric_def)

lemmas wf_server_values = wf_server_parse_guid wf_server_parse_nodeid wf_nodeid_null wf_to_float

lemma build_variant_scalar_wf: "json_number_ok jv \<Longrightarrow> wf_variant (build_variant_scalar J utcoff (Some jv) dt)"
  by (simp add: build_variant_scalar_def json_number_ok_def wf_server_values split: option.split cjson.split)

lemma build_slot_typed: "type_of (build_slot J utcoff dt el) = data_type_for_name dt"
  by (auto simp: build_slot_def build_variant_scalar_typed split: variant.split)

lemma build_slot_wf: "json_number_ok el \<Longrightarrow> wf_val (build_slot J utcoff dt el)"
  using build_variant_scalar_wf [of el J utcoff dt] by (auto simp: build_slot_def wf_ua_init split: variant.split)

definition json_value_ok :: "cjson \<Rightarrow> bool" where
  "json_value_ok jv \<longleftrightarrow> json_number_ok jv \<and> (\<forall>el\<in>set (children jv). json_number_ok el)"

definition builds_a_value :: "cjson \<Rightarrow> cstr \<Rightarrow> int \<Rightarrow> bool" where
  "builds_a_value jv dt rank \<longleftrightarrow>
     (cJSON_IsArray jv \<and> rank \<noteq> - 1) \<or> data_type_for_name dt \<notin> {TVariant, TExpandedNodeId}"

lemma build_variant_scalar_Empty:
  "build_variant_scalar J utcoff (Some jv) dt = EmptyVariant \<longleftrightarrow> data_type_for_name dt \<in> {TVariant, TExpandedNodeId}"
  by (simp add: build_variant_scalar_def data_type_for_name_def split: option.split)

lemma build_variant_array:
  "rank \<noteq> - 1 \<Longrightarrow> build_variant J utcoff (Some (CArray els)) dt rank
     = Array (data_type_for_name dt) (map (build_slot J utcoff dt) els) []"
  by (simp add: build_variant_def)

lemma build_variant_scalar_case:
  "\<not> (cJSON_IsArray jv \<and> rank \<noteq> - 1) \<Longrightarrow> build_variant J utcoff (Some jv) dt rank = build_variant_scalar J utcoff (Some jv) dt"
  by (cases jv) (auto simp: build_variant_def)

text \<open>C30 The initial value of a Variable has the type its data type name declares: build_variant
  gives a well-formed Variant of that type, every array slot holding a value of the element type,
  one per element of the document; it is empty exactly for a scalar of a type that has no
  conversion.\<close>

theorem build_variant_typed:
  assumes "json_value_ok jv"
  shows "wf_variant (build_variant J utcoff (Some jv) dt rank) \<and>
    variant_type (build_variant J utcoff (Some jv) dt rank)
      = (if builds_a_value jv dt rank then Some (data_type_for_name dt) else None)"
proof (cases "cJSON_IsArray jv \<and> rank \<noteq> - 1")
  case True
  then obtain els where jv: "jv = CArray els" by (cases jv) auto
  then show ?thesis using True assms
    by (auto simp: build_variant_array builds_a_value_def json_value_ok_def build_slot_typed build_slot_wf)
next
  case False
  have "variant_type (build_variant_scalar J utcoff (Some jv) dt)
      = (if data_type_for_name dt \<in> {TVariant, TExpandedNodeId} then None else Some (data_type_for_name dt))"
    using build_variant_scalar_Empty [of J utcoff jv dt] build_variant_scalar_not_array [of J utcoff "Some jv" dt]
    by (cases "build_variant_scalar J utcoff (Some jv) dt") (auto simp: build_variant_scalar_typed)
  then show ?thesis using False assms
    by (auto simp: build_variant_scalar_case builds_a_value_def json_value_ok_def build_variant_scalar_wf)
qed

theorem build_variant_typed_witness:
  "variant_type (build_variant plain_json 0 (Some (CArray [CNumber (DFin False 7), CNull])) (Some ''UInt32'') 1) = Some TUInt32"
  using build_variant_typed [of "CArray [CNumber (DFin False 7), CNull]" plain_json 0 "Some ''UInt32''" 1]
  by (simp add: json_value_ok_def json_number_ok_def builds_a_value_def data_type_for_name_def)

section \<open>Namespaces\<close>

text \<open>What the stack documents of \<open>UA_Server_addNamespace\<close>: adding a URI again gives its index
  and changes nothing, also after other URIs have been added.\<close>

definition addns_idempotent :: "'s add_namespace \<Rightarrow> bool" where
  "addns_idempotent addns \<longleftrightarrow>
    (\<forall>s u. addns (snd (addns s u)) u = addns s u) \<and>
    (\<forall>s u v i. addns s u = (i, s) \<longrightarrow> addns (snd (addns s v)) u = (i, snd (addns s v)))"

definition resolve_all :: "'s add_namespace \<Rightarrow> 's \<Rightarrow> cstr list \<Rightarrow> 's" where
  "resolve_all addns srv ts = foldl (\<lambda>srv t. snd (resolve_nodeid addns srv t)) srv ts"

lemma resolve_nodeid_fixed:
  assumes "addns_idempotent addns" "resolve_nodeid addns srv s = (n, srv)"
  shows "resolve_nodeid addns (snd (resolve_nodeid addns srv t)) s = (n, snd (resolve_nodeid addns srv t))"
proof -
  have st: "snd (resolve_nodeid addns srv t) = srv \<or> (\<exists>v. snd (resolve_nodeid addns srv t) = snd (addns srv v))"
    by (auto simp: resolve_nodeid_def split: option.split prod.split) (metis snd_conv)
  have ok: "addns srv u = (i, srv) \<Longrightarrow> addns (snd (addns srv v)) u = (i, snd (addns srv v))" for u v i
    using assms(1) unfolding addns_idempotent_def by blast
  from st show ?thesis
  proof
    assume "\<exists>v. snd (resolve_nodeid addns srv t) = snd (addns srv v)"
    then obtain v where v: "snd (resolve_nodeid addns srv t) = snd (addns srv v)" ..
    show ?thesis unfolding v using assms(2) ok [of _ _ v]
      by (auto simp: resolve_nodeid_def split: option.splits prod.splits if_splits)
  qed (use assms(2) in simp)
qed

lemma resolve_nodeid_again:
  assumes "addns_idempotent addns"
  shows "resolve_nodeid addns (snd (resolve_nodeid addns srv s)) s = resolve_nodeid addns srv s"
proof -
  have idem: "addns srv u = (i, srv') \<Longrightarrow> addns srv' u = (i, srv')" for u i srv'
    using assms unfolding addns_idempotent_def by (metis snd_conv)
  show ?thesis by (auto simp: resolve_nodeid_def split: option.split prod.split dest: idem)
qed

text \<open>A NodeId text means the same node wherever the fixture mentions it: resolving it again,
  after any other texts have been resolved (and namespaces registered on the way), gives the same
  NodeId and registers nothing new.\<close>

lemma resolve_nodeid_stable:
  assumes "addns_idempotent addns" and "resolve_nodeid addns srv s = (n, srv')"
  shows "resolve_nodeid addns (resolve_all addns srv' ts) s = (n, resolve_all addns srv' ts)"
proof (induction ts rule: rev_induct)
  case Nil
  then show ?case using resolve_nodeid_again [OF assms(1), of srv s] assms(2) by (simp add: resolve_all_def)
next
  case (snoc t ts)
  then show ?case using resolve_nodeid_fixed [OF assms(1) snoc, of t] by (simp add: resolve_all_def)
qed

text \<open>A namespace table that keeps its URIs in a list.\<close>

fun table_index :: "nat \<Rightarrow> string list \<Rightarrow> string \<Rightarrow> nat option" where
  "table_index k [] u = None"
| "table_index k (x # xs) u = (if x = u then Some k else table_index (k + 1) xs u)"

definition table_addns :: "string list add_namespace" where
  "table_addns tab u = (case table_index 0 tab u of Some k \<Rightarrow> (word_of_nat k, tab)
     | None \<Rightarrow> (word_of_nat (length tab), tab @ [u]))"

lemma table_index_append: "table_index k tab u = Some i \<Longrightarrow> table_index k (tab @ ys) u = Some i"
  by (induction tab arbitrary: k) (auto split: if_splits)

lemma table_index_new: "table_index k tab u = None \<Longrightarrow> table_index k (tab @ [u]) u = Some (k + length tab)"
  by (induction tab arbitrary: k) (auto split: if_splits)

lemma table_addns_idempotent: "addns_idempotent table_addns"
proof -
  have "table_addns (snd (table_addns s u)) u = table_addns s u" for s u
    by (cases "table_index 0 s u") (simp_all add: table_addns_def table_index_new)
  moreover have "table_addns (snd (table_addns s v)) u = (i, snd (table_addns s v))" if "table_addns s u = (i, s)" for s u v i
    using that by (cases "table_index 0 s u"; cases "table_index 0 s v") (auto simp: table_addns_def table_index_append)
  ultimately show ?thesis by (auto simp: addns_idempotent_def)
qed

lemma resolve_nodeid_stable_witness:
  "resolve_nodeid table_addns (resolve_all table_addns [''a'', ''urn:m''] [Some ''nsu=urn:x;s=B'']) (Some ''nsu=urn:m;s=A'')
     = (nodeid_string 1 ''A'', resolve_all table_addns [''a'', ''urn:m''] [Some ''nsu=urn:x;s=B''])"
  by (rule resolve_nodeid_stable [OF table_addns_idempotent, of "[''a'', ''urn:m'']"])
    (simp add: resolve_nodeid_def table_addns_def server_parse_nodeid_def server_parse_ident_def)

end
