(* ===== verification/Server_Methods.thy ===== *)
theory Server_Methods
  imports Server_Values
begin

text \<open>
  server.c: the method callbacks, the arguments of method nodes, and the behaviors that change
  variables over time. A callback gets the input Variants and the array of output Variants the
  stack has made for it, and returns the status code and the array as it leaves it. Signed
  overflow (\<open>a + b\<close>, \<open>inp * 2\<close>, \<open>counter++\<close>) is taken to wrap around.
\<close>

section \<open>Method callbacks\<close>

type_synonym method_callback = "variant list \<Rightarrow> variant list \<Rightarrow> u32 \<times> variant list"

fun int32_of :: "variant \<Rightarrow> u32" where
  "int32_of (Scalar (VInt32 a)) = a"
| "int32_of _ = 0"

fun double_of :: "variant \<Rightarrow> double" where
  "double_of (Scalar (VDouble d)) = d"
| "double_of _ = DFin False 0"

definition method_add_cb :: method_callback where
  "method_add_cb input output =
    (if length input < 2 \<or> length output < 1 then (BADINVALIDARGUMENT, output)
     else if \<not> hasScalarType (input ! 0) TInt32 then (BADINVALIDARGUMENT, output)
     else if \<not> hasScalarType (input ! 1) TInt32 then (BADINVALIDARGUMENT, output)
     else (GOOD, output[0 := Scalar (VInt32 (int32_of (input ! 0) + int32_of (input ! 1)))]))"

definition method_multiply_cb :: method_callback where
  "method_multiply_cb input output =
    (if length input < 2 \<or> length output < 1 then (BADINVALIDARGUMENT, output)
     else if \<not> hasScalarType (input ! 0) TDouble then (BADINVALIDARGUMENT, output)
     else if \<not> hasScalarType (input ! 1) TDouble then (BADINVALIDARGUMENT, output)
     else (GOOD, output[0 := Scalar (VDouble (dmul (double_of (input ! 0)) (double_of (input ! 1))))]))"

definition method_echo_cb :: method_callback where
  "method_echo_cb input output =
    (if length input < 1 \<or> length output < 1 then (BADINVALIDARGUMENT, output)
     else if \<not> hasScalarType (input ! 0) TString then (BADINVALIDARGUMENT, output)
     else (GOOD, output[0 := input ! 0]))"

definition method_noargs_cb :: method_callback where
  "method_noargs_cb input output =
    (if length output < 1 then (BADINVALIDARGUMENT, output)
     else (GOOD, output[0 := Scalar (VBoolean True)]))"

definition method_multipleoutputs_cb :: method_callback where
  "method_multipleoutputs_cb input output =
    (if length input < 1 \<or> length output < 2 then (BADINVALIDARGUMENT, output)
     else if \<not> hasScalarType (input ! 0) TInt32 then (BADINVALIDARGUMENT, output)
     else let inp = int32_of (input ! 0)
          in (GOOD, output[0 := Scalar (VInt32 (inp * 2)), 1 := Scalar (VString (Some (dec_int (sint inp))))]))"

definition method_fail_cb :: method_callback where
  "method_fail_cb input output = (BADINTERNALERROR, output)"

definition method_callback_for :: "cstr \<Rightarrow> method_callback option" where
  "method_callback_for behavior = (case behavior of None \<Rightarrow> None
     | Some b \<Rightarrow>
        if b = ''Add'' then Some method_add_cb
        else if b = ''Multiply'' then Some method_multiply_cb
        else if b = ''Echo'' then Some method_echo_cb
        else if b = ''NoArguments'' then Some method_noargs_cb
        else if b = ''MultipleOutputs'' then Some method_multipleoutputs_cb
        else if b = ''Fail'' then Some method_fail_cb
        else None)"

section \<open>Method arguments\<close>

record UA_Argument =
  ua_name :: ua_string
  ua_dataType :: nodeid
  ua_valueRank :: int
  ua_description :: ltext

definition or_empty :: "cstr \<Rightarrow> string" where
  "or_empty s = (case s of None \<Rightarrow> [] | Some t \<Rightarrow> t)"

definition build_ua_arguments :: "Argument list \<Rightarrow> UA_Argument list" where
  "build_ua_arguments args = map (\<lambda>a.
     \<lparr>ua_name = Some (or_empty (arg_name a)), ua_dataType = data_type_nodeid (arg_dataType a),
      ua_valueRank = arg_valueRank a,
      ua_description = \<lparr>lt_locale = Some ''en'', lt_text = Some (or_empty (arg_description a))\<rparr>\<rparr>) args"

section \<open>Behaviors\<close>

record BehaviorCtx =
  bc_nodeId :: nodeid
  bc_kind :: BehaviorKind
  counter :: u64
  toggle :: bool
  rampVal :: double
  rampInc :: double
  rampMin :: double
  rampMax :: double

text \<open>The context the server gives a behavior of the fixture.\<close>

definition behavior_ctx :: "nodeid \<Rightarrow> Behavior \<Rightarrow> BehaviorCtx" where
  "behavior_ctx n beh = \<lparr>bc_nodeId = n, bc_kind = beh_kind beh, counter = word_of_int (double_to_i64 (beh_initial beh)),
     toggle = False, rampVal = beh_initial beh, rampInc = beh_increment beh, rampMin = beh_minimum beh, rampMax = beh_maximum beh\<rparr>"

text \<open>One tick: the value written to the node, None when nothing is written, and the context after it.\<close>

definition behavior_callback :: "BehaviorCtx \<Rightarrow> variant option \<times> BehaviorCtx" where
  "behavior_callback ctx = (case bc_kind ctx of
     BEH_COUNTER \<Rightarrow> (Some (Scalar (VInt64 (counter ctx))), ctx\<lparr>counter := counter ctx + 1\<rparr>)
   | BEH_TOGGLE \<Rightarrow>
       let ctx = ctx\<lparr>toggle := \<not> toggle ctx\<rparr> in (Some (Scalar (VBoolean (toggle ctx))), ctx)
   | BEH_RAMP \<Rightarrow>
       let v = rampVal ctx; ctx = ctx\<lparr>rampVal := dadd (rampVal ctx) (rampInc ctx)\<rparr>;
           ctx = (if dless (rampMax ctx) (rampVal ctx) then ctx\<lparr>rampVal := rampMin ctx\<rparr> else ctx)
       in (Some (Scalar (VDouble v)), ctx)
   | _ \<Rightarrow> (None, ctx))"

section \<open>The contract of the callbacks\<close>

text \<open>
  What the server and its clients rely on in a method callback: it answers a call exactly when the
  arguments have the declared number and types, a refused call leaves the outputs as they were,
  the number of outputs never changes, and an answered call fills its outputs with values of the
  declared types.
\<close>

definition args_match :: "ua_type list \<Rightarrow> variant list \<Rightarrow> bool" where
  "args_match ts vs \<longleftrightarrow> length ts \<le> length vs \<and> list_all2 hasScalarType (take (length ts) vs) ts"

locale method_contract =
  fixes cb :: method_callback and inT :: "ua_type list" and outT :: "ua_type list"
  assumes accepts: "fst (cb input output) = GOOD \<longleftrightarrow> args_match inT input \<and> length outT \<le> length output"
    and refused: "fst (cb input output) \<noteq> GOOD \<Longrightarrow> snd (cb input output) = output"
    and kept: "length (snd (cb input output)) = length output"
    and typed: "fst (cb input output) = GOOD \<Longrightarrow> list_all2 hasScalarType (take (length outT) (snd (cb input output))) outT"
    and beyond: "drop (length outT) (snd (cb input output)) = drop (length outT) output"
begin

lemma answers_typed:
  assumes "args_match inT input" "length outT \<le> length output"
  shows "fst (cb input output) = GOOD \<and> args_match outT (snd (cb input output))"
  using accepts [of input "output"] typed [of input "output"] kept [of input "output"] assms by (simp add: args_match_def)

lemma refuses_unchanged:
  assumes "\<not> (args_match inT input \<and> length outT \<le> length output)"
  shows "fst (cb input output) \<noteq> GOOD \<and> snd (cb input output) = output"
  using accepts [of input "output"] refused [of input "output"] assms by blast

end

lemma args_match_Nil [simp]: "args_match [] vs"
  by (simp add: args_match_def)

lemma args_match_1: "args_match [t] vs \<longleftrightarrow> 0 < length vs \<and> hasScalarType (vs ! 0) t"
  by (cases vs) (simp_all add: args_match_def)

lemma args_match_2: "args_match [t, u] vs \<longleftrightarrow> 2 \<le> length vs \<and> hasScalarType (vs ! 0) t \<and> hasScalarType (vs ! 1) u"
  by (cases vs; cases "tl vs") (simp_all add: args_match_def)

lemmas args_matches = args_match_1 args_match_2

interpretation add: method_contract method_add_cb "[TInt32, TInt32]" "[TInt32]"
  by unfold_locales (auto simp: method_add_cb_def args_matches neq_Nil_conv split: if_splits)

interpretation multiply: method_contract method_multiply_cb "[TDouble, TDouble]" "[TDouble]"
  by unfold_locales (auto simp: method_multiply_cb_def args_matches neq_Nil_conv split: if_splits)

interpretation echo: method_contract method_echo_cb "[TString]" "[TString]"
  by unfold_locales (auto simp: method_echo_cb_def args_matches neq_Nil_conv split: if_splits)

interpretation noargs: method_contract method_noargs_cb "[]" "[TBoolean]"
  by unfold_locales (auto simp: method_noargs_cb_def args_matches neq_Nil_conv split: if_splits)

lemma list_2: "2 \<le> length xs \<longleftrightarrow> (\<exists>x y zs. xs = x # y # zs)"
  by (cases xs; cases "tl xs") auto

interpretation multi: method_contract method_multipleoutputs_cb "[TInt32]" "[TInt32, TString]"
proof
  fix input ot :: "variant list"
  let ?r = "method_multipleoutputs_cb input ot"
  show "fst ?r = GOOD \<longleftrightarrow> args_match [TInt32] input \<and> length [TInt32, TString] \<le> length ot"
    by (auto simp: method_multipleoutputs_cb_def args_matches Let_def)
  show "snd ?r = ot" if "fst ?r \<noteq> GOOD"
    using that by (auto simp: method_multipleoutputs_cb_def Let_def split: if_splits)
  show "length (snd ?r) = length ot"
    by (simp add: method_multipleoutputs_cb_def Let_def)
  show "list_all2 hasScalarType (take (length [TInt32, TString]) (snd ?r)) [TInt32, TString]" if "fst ?r = GOOD"
    using that by (auto simp: method_multipleoutputs_cb_def Let_def not_less list_2 split: if_splits)
  show "drop (length [TInt32, TString]) (snd ?r) = drop (length [TInt32, TString]) ot"
    by (simp add: method_multipleoutputs_cb_def Let_def)
qed

text \<open>The declared signature of each method behavior; Fail has none, it refuses every call.\<close>

definition method_signature :: "string \<Rightarrow> (ua_type list \<times> ua_type list) option" where
  "method_signature b =
    (if b = ''Add'' then Some ([TInt32, TInt32], [TInt32])
     else if b = ''Multiply'' then Some ([TDouble, TDouble], [TDouble])
     else if b = ''Echo'' then Some ([TString], [TString])
     else if b = ''NoArguments'' then Some ([], [TBoolean])
     else if b = ''MultipleOutputs'' then Some ([TInt32], [TInt32, TString])
     else None)"

lemma method_callback_contract:
  "method_signature b = Some (inT, outT) \<Longrightarrow> \<exists>cb. method_callback_for (Some b) = Some cb \<and> method_contract cb inT outT"
  by (auto simp: method_signature_def method_callback_for_def split: if_splits
      intro: add.method_contract_axioms multiply.method_contract_axioms echo.method_contract_axioms
        noargs.method_contract_axioms multi.method_contract_axioms)

text \<open>C31 Every method of the fixture honours its signature: a call is answered Good exactly when its
  arguments match the declared input types and there is room for the outputs; then the outputs
  have the declared types. Otherwise the status is bad and the outputs are untouched.\<close>

theorem method_call_contract:
  assumes "method_signature b = Some (inT, outT)" and "method_callback_for (Some b) = Some cb"
    and "cb input outputs = (sc, outputs')"
  shows "if args_match inT input \<and> length outT \<le> length outputs
    then sc = GOOD \<and> args_match outT outputs' \<and> length outputs' = length outputs
    else sc \<noteq> GOOD \<and> outputs' = outputs"
proof -
  from method_callback_contract [OF assms(1)] assms(2) have c: "method_contract cb inT outT" by simp
  show ?thesis
    using method_contract.answers_typed [OF c, of input outputs] method_contract.refuses_unchanged [OF c, of input outputs]
      method_contract.kept [OF c, of input outputs] assms(3) by auto
qed

theorem method_call_contract_witness:
  "fst (method_add_cb [Scalar (VInt32 3), Scalar (VInt32 4)] [EmptyVariant]) = GOOD \<and>
   fst (method_add_cb [Scalar (VInt32 3), Scalar (VDouble DNaN)] [EmptyVariant]) \<noteq> GOOD"
proof -
  have add: "method_signature ''Add'' = Some ([TInt32, TInt32], [TInt32])" "method_callback_for (Some ''Add'') = Some method_add_cb"
    by (simp_all add: method_signature_def method_callback_for_def)
  show ?thesis
    using method_call_contract [OF add, of "[Scalar (VInt32 3), Scalar (VInt32 4)]" "[EmptyVariant]"]
      method_call_contract [OF add, of "[Scalar (VInt32 3), Scalar (VDouble DNaN)]" "[EmptyVariant]"]
    by (simp add: args_matches) (metis prod.collapse)
qed

text \<open>The Add method adds 32-bit integers exactly whenever the sum is representable, and
  MultipleOutputs doubles its argument and prints the argument as it came.\<close>

lemma method_arithmetic:
  assumes "- (2 ^ 31) \<le> sint a + sint b" and "sint a + sint b < 2 ^ 31" and "- (2 ^ 30) \<le> sint a" and "sint a < 2 ^ 30"
  shows "\<exists>r d. method_add_cb [Scalar (VInt32 a), Scalar (VInt32 b)] [x] = (GOOD, [Scalar (VInt32 r)]) \<and> sint r = sint a + sint b \<and>
    method_multipleoutputs_cb [Scalar (VInt32 a)] [x, y] = (GOOD, [Scalar (VInt32 d), Scalar (VString (Some (dec_int (sint a))))]) \<and>
    sint d = 2 * sint a"
proof -
  have "sint (a + b) = sint a + sint b" using assms(1,2) by (simp add: sint_word_ariths signed_take_bit_int_eq_self)
  moreover have "sint (a * 2) = 2 * sint a" using assms(3,4) by (simp add: sint_word_ariths signed_take_bit_int_eq_self)
  ultimately show ?thesis by (auto simp: method_add_cb_def method_multipleoutputs_cb_def Let_def)
qed

lemma method_arithmetic_witness:
  "\<exists>r d. method_add_cb [Scalar (VInt32 5), Scalar (VInt32 (- 7))] [EmptyVariant] = (GOOD, [Scalar (VInt32 r)]) \<and> sint r = sint (5 :: u32) + sint (- 7 :: u32) \<and>
    method_multipleoutputs_cb [Scalar (VInt32 5)] [EmptyVariant, EmptyVariant] = (GOOD, [Scalar (VInt32 d), Scalar (VString (Some (dec_int (sint (5 :: u32)))))]) \<and>
    sint d = 2 * sint (5 :: u32)"
  by (rule method_arithmetic) simp_all

section \<open>Behaviors over time\<close>

text \<open>The values the first n ticks write, and the context after them.\<close>

fun behavior_run :: "nat \<Rightarrow> BehaviorCtx \<Rightarrow> variant option list \<times> BehaviorCtx" where
  "behavior_run 0 ctx = ([], ctx)"
| "behavior_run (Suc n) ctx = (case behavior_callback ctx of (w, ctx') \<Rightarrow>
     (case behavior_run n ctx' of (ws, ctx'') \<Rightarrow> (w # ws, ctx'')))"

lemma behavior_run_counter:
  "bc_kind ctx = BEH_COUNTER \<Longrightarrow>
    behavior_run n ctx = (map (\<lambda>k. Some (Scalar (VInt64 (counter ctx + word_of_nat k)))) [0..<n], ctx\<lparr>counter := counter ctx + word_of_nat n\<rparr>)"
proof (induction n arbitrary: ctx)
  case (Suc n)
  have "[0..<Suc n] = 0 # map Suc [0..<n]" by (simp add: map_Suc_upt upt_conv_Cons del: upt_Suc)
  with Suc show ?case by (simp add: behavior_callback_def comp_def add.assoc del: upt_Suc)
qed simp

lemma behavior_run_toggle:
  "bc_kind ctx = BEH_TOGGLE \<Longrightarrow>
    fst (behavior_run n ctx) = map (\<lambda>k. Some (Scalar (VBoolean (toggle ctx \<noteq> even k)))) [0..<n]"
proof (induction n arbitrary: ctx)
  case (Suc n)
  have "[0..<Suc n] = 0 # map Suc [0..<n]" by (simp add: map_Suc_upt upt_conv_Cons del: upt_Suc)
  moreover have "fst (behavior_run n (ctx\<lparr>toggle := \<not> toggle ctx\<rparr>)) = map (\<lambda>k. Some (Scalar (VBoolean (toggle ctx \<noteq> odd k)))) [0..<n]"
    using Suc.IH [of "ctx\<lparr>toggle := \<not> toggle ctx\<rparr>"] Suc.prems by (simp del: upt_Suc)
  ultimately show ?case using Suc.prems by (auto simp: behavior_callback_def comp_def Let_def split: prod.split simp del: upt_Suc)
qed simp

text \<open>The state of a ramp: below its maximum, and its parameters as they were.\<close>

definition ramp_ok :: "double \<Rightarrow> double \<Rightarrow> BehaviorCtx \<Rightarrow> bool" where
  "ramp_ok lo hi ctx \<longleftrightarrow> bc_kind ctx = BEH_RAMP \<and> rampMin ctx = lo \<and> rampMax ctx = hi \<and> \<not> dless hi (rampVal ctx)"

lemma ramp_step:
  "ramp_ok lo hi ctx \<Longrightarrow> \<not> dless hi lo \<Longrightarrow> behavior_callback ctx = (w, ctx') \<Longrightarrow>
    ramp_ok lo hi ctx' \<and> (\<exists>v. w = Some (Scalar (VDouble v)) \<and> \<not> dless hi v)"
  by (auto simp: ramp_ok_def behavior_callback_def Let_def split: if_splits)

lemma ramp_run:
  "ramp_ok lo hi ctx \<Longrightarrow> \<not> dless hi lo \<Longrightarrow> behavior_run n ctx = (ws, ctx') \<Longrightarrow>
    length ws = n \<and> ramp_ok lo hi ctx' \<and> (\<forall>w\<in>set ws. \<exists>v. w = Some (Scalar (VDouble v)) \<and> \<not> dless hi v)"
proof (induction n arbitrary: ctx ws)
  case (Suc n)
  obtain w c ws' where r: "behavior_callback ctx = (w, c)" "behavior_run n c = (ws', ctx')" "ws = w # ws'"
    using Suc.prems(3) by (auto split: prod.splits)
  with ramp_step [OF Suc.prems(1,2) r(1)] Suc.IH [of c ws'] Suc.prems(2) show ?case by auto
qed simp


definition example_ramp :: Behavior where
  "example_ramp = \<lparr>beh_target = None, beh_kind = BEH_RAMP, beh_initial = DFin False 0, beh_increment = DInf False,
     beh_minimum = DFin True 1, beh_maximum = DFin False 3, intervalMs = 250\<rparr>"


text \<open>A counter writes its initial value and then every following 64-bit value in turn; a toggle
  alternates, beginning with true; and a fixed status, a timestamp or a static behavior writes
  nothing from its callback.\<close>

lemma behavior_sequences:
  "(beh_kind beh = BEH_COUNTER \<longrightarrow> fst (behavior_run n (behavior_ctx node beh)) =
      map (\<lambda>k. Some (Scalar (VInt64 (word_of_int (double_to_i64 (beh_initial beh)) + word_of_nat k)))) [0..<n]) \<and>
   (beh_kind beh = BEH_TOGGLE \<longrightarrow> fst (behavior_run n (behavior_ctx node beh)) = map (\<lambda>k. Some (Scalar (VBoolean (even k)))) [0..<n]) \<and>
   (beh_kind beh \<notin> {BEH_COUNTER, BEH_TOGGLE, BEH_RAMP} \<longrightarrow> behavior_callback (behavior_ctx node beh) = (None, behavior_ctx node beh))"
  by (auto simp: behavior_run_counter behavior_run_toggle behavior_ctx_def behavior_callback_def split: BehaviorKind.split)

lemma behavior_sequences_witness:
  "fst (behavior_run 2 (behavior_ctx nodeid_null (example_ramp\<lparr>beh_kind := BEH_TOGGLE\<rparr>)))
     = [Some (Scalar (VBoolean True)), Some (Scalar (VBoolean False))]"
  using behavior_sequences [of "example_ramp\<lparr>beh_kind := BEH_TOGGLE\<rparr>" 2 nodeid_null] by (simp add: upt_rec)

end
