(* ===== verification/History.thy ===== *)
theory History
  imports Server_Methods
begin

text \<open>
  server.c: the historian of History.Temperature. Five fixed samples are served by
  \<open>interop_hist_read_raw\<close>; a read that does not return all matching samples leaves a
  continuation point in a table of 16 slots. The first two bytes of a token identify its slot.
\<close>

section \<open>The historian\<close>

record cp_slot =
  token0 :: byte
  token1 :: byte
  cp_offset :: nat
  inUse :: bool
  released :: bool

record InteropHistCtx =
  histNodeId :: nodeid
  samples :: "datavalue list"
  cps :: "cp_slot list"

text \<open>One node of a HistoryRead request with the details that apply to it, and its result. The
  values are None when the response's HistoryData is left as it was.\<close>

record hist_request =
  hr_nodeId :: nodeid
  hr_continuationPoint :: ua_bytes
  hr_release :: bool
  startTime :: u64
  endTime :: u64
  numValuesPerNode :: u32
  hasHistoryData :: bool

record hist_result =
  hs_statusCode :: u32
  hs_dataValues :: "datavalue list option"
  hs_continuationPoint :: ua_bytes

definition cp_bytes :: "ua_bytes \<Rightarrow> byte list" where
  "cp_bytes cp = (case cp of None \<Rightarrow> [] | Some bs \<Rightarrow> bs)"

definition cp_matches :: "byte list \<Rightarrow> cp_slot \<Rightarrow> bool" where
  "cp_matches cpIn s \<longleftrightarrow> inUse s \<and> token0 s = cpIn ! 0 \<and> (length cpIn < 2 \<or> token1 s = cpIn ! 1)"

text \<open>The first index with a property, as the search loops find it.\<close>

fun first_index :: "('a \<Rightarrow> bool) \<Rightarrow> 'a list \<Rightarrow> nat option" where
  "first_index P [] = None"
| "first_index P (x # xs) = (if P x then Some 0 else map_option Suc (first_index P xs))"

definition sample_time :: "datavalue \<Rightarrow> int" where
  "sample_time dv = (case dv_sourceTimestamp dv of None \<Rightarrow> 0 | Some t \<Rightarrow> sint t)"

definition in_interval :: "u64 \<Rightarrow> u64 \<Rightarrow> datavalue \<Rightarrow> bool" where
  "in_interval lo hi dv \<longleftrightarrow>
     \<not> (lo \<noteq> 0 \<and> sample_time dv < sint lo) \<and> \<not> (hi \<noteq> 0 \<and> sint hi < sample_time dv)"

definition matched :: "InteropHistCtx \<Rightarrow> hist_request \<Rightarrow> datavalue list" where
  "matched ctx q = take 5 (filter (in_interval (startTime q) (endTime q)) (samples ctx))"

definition page_size :: "hist_request \<Rightarrow> nat \<Rightarrow> nat" where
  "page_size q count = (let num = unat (numValuesPerNode q) in if num = 0 \<or> count < num then count else num)"

text \<open>Issuing or refreshing the token for the samples from index \<open>end\<close> on.\<close>

definition issue_cp :: "InteropHistCtx \<Rightarrow> byte list \<Rightarrow> nat \<Rightarrow> InteropHistCtx \<times> byte list" where
  "issue_cp ctx cpIn pos =
    (let slot = (case first_index (\<lambda>s. \<not> inUse s \<or> (0 < length cpIn \<and> token0 s = cpIn ! 0)) (cps ctx) of
                   None \<Rightarrow> 0 | Some c \<Rightarrow> c);
         s = (cps ctx ! slot)\<lparr>inUse := True, released := False, cp_offset := pos,
                token0 := word_of_nat (1 + slot), token1 := 0xA5\<rparr>
     in (ctx\<lparr>cps := (cps ctx)[slot := s]\<rparr>, [token0 s, token1 s]))"

definition hist_status :: "u32 \<Rightarrow> hist_result \<Rightarrow> hist_result" where
  "hist_status sc res = res\<lparr>hs_statusCode := sc\<rparr>"

text \<open>The part of the loop body after the continuation point has been looked up.\<close>

definition serve_page :: "InteropHistCtx \<Rightarrow> hist_request \<Rightarrow> nat \<Rightarrow> hist_result \<Rightarrow> InteropHistCtx \<times> hist_result" where
  "serve_page ctx q pos res =
    (let ms = matched ctx q; num = page_size q (length ms)
     in if length ms < pos then (ctx, hist_status BADCONTINUATIONPOINTINVALID res)
        else
          let stop = (if length ms < pos + num then length ms else pos + num)
          in if \<not> hasHistoryData q then (ctx, hist_status BADINTERNALERROR res)
             else
               let res = res\<lparr>hs_dataValues := Some (take (stop - pos) (drop pos ms))\<rparr>
               in if stop < length ms then
                    (case issue_cp ctx (cp_bytes (hr_continuationPoint q)) stop of (ctx', tok) \<Rightarrow>
                       (ctx', hist_status GOOD (res\<lparr>hs_continuationPoint := Some tok\<rparr>)))
                  else (ctx, hist_status GOOD res))"

definition read_node_history :: "InteropHistCtx \<Rightarrow> hist_request \<Rightarrow> hist_result \<Rightarrow> InteropHistCtx \<times> hist_result" where
  "read_node_history ctx q res =
    (if hr_nodeId q \<noteq> histNodeId ctx then (ctx, hist_status BADHISTORYOPERATIONUNSUPPORTED res)
     else
       let cpIn = cp_bytes (hr_continuationPoint q)
       in if 0 < length cpIn then
            (case first_index (cp_matches cpIn) (cps ctx) of
               None \<Rightarrow> (ctx, hist_status BADCONTINUATIONPOINTINVALID res)
             | Some found \<Rightarrow>
                 if released (cps ctx ! found) then (ctx, hist_status BADCONTINUATIONPOINTINVALID res)
                 else if hr_release q then
                   (ctx\<lparr>cps := (cps ctx)[found := (cps ctx ! found)\<lparr>released := True\<rparr>]\<rparr>, hist_status GOOD res)
                 else serve_page ctx q (cp_offset (cps ctx ! found)) res)
          else if hr_release q then (ctx, hist_status GOOD res)
          else serve_page ctx q 0 res)"

text \<open>The loop over the nodes of the request; the stack has prepared one result per node.\<close>

fun interop_hist_read_raw :: "InteropHistCtx \<Rightarrow> (hist_request \<times> hist_result) list \<Rightarrow> InteropHistCtx \<times> hist_result list" where
  "interop_hist_read_raw ctx [] = (ctx, [])"
| "interop_hist_read_raw ctx ((q, res) # rest) =
    (case read_node_history ctx q res of (ctx', r) \<Rightarrow>
      (case interop_hist_read_raw ctx' rest of (ctx'', rs) \<Rightarrow> (ctx'', r # rs)))"

definition slot_zero :: cp_slot where
  "slot_zero = \<lparr>token0 = 0, token1 = 0, cp_offset = 0, inUse = False, released = False\<rparr>"

text \<open>\<open>UA_DateTime_fromUnixTime (1784887200)\<close> and the five samples.\<close>

definition hist_base :: int where
  "hist_base = 1784887200 * UA_DATETIME_SEC + UA_DATETIME_UNIX_EPOCH"

definition hist_sample :: "nat \<Rightarrow> datavalue" where
  "hist_sample i =
    (let t = word_of_int (hist_base + int (i * 5) * UA_DATETIME_SEC)
     in DataValue True (Scalar (VDouble (dadd (DFin False 20) (DFin False (of_nat i))))) (Some GOOD) (Some t) None (Some t) None)"

definition interop_make_history_database :: "nodeid \<Rightarrow> InteropHistCtx" where
  "interop_make_history_database n = \<lparr>histNodeId = n, samples = map hist_sample [0..<5], cps = replicate 16 slot_zero\<rparr>"

section \<open>The table of continuation points\<close>

lemma first_index_Some:
  "first_index P xs = Some i \<longleftrightarrow> i < length xs \<and> P (xs ! i) \<and> (\<forall>j < i. \<not> P (xs ! j))"
proof (induction xs arbitrary: i)
  case (Cons x xs)
  then show ?case by (cases i) (auto simp: less_Suc_eq_0_disj)
qed simp

lemma first_index_None: "first_index P xs = None \<longleftrightarrow> (\<forall>x\<in>set xs. \<not> P x)"
  by (induction xs) auto

definition slot_token :: "nat \<Rightarrow> byte" where
  "slot_token c = word_of_nat (1 + c)"

definition new_slot :: "nat \<Rightarrow> nat \<Rightarrow> cp_slot" where
  "new_slot c pos = \<lparr>token0 = slot_token c, token1 = 0xA5, cp_offset = pos, inUse = True, released = False\<rparr>"

lemma slot_token_inj:
  assumes "c < 16" "d < 16"
  shows "slot_token c = slot_token d \<longleftrightarrow> c = d"
proof
  assume e: "slot_token c = slot_token d"
  have small: "unat (word_of_nat n :: byte) = n" if "n < 256" for n using that by (simp add: unat_of_nat)
  have "1 + c = unat (slot_token c)" using small [of "1 + c"] assms(1) by (simp only: slot_token_def)
  also have "\<dots> = unat (slot_token d)" by (simp only: e)
  also have "\<dots> = 1 + d" using small [of "1 + d"] assms(2) by (simp only: slot_token_def)
  finally show "c = d" by simp
qed simp

text \<open>The first m slots are in use, slot c with token c + 1 and an offset inside the samples.\<close>

definition cp_table :: "nat \<Rightarrow> InteropHistCtx \<Rightarrow> bool" where
  "cp_table m ctx \<longleftrightarrow> length (cps ctx) = 16 \<and> m \<le> 16 \<and> (\<forall>c < 16. inUse (cps ctx ! c) \<longleftrightarrow> c < m) \<and>
     (\<forall>c < m. token0 (cps ctx ! c) = slot_token c \<and> token1 (cps ctx ! c) = 0xA5 \<and>
        1 \<le> cp_offset (cps ctx ! c) \<and> cp_offset (cps ctx ! c) < 5)"

lemma cp_table_lookup:
  assumes "cp_table m ctx" "first_index (cp_matches cpIn) (cps ctx) = Some c"
  shows "c < m \<and> cpIn ! 0 = slot_token c"
  using assms by (auto simp: cp_table_def first_index_Some cp_matches_def)

lemma cp_table_found:
  assumes "cp_table m ctx" "c < m"
  shows "first_index (cp_matches [slot_token c, 0xA5]) (cps ctx) = Some c"
proof -
  have "c < 16" using assms by (simp add: cp_table_def)
  then show ?thesis using assms slot_token_inj [of _ c]
    by (auto simp: cp_table_def first_index_Some cp_matches_def)
qed

definition slot_for :: "nat \<Rightarrow> byte list \<Rightarrow> nat \<Rightarrow> bool" where
  "slot_for m cpIn c \<longleftrightarrow> (cpIn = [] \<and> c = (if m < 16 then m else 0)) \<or> (cpIn \<noteq> [] \<and> c < m \<and> cpIn ! 0 = slot_token c)"

lemma slot_for_less: "cp_table m ctx \<Longrightarrow> slot_for m cpIn c \<Longrightarrow> c < 16"
  by (auto simp: slot_for_def cp_table_def split: if_splits)

lemma issue_slot:
  assumes "cp_table m ctx" "slot_for m cpIn c"
  shows "issue_cp ctx cpIn pos = (ctx\<lparr>cps := (cps ctx)[c := new_slot c pos]\<rparr>, [slot_token c, 0xA5])"
proof -
  let ?P = "\<lambda>s. \<not> inUse s \<or> (0 < length cpIn \<and> token0 s = cpIn ! 0)"
  have c16: "c < 16" using slot_for_less [OF assms] .
  have "(case first_index ?P (cps ctx) of None \<Rightarrow> 0 | Some c \<Rightarrow> c) = c"
  proof (cases "cpIn = [] \<and> m = 16")
    case True
    then have "first_index ?P (cps ctx) = None" using assms(1)
      by (auto simp: first_index_None cp_table_def in_set_conv_nth)
    then show ?thesis using True assms(2) by (simp add: slot_for_def)
  next
    case False
    have "first_index ?P (cps ctx) = Some c"
      using assms False c16 slot_token_inj [of _ c] by (auto simp: first_index_Some slot_for_def cp_table_def split: if_splits)
    then show ?thesis by simp
  qed
  moreover have "s\<lparr>inUse := True, released := False, cp_offset := pos, token0 := word_of_nat (1 + c), token1 := 0xA5\<rparr> = new_slot c pos" for s
    by (cases s) (simp add: new_slot_def slot_token_def)
  moreover have "token0 (new_slot c pos) = slot_token c" "token1 (new_slot c pos) = 0xA5" by (simp_all add: new_slot_def)
  ultimately show ?thesis unfolding issue_cp_def Let_def by (simp only:)
qed

lemma length_matched: "length (matched ctx q) \<le> 5"
  by (simp add: matched_def)

text \<open>What serving a page does to the table.\<close>

lemma serve_page_table:
  assumes "cp_table m ctx" "slot_for m (cp_bytes (hr_continuationPoint q)) c" "serve_page ctx q pos res = (ctx', r)"
  shows "ctx' = ctx \<or> (\<exists>stop. 1 \<le> stop \<and> stop < 5 \<and> ctx' = ctx\<lparr>cps := (cps ctx)[c := new_slot c stop]\<rparr>)"
proof -
  let ?ms = "matched ctx q" and ?n = "page_size q (length (matched ctx q))"
  show ?thesis
  proof (cases "pos \<le> length ?ms \<and> hasHistoryData q \<and> pos + ?n < length ?ms")
    case True
    then have "ctx' = ctx\<lparr>cps := (cps ctx)[c := new_slot c (pos + ?n)]\<rparr>"
      using assms(3) issue_slot [OF assms(1,2)] by (auto simp: serve_page_def Let_def)
    moreover have "0 < ?n" using True by (auto simp: page_size_def Let_def)
    ultimately show ?thesis using True length_matched [of ctx q] by (intro disjI2 exI [of _ "pos + ?n"]) auto
  next
    case False
    then have "ctx' = ctx" using assms(3) by (auto simp: serve_page_def Let_def split: if_splits)
    then show ?thesis ..
  qed
qed

text \<open>The three effects a request can have on the table.\<close>

definition table_effect :: "nat \<Rightarrow> byte list \<Rightarrow> InteropHistCtx \<Rightarrow> InteropHistCtx \<Rightarrow> bool" where
  "table_effect m cpIn ctx ctx' \<longleftrightarrow> ctx' = ctx
     \<or> (\<exists>c < m. cpIn \<noteq> [] \<and> cpIn ! 0 = slot_token c \<and> ctx' = ctx\<lparr>cps := (cps ctx)[c := (cps ctx ! c)\<lparr>released := True\<rparr>]\<rparr>)
     \<or> (\<exists>c stop. slot_for m cpIn c \<and> 1 \<le> stop \<and> stop < 5 \<and> ctx' = ctx\<lparr>cps := (cps ctx)[c := new_slot c stop]\<rparr>)"

lemma read_node_history_effect:
  assumes "cp_table m ctx" "read_node_history ctx q res = (ctx', r)"
  shows "table_effect m (cp_bytes (hr_continuationPoint q)) ctx ctx'"
proof -
  let ?cp = "cp_bytes (hr_continuationPoint q)"
  have page: "table_effect m ?cp ctx ctx'" if "slot_for m ?cp c" "serve_page ctx q pos res = (ctx', r)" for c pos
    using serve_page_table [OF assms(1) that] that(1) by (auto simp: table_effect_def)
  have same: "table_effect m ?cp ctx ctx" by (simp add: table_effect_def)
  show ?thesis
  proof (cases "hr_nodeId q \<noteq> histNodeId ctx \<or> ?cp = []")
    case True
    have "slot_for m ?cp (if m < 16 then m else 0)" if "?cp = []" using that by (simp add: slot_for_def)
    with True page same assms(2) show ?thesis by (auto simp: read_node_history_def split: if_splits)
  next
    case False
    show ?thesis
    proof (cases "first_index (cp_matches ?cp) (cps ctx)")
      case None
      with False same assms(2) show ?thesis by (auto simp: read_node_history_def)
    next
      case (Some c)
      with cp_table_lookup [OF assms(1) Some] False have c: "c < m" "?cp ! 0 = slot_token c" "slot_for m ?cp c"
        by (auto simp: slot_for_def)
      then have rel: "table_effect m ?cp ctx (ctx\<lparr>cps := (cps ctx)[c := (cps ctx ! c)\<lparr>released := True\<rparr>]\<rparr>)"
        using False by (auto simp: table_effect_def)
      show ?thesis using Some False assms(2) page [OF c(3)] same rel
        by (auto simp: read_node_history_def split: if_splits)
    qed
  qed
qed

lemma effect_frame: "table_effect m cpIn ctx ctx' \<Longrightarrow> samples ctx' = samples ctx \<and> histNodeId ctx' = histNodeId ctx"
  by (auto simp: table_effect_def)

lemma new_slot_table:
  assumes "cp_table m ctx" "c \<le> m" "c < 16" "1 \<le> pos" "pos < 5"
  shows "cp_table (max m (Suc c)) (ctx\<lparr>cps := (cps ctx)[c := new_slot c pos]\<rparr>)"
  using assms by (auto simp: cp_table_def nth_list_update new_slot_def max_def)

lemma released_slot_table:
  "cp_table m ctx \<Longrightarrow> c < m \<Longrightarrow> cp_table m (ctx\<lparr>cps := (cps ctx)[c := (cps ctx ! c)\<lparr>released := True\<rparr>]\<rparr>)"
  by (auto simp: cp_table_def nth_list_update)

lemma slot_for_le: "slot_for m cpIn c \<Longrightarrow> c \<le> m"
  by (auto simp: slot_for_def split: if_splits)

lemma effect_table:
  assumes "cp_table m ctx" "table_effect m cpIn ctx ctx'"
  shows "\<exists>m'. cp_table m' ctx' \<and> m \<le> m' \<and> m' \<le> m + 1"
  using assms(2) unfolding table_effect_def
proof (elim disjE exE conjE)
  assume "ctx' = ctx" with assms(1) show ?thesis by auto
next
  fix c assume c: "c < m" "ctx' = ctx\<lparr>cps := (cps ctx)[c := (cps ctx ! c)\<lparr>released := True\<rparr>]\<rparr>"
  have "cp_table m ctx'" unfolding c(2) by (rule released_slot_table [OF assms(1) c(1)])
  then show ?thesis by auto
next
  fix c stop assume s: "slot_for m cpIn c" "1 \<le> stop" "stop < 5" "ctx' = ctx\<lparr>cps := (cps ctx)[c := new_slot c stop]\<rparr>"
  have "cp_table (max m (Suc c)) ctx'"
    unfolding s(4) by (rule new_slot_table [OF assms(1) slot_for_le [OF s(1)] slot_for_less [OF assms(1) s(1)] s(2,3)])
  then show ?thesis using slot_for_le [OF s(1)] by (intro exI [of _ "max m (Suc c)"]) auto
qed

text \<open>A slot that a request does not name keeps its contents while the table has room.\<close>

lemma effect_keeps_slot:
  assumes "cp_table m ctx" "table_effect m cpIn ctx ctx'" "k < m" "cpIn = [] \<or> cpIn ! 0 \<noteq> slot_token k" "m < 16 \<or> k \<noteq> 0"
  shows "cps ctx' ! k = cps ctx ! k"
proof -
  have "cps ctx' ! k = cps ctx ! k" if "ctx' = ctx\<lparr>cps := (cps ctx)[c := s]\<rparr>" "c \<noteq> k" for c s
    using that by simp
  moreover have "c \<noteq> k" if "slot_for m cpIn c" for c
    using that assms(3-5) by (auto simp: slot_for_def split: if_splits)
  moreover have "c \<noteq> k" if "cpIn \<noteq> []" "cpIn ! 0 = slot_token c" for c
    using that assms(4) by auto
  ultimately show ?thesis using assms(2) unfolding table_effect_def by blast
qed

section \<open>Reachable states\<close>

inductive hist_reachable :: "InteropHistCtx \<Rightarrow> bool" where
  start: "hist_reachable (interop_make_history_database n)"
| read: "hist_reachable ctx \<Longrightarrow> hist_reachable (fst (read_node_history ctx q res))"

lemma cp_table_start: "cp_table 0 (interop_make_history_database n)"
  by (simp add: cp_table_def interop_make_history_database_def slot_zero_def)

lemma read_cp_table:
  assumes "cp_table m ctx"
  shows "\<exists>m'. cp_table m' (fst (read_node_history ctx q res)) \<and> m \<le> m' \<and> m' \<le> m + 1"
  using effect_table [OF assms read_node_history_effect [OF assms]] by (metis prod.collapse)

lemma reachable_table: "hist_reachable ctx \<Longrightarrow> \<exists>m. cp_table m ctx"
  by (induction rule: hist_reachable.induct) (use cp_table_start read_cp_table in blast)+

lemma read_frame:
  assumes "cp_table m ctx"
  shows "samples (fst (read_node_history ctx q res)) = samples ctx \<and> histNodeId (fst (read_node_history ctx q res)) = histNodeId ctx"
  using effect_frame [OF read_node_history_effect [OF assms]] by (metis prod.collapse)

definition used_slots :: "InteropHistCtx \<Rightarrow> nat" where
  "used_slots ctx = length (filter inUse (cps ctx))"

lemma used_slots_table:
  assumes "cp_table m ctx"
  shows "used_slots ctx = m"
proof -
  have "length (cps ctx) = 16" "m \<le> 16" using assms by (auto simp: cp_table_def)
  moreover have "\<forall>s\<in>set (take m (cps ctx)). inUse s" "\<forall>s\<in>set (drop m (cps ctx)). \<not> inUse s"
    using assms by (auto simp: cp_table_def in_set_conv_nth)
  ultimately have "filter inUse (take m (cps ctx) @ drop m (cps ctx)) = take m (cps ctx)"
    by (simp only: filter_append) simp
  with \<open>length (cps ctx) = 16\<close> \<open>m \<le> 16\<close> show ?thesis by (simp add: used_slots_def)
qed

text \<open>C17 In every state the server can reach, whatever requests came in, the continuation points in
  use fill the table from the front, the token of slot c begins with the byte c + 1, and the offset
  it stands for lies inside the five samples, so that a resumed read never leaves the array; the
  samples themselves never change.\<close>

theorem hist_invariant:
  assumes "hist_reachable ctx"
  shows "length (cps ctx) = 16 \<and> samples ctx = map hist_sample [0..<5] \<and>
    (\<forall>c < 16. inUse (cps ctx ! c) \<longleftrightarrow> c < used_slots ctx) \<and>
    (\<forall>c < used_slots ctx. token0 (cps ctx ! c) = word_of_nat (c + 1) \<and> 1 \<le> cp_offset (cps ctx ! c) \<and> cp_offset (cps ctx ! c) < 5)"
proof -
  obtain m where m: "cp_table m ctx" using reachable_table [OF assms] ..
  have "samples ctx = map hist_sample [0..<5]"
    using assms by (induction rule: hist_reachable.induct)
      (simp add: interop_make_history_database_def, use reachable_table read_frame in metis)
  with m show ?thesis by (simp add: used_slots_table [OF m] cp_table_def slot_token_def)
qed

theorem hist_invariant_witness:
  "used_slots (fst (read_node_history (interop_make_history_database nodeid_null)
     \<lparr>hr_nodeId = nodeid_null, hr_continuationPoint = None, hr_release = False, startTime = 0, endTime = 0,
      numValuesPerNode = 2, hasHistoryData = True\<rparr> \<lparr>hs_statusCode = 0, hs_dataValues = None, hs_continuationPoint = None\<rparr>)) \<le> 16"
  using hist_invariant [OF hist_reachable.read [OF hist_reachable.start [of nodeid_null]]]
  by (metis (lifting) length_filter_le used_slots_def)

section \<open>Reading all pages\<close>

definition hist_blank :: hist_result where
  "hist_blank = \<lparr>hs_statusCode = GOOD, hs_dataValues = None, hs_continuationPoint = None\<rparr>"

text \<open>Requests of other clients.\<close>

definition hist_run :: "InteropHistCtx \<Rightarrow> hist_request list \<Rightarrow> InteropHistCtx" where
  "hist_run ctx qs = foldl (\<lambda>ctx q. fst (read_node_history ctx q hist_blank)) ctx qs"

text \<open>A client that reads until it gets no continuation point. Between its requests other
  clients' requests are served, one list per gap; True means the last page has been read.\<close>

fun hist_session :: "InteropHistCtx \<Rightarrow> hist_request \<Rightarrow> hist_request list list \<Rightarrow> datavalue list \<times> bool" where
  "hist_session ctx q gaps = (case read_node_history ctx q hist_blank of (ctx', r) \<Rightarrow>
     let d = (case hs_dataValues r of None \<Rightarrow> [] | Some d \<Rightarrow> d)
     in case hs_continuationPoint r of None \<Rightarrow> (d, hs_statusCode r = GOOD)
        | Some tok \<Rightarrow>
           (case gaps of [] \<Rightarrow> (d, False)
            | g # gs \<Rightarrow> (case hist_session (hist_run ctx' g) (q\<lparr>hr_continuationPoint := Some tok\<rparr>) gs of
                          (ds, fin) \<Rightarrow> (d @ ds, fin))))"

declare hist_session.simps [simp del]

definition names_slot :: "nat \<Rightarrow> hist_request \<Rightarrow> bool" where
  "names_slot k q \<longleftrightarrow> cp_bytes (hr_continuationPoint q) \<noteq> [] \<and> cp_bytes (hr_continuationPoint q) ! 0 = slot_token k"

lemma hist_run_keeps:
  assumes "cp_table m ctx" "k < m" "m + length qs \<le> 16" "\<forall>q\<in>set qs. \<not> names_slot k q"
  shows "\<exists>m'. cp_table m' (hist_run ctx qs) \<and> m \<le> m' \<and> m' \<le> m + length qs \<and>
    cps (hist_run ctx qs) ! k = cps ctx ! k \<and> samples (hist_run ctx qs) = samples ctx \<and> histNodeId (hist_run ctx qs) = histNodeId ctx"
  using assms
proof (induction qs arbitrary: ctx m)
  case (Cons q qs)
  let ?c = "fst (read_node_history ctx q hist_blank)"
  have eff: "table_effect m (cp_bytes (hr_continuationPoint q)) ctx ?c"
    using read_node_history_effect [OF Cons.prems(1)] by (metis prod.collapse)
  obtain m1 where m1: "cp_table m1 ?c" "m \<le> m1" "m1 \<le> m + 1" using effect_table [OF Cons.prems(1) eff] by blast
  have "cps ?c ! k = cps ctx ! k"
    using effect_keeps_slot [OF Cons.prems(1) eff Cons.prems(2)] Cons.prems(3,4) by (auto simp: names_slot_def)
  moreover obtain m' where "cp_table m' (hist_run ?c qs)" "m1 \<le> m'" "m' \<le> m1 + length qs" "cps (hist_run ?c qs) ! k = cps ?c ! k"
      "samples (hist_run ?c qs) = samples ?c" "histNodeId (hist_run ?c qs) = histNodeId ?c"
    using Cons.IH [OF m1(1)] Cons.prems(2-4) m1 by auto
  moreover have "hist_run ctx (q # qs) = hist_run ?c qs" by (simp add: hist_run_def)
  ultimately show ?case using m1 effect_frame [OF eff] by (intro exI [of _ m']) auto
qed (auto simp: hist_run_def)

text \<open>One page of a read that resumes at \<open>pos\<close>, with its slot.\<close>

lemma serve_page_resume:
  assumes "cp_table m ctx" "slot_for m (cp_bytes (hr_continuationPoint q)) k" "hasHistoryData q"
    and "pos \<le> length (matched ctx q)"
  defines "n \<equiv> page_size q (length (matched ctx q))"
  shows "serve_page ctx q pos hist_blank =
    (if pos + n < length (matched ctx q)
     then (ctx\<lparr>cps := (cps ctx)[k := new_slot k (pos + n)]\<rparr>,
           \<lparr>hs_statusCode = GOOD, hs_dataValues = Some (take n (drop pos (matched ctx q))), hs_continuationPoint = Some [slot_token k, 0xA5]\<rparr>)
     else (ctx, \<lparr>hs_statusCode = GOOD, hs_dataValues = Some (drop pos (matched ctx q)), hs_continuationPoint = None\<rparr>))"
  using assms(3,4) issue_slot [OF assms(1,2)]
  by (auto simp: serve_page_def Let_def hist_status_def hist_blank_def n_def)

lemma matched_cong: "samples ctx' = samples ctx \<Longrightarrow> startTime q' = startTime q \<Longrightarrow> endTime q' = endTime q \<Longrightarrow> matched ctx' q' = matched ctx q"
  by (simp add: matched_def)

lemma page_size_pos: "0 < n \<Longrightarrow> 0 < page_size q n"
  by (simp add: page_size_def Let_def)

text \<open>A request of the client's own for the historian's node.\<close>

definition plain_read :: "InteropHistCtx \<Rightarrow> hist_request \<Rightarrow> bool" where
  "plain_read ctx q \<longleftrightarrow> hr_nodeId q = histNodeId ctx \<and> \<not> hr_release q \<and> hasHistoryData q"

lemma resumed_read:
  assumes "cp_table m ctx" "k < m" "cps ctx ! k = new_slot k pos" "plain_read ctx q" "hr_continuationPoint q = Some [slot_token k, 0xA5]"
  shows "read_node_history ctx q hist_blank = serve_page ctx q pos hist_blank"
  using assms cp_table_found [OF assms(1,2)] by (simp add: read_node_history_def plain_read_def cp_bytes_def new_slot_def)

text \<open>From a state in which the client's slot holds its position, the pages give the rest.\<close>

lemma session_resumed:
  assumes "cp_table m ctx" "k < m" "cps ctx ! k = new_slot k pos" "plain_read ctx q"
    and "hr_continuationPoint q = Some [slot_token k, 0xA5]" "pos \<le> length (matched ctx q)"
    and "m + length (concat gaps) \<le> 16" "\<forall>r\<in>set (concat gaps). \<not> names_slot k r"
    and "length (matched ctx q) - pos \<le> length gaps + 1"
  shows "hist_session ctx q gaps = (drop pos (matched ctx q), True)"
  using assms
proof (induction gaps arbitrary: ctx m q pos)
  case Nil
  have sf: "slot_for m (cp_bytes (hr_continuationPoint q)) k" using Nil.prems(2,5) by (simp add: slot_for_def cp_bytes_def)
  have "\<not> pos + page_size q (length (matched ctx q)) < length (matched ctx q)"
    using Nil.prems(9) page_size_pos [of "length (matched ctx q)" q] by (cases "matched ctx q = []") auto
  then have "read_node_history ctx q hist_blank =
      (ctx, \<lparr>hs_statusCode = GOOD, hs_dataValues = Some (drop pos (matched ctx q)), hs_continuationPoint = None\<rparr>)"
    using resumed_read [OF Nil.prems(1-5)] serve_page_resume [OF Nil.prems(1) sf _ Nil.prems(6)] Nil.prems(4)
    by (simp add: plain_read_def)
  then show ?case by (simp add: hist_session.simps Let_def)
next
  case (Cons g gs)
  let ?ms = "matched ctx q" and ?n = "page_size q (length (matched ctx q))"
  have sf: "slot_for m (cp_bytes (hr_continuationPoint q)) k" using Cons.prems(2,5) by (simp add: slot_for_def cp_bytes_def)
  have page: "read_node_history ctx q hist_blank = serve_page ctx q pos hist_blank"
    by (rule resumed_read [OF Cons.prems(1-5)])
  have hd: "hasHistoryData q" using Cons.prems(4) by (simp add: plain_read_def)
  show ?case
  proof (cases "pos + ?n < length ?ms")
    case False
    then show ?thesis using page serve_page_resume [OF Cons.prems(1) sf hd Cons.prems(6)]
      by (simp add: hist_session.simps [of ctx q] Let_def)
  next
    case True
    let ?c = "ctx\<lparr>cps := (cps ctx)[k := new_slot k (pos + ?n)]\<rparr>" and ?q = "q\<lparr>hr_continuationPoint := Some [slot_token k, 0xA5]\<rparr>"
    have npos: "0 < ?n" using True page_size_pos [of "length ?ms" q] by linarith
    have k16: "k < 16" using Cons.prems(1,2) by (simp add: cp_table_def)
    have "cp_table (max m (Suc k)) ?c"
      using new_slot_table [OF Cons.prems(1), of k "pos + ?n"] Cons.prems(2) k16 npos True length_matched [of ctx q] by simp
    moreover have "max m (Suc k) = m" using Cons.prems(2) by simp
    ultimately have tab: "cp_table m ?c" by (simp only:)
    obtain m' where m': "cp_table m' (hist_run ?c g)" "m \<le> m'" "m' \<le> m + length g" "cps (hist_run ?c g) ! k = cps ?c ! k"
        "samples (hist_run ?c g) = samples ?c" "histNodeId (hist_run ?c g) = histNodeId ?c"
      using hist_run_keeps [OF tab Cons.prems(2), of g] Cons.prems(7,8) by auto
    have ms: "matched (hist_run ?c g) ?q = ?ms" using m'(5) by (intro matched_cong) simp_all
    have "hist_session (hist_run ?c g) ?q gs = (drop (pos + ?n) (matched (hist_run ?c g) ?q), True)"
    proof (rule Cons.IH [OF m'(1)])
      show "cps (hist_run ?c g) ! k = new_slot k (pos + page_size q (length ?ms))"
        using m'(4) k16 Cons.prems(1) by (simp add: cp_table_def)
      show "k < m'" using Cons.prems(2) m'(2) by simp
      show "plain_read (hist_run ?c g) ?q" using Cons.prems(4) m'(6) by (simp add: plain_read_def)
      show "pos + ?n \<le> length (matched (hist_run ?c g) ?q)" using True by (simp only: ms less_imp_le)
      show "m' + length (concat gs) \<le> 16" using Cons.prems(7) m'(3) by simp
      show "\<forall>r\<in>set (concat gs). \<not> names_slot k r" using Cons.prems(8) by simp
      show "length (matched (hist_run ?c g) ?q) - (pos + ?n) \<le> length gs + 1" using Cons.prems(9) npos by (simp only: ms length_Cons)
    qed simp
    then show ?thesis unfolding ms using page serve_page_resume [OF Cons.prems(1) sf hd Cons.prems(6)] True
      by (simp add: hist_session.simps [of ctx q] Let_def) (metis append_take_drop_id drop_drop add.commute)
  qed
qed

text \<open>C7 Paging: a client that follows the continuation points gets all samples of its interval,
  each once and in order, and is told when it is done. This holds from every reachable state,
  for every page size, and while other clients' requests are served in between, as long as the
  table has room for all of them and nobody else uses the client's token.\<close>

theorem hist_paging_complete:
  assumes "hist_reachable ctx" and "plain_read ctx q" and "hr_continuationPoint q = None"
    and "used_slots ctx + length (concat gaps) < 16" and "\<forall>r\<in>set (concat gaps). \<not> names_slot (used_slots ctx) r"
    and "4 \<le> length gaps"
  shows "hist_session ctx q gaps = (matched ctx q, True)"
proof -
  obtain m where m: "cp_table m ctx" using reachable_table [OF assms(1)] ..
  have used: "used_slots ctx = m" by (rule used_slots_table [OF m])
  then have m16: "m < 16" using assms(4) by simp
  let ?ms = "matched ctx q" and ?n = "page_size q (length (matched ctx q))"
  have sf: "slot_for m (cp_bytes (hr_continuationPoint q)) m" using assms(3) m16 by (simp add: slot_for_def cp_bytes_def)
  have hd: "hasHistoryData q" using assms(2) by (simp add: plain_read_def)
  have first: "read_node_history ctx q hist_blank = serve_page ctx q 0 hist_blank"
    using assms(2,3) by (simp add: read_node_history_def plain_read_def cp_bytes_def)
  show ?thesis
  proof (cases "?n < length ?ms")
    case False
    then show ?thesis using first serve_page_resume [OF m sf hd, of 0] by (simp add: hist_session.simps [of ctx q] Let_def)
  next
    case True
    let ?c = "ctx\<lparr>cps := (cps ctx)[m := new_slot m ?n]\<rparr>" and ?q = "q\<lparr>hr_continuationPoint := Some [slot_token m, 0xA5]\<rparr>"
    obtain g gs where gaps: "gaps = g # gs" using assms(6) by (cases gaps) auto
    have npos: "0 < ?n" using True page_size_pos [of "length ?ms" q] by linarith
    have tab: "cp_table (Suc m) ?c"
      using new_slot_table [OF m, of m ?n] m16 npos True length_matched [of ctx q] by simp
    obtain m' where m': "cp_table m' (hist_run ?c g)" "Suc m \<le> m'" "m' \<le> Suc m + length g" "cps (hist_run ?c g) ! m = cps ?c ! m"
        "samples (hist_run ?c g) = samples ?c" "histNodeId (hist_run ?c g) = histNodeId ?c"
      using hist_run_keeps [OF tab, of m g] assms(4,5) used gaps by auto
    have ms: "matched (hist_run ?c g) ?q = ?ms" using m'(5) by (intro matched_cong) simp_all
    have "hist_session (hist_run ?c g) ?q gs = (drop ?n (matched (hist_run ?c g) ?q), True)"
    proof (rule session_resumed [OF m'(1)])
      show "cps (hist_run ?c g) ! m = new_slot m (page_size q (length ?ms))" using m'(4) m16 m by (simp add: cp_table_def)
      show "m < m'" using m'(2) by simp
      show "plain_read (hist_run ?c g) ?q" using assms(2) m'(6) by (simp add: plain_read_def)
      show "?n \<le> length (matched (hist_run ?c g) ?q)" using True by (simp only: ms less_imp_le)
      show "m' + length (concat gs) \<le> 16" using assms(4) used gaps m'(3) by simp
      show "\<forall>r\<in>set (concat gs). \<not> names_slot m r" using assms(5) used gaps by simp
      show "length (matched (hist_run ?c g) ?q) - ?n \<le> length gs + 1"
        using assms(6) gaps npos length_matched [of ctx q] by (simp only: ms length_Cons)
    qed simp
    then show ?thesis unfolding ms using first serve_page_resume [OF m sf hd, of 0] True gaps
      by (simp add: hist_session.simps [of ctx q] Let_def)
  qed
qed

definition example_read :: hist_request where
  "example_read = \<lparr>hr_nodeId = nodeid_null, hr_continuationPoint = None, hr_release = False, startTime = 0, endTime = 0,
     numValuesPerNode = 2, hasHistoryData = True\<rparr>"

lemma used_slots_start: "used_slots (interop_make_history_database n) = 0"
  by (rule used_slots_table [OF cp_table_start])

theorem hist_paging_complete_witness:
  "hist_session (interop_make_history_database nodeid_null) example_read [[example_read], [], [example_read, example_read], []]
     = (map hist_sample [0..<5], True)"
proof -
  have "matched (interop_make_history_database nodeid_null) example_read = map hist_sample [0..<5]"
    by (simp add: matched_def in_interval_def example_read_def interop_make_history_database_def)
  then show ?thesis
    using hist_paging_complete [OF hist_reachable.start [of nodeid_null],
        of example_read "[[example_read], [], [example_read, example_read], []]"] used_slots_start [of nodeid_null]
    by (simp add: plain_read_def example_read_def interop_make_history_database_def names_slot_def cp_bytes_def)
qed

text \<open>A released slot stays released whatever is asked, unless the table is full and it is slot 0.\<close>

lemma read_keeps_released:
  assumes "cp_table m ctx" "k < m" "released (cps ctx ! k)" "m < 16 \<or> k \<noteq> 0"
  shows "released (cps (fst (read_node_history ctx q res)) ! k)"
proof (cases "names_slot k q")
  case True
  have "fst (read_node_history ctx q res) = ctx"
  proof (cases "first_index (cp_matches (cp_bytes (hr_continuationPoint q))) (cps ctx)")
    case None
    with True show ?thesis by (simp add: read_node_history_def names_slot_def)
  next
    case (Some c)
    then have "c < m" "slot_token c = slot_token k" using cp_table_lookup [OF assms(1) Some] True by (simp_all add: names_slot_def)
    then have "c = k" using slot_token_inj [of c k] assms(1,2) by (simp add: cp_table_def)
    with Some True assms(3) show ?thesis by (simp add: read_node_history_def names_slot_def)
  qed
  with assms(3) show ?thesis by simp
next
  case False
  then have "cps (fst (read_node_history ctx q res)) ! k = cps ctx ! k"
    using effect_keeps_slot [OF assms(1) read_node_history_effect [OF assms(1)] assms(2) _ assms(4)]
    by (metis names_slot_def prod.collapse)
  with assms(3) show ?thesis by simp
qed

lemma hist_run_released:
  assumes "cp_table m ctx" "k < m" "released (cps ctx ! k)" "0 < k \<or> m + length qs \<le> 16"
  shows "\<exists>m'. cp_table m' (hist_run ctx qs) \<and> m \<le> m' \<and> released (cps (hist_run ctx qs) ! k) \<and> histNodeId (hist_run ctx qs) = histNodeId ctx"
  using assms
proof (induction qs arbitrary: ctx m)
  case (Cons q qs)
  let ?c = "fst (read_node_history ctx q hist_blank)"
  obtain m1 where m1: "cp_table m1 ?c" "m \<le> m1" "m1 \<le> m + 1" using read_cp_table [OF Cons.prems(1)] by blast
  have "released (cps ?c ! k)" using read_keeps_released [OF Cons.prems(1-3)] Cons.prems(4) by auto
  then obtain m' where "cp_table m' (hist_run ?c qs)" "m1 \<le> m'" "released (cps (hist_run ?c qs) ! k)" "histNodeId (hist_run ?c qs) = histNodeId ?c"
    using Cons.IH [OF m1(1)] Cons.prems(2,4) m1 by auto
  moreover have "hist_run ctx (q # qs) = hist_run ?c qs" by (simp add: hist_run_def)
  ultimately show ?case using m1 read_frame [OF Cons.prems(1)] by (intro exI [of _ m']) auto
qed (auto simp: hist_run_def)

text \<open>C33 A released continuation point stays dead: after a client releases the point of slot k, resuming
  from it is refused with BadContinuationPointInvalid, whatever requests were served in between, also ones that use the released
  token. This holds without a bound for every slot but the first; for slot 0 it holds as long as the table's 16 slots have room for the
  requests in between, because a full table gives slot 0 to the next read (full_table_reuses_slot_0).\<close>

theorem hist_release_final:
  assumes "hist_reachable ctx" and "k < used_slots ctx" and "0 < k \<or> used_slots ctx + length others \<le> 16"
    and "hr_nodeId q = histNodeId ctx" and "hr_continuationPoint q = Some [slot_token k, 0xA5]"
  shows "hs_statusCode (snd (read_node_history
    (hist_run (fst (read_node_history ctx (q\<lparr>hr_release := True\<rparr>) hist_blank)) others) q hist_blank)) = BADCONTINUATIONPOINTINVALID"
proof -
  obtain m where m: "cp_table m ctx" using reachable_table [OF assms(1)] ..
  have km: "k < m" "0 < k \<or> m + length others \<le> 16" using assms(2,3) used_slots_table [OF m] by simp_all
  have k16: "k < length (cps ctx)" using m km(1) by (simp add: cp_table_def)
  let ?c = "fst (read_node_history ctx (q\<lparr>hr_release := True\<rparr>) hist_blank)"
  have rel: "released (cps ?c ! k) \<and> cp_table m ?c \<and> histNodeId ?c = histNodeId ctx"
  proof (cases "released (cps ctx ! k)")
    case True
    then show ?thesis using m assms(4,5) cp_table_found [OF m km(1)] by (simp add: read_node_history_def cp_bytes_def)
  next
    case False
    then have c: "?c = ctx\<lparr>cps := (cps ctx)[k := (cps ctx ! k)\<lparr>released := True\<rparr>]\<rparr>"
      using assms(4,5) cp_table_found [OF m km(1)] by (simp add: read_node_history_def cp_bytes_def)
    have "cp_table m ?c" unfolding c by (rule released_slot_table [OF m km(1)])
    then show ?thesis using k16 by (simp add: c)
  qed
  obtain m' where m': "cp_table m' (hist_run ?c others)" "m \<le> m'" "released (cps (hist_run ?c others) ! k)"
      "histNodeId (hist_run ?c others) = histNodeId ?c"
    using hist_run_released [of m ?c k others] rel km by blast
  have "first_index (cp_matches [slot_token k, 0xA5]) (cps (hist_run ?c others)) = Some k"
    using cp_table_found [OF m'(1), of k] km(1) m'(2) by simp
  then show ?thesis using m'(3,4) rel assms(4,5) by (simp add: read_node_history_def cp_bytes_def hist_status_def)
qed

lemma example_page:
  "read_node_history (interop_make_history_database nodeid_null) example_read hist_blank =
    ((interop_make_history_database nodeid_null)\<lparr>cps := (replicate 16 slot_zero)[0 := new_slot 0 2]\<rparr>,
     \<lparr>hs_statusCode = GOOD, hs_dataValues = Some [hist_sample 0, hist_sample 1], hs_continuationPoint = Some [slot_token 0, 0xA5]\<rparr>)"
proof -
  let ?c = "interop_make_history_database nodeid_null"
  have ms: "matched ?c example_read = map hist_sample [0..<5]"
    by (simp add: matched_def in_interval_def example_read_def interop_make_history_database_def)
  have hd: "hasHistoryData example_read" by (simp add: example_read_def)
  have n: "page_size example_read 5 = 2" by (simp add: page_size_def example_read_def)
  have "slot_for 0 (cp_bytes (hr_continuationPoint example_read)) 0" by (simp add: slot_for_def example_read_def cp_bytes_def)
  then have "serve_page ?c example_read 0 hist_blank =
    (?c\<lparr>cps := (cps ?c)[0 := new_slot 0 2]\<rparr>,
     \<lparr>hs_statusCode = GOOD, hs_dataValues = Some [hist_sample 0, hist_sample 1], hs_continuationPoint = Some [slot_token 0, 0xA5]\<rparr>)"
    using serve_page_resume [OF cp_table_start [of nodeid_null], of example_read 0 0] n hd
    by (simp add: ms n take_map del: upt_Suc) (simp add: upt_rec numeral_2_eq_2)
  moreover have "read_node_history ?c example_read hist_blank = serve_page ?c example_read 0 hist_blank"
    by (simp add: read_node_history_def example_read_def cp_bytes_def interop_make_history_database_def)
  ultimately show ?thesis by (simp add: interop_make_history_database_def)
qed

theorem hist_release_final_witness:
  "hs_statusCode (snd (read_node_history
    (hist_run (fst (read_node_history (fst (read_node_history (interop_make_history_database nodeid_null) example_read hist_blank))
       (example_read\<lparr>hr_continuationPoint := Some [slot_token 0, 0xA5], hr_release := True\<rparr>) hist_blank)) [example_read])
    (example_read\<lparr>hr_continuationPoint := Some [slot_token 0, 0xA5]\<rparr>) hist_blank)) = BADCONTINUATIONPOINTINVALID"
proof -
  let ?c = "fst (read_node_history (interop_make_history_database nodeid_null) example_read hist_blank)"
  have c: "?c = (interop_make_history_database nodeid_null)\<lparr>cps := (replicate 16 slot_zero)[0 := new_slot 0 2]\<rparr>"
    by (simp only: example_page fst_conv)
  have used: "used_slots ?c = 1"
    unfolding c by (simp add: used_slots_def new_slot_def slot_zero_def numeral_eq_Suc)
  have r: "hist_reachable ?c" by (intro hist_reachable.read hist_reachable.start)
  have n: "hr_nodeId example_read = histNodeId ?c" unfolding c by (simp add: example_read_def interop_make_history_database_def)
  show ?thesis
    using hist_release_final [OF r, of 0 "[example_read]" "example_read\<lparr>hr_continuationPoint := Some [slot_token 0, 0xA5]\<rparr>"]
    by (simp add: used n)
qed

text \<open>When all 16 slots are in use, no slot is ever freed, so the next read that needs a continuation
  point takes slot 0: a client that holds that token silently continues another client's read.\<close>

lemma full_table_reuses_slot_0:
  assumes "cp_table 16 ctx" "plain_read ctx q" "hr_continuationPoint q = None"
    and "page_size q (length (matched ctx q)) < length (matched ctx q)"
  shows "read_node_history ctx q hist_blank =
    (ctx\<lparr>cps := (cps ctx)[0 := new_slot 0 (page_size q (length (matched ctx q)))]\<rparr>,
     \<lparr>hs_statusCode = GOOD, hs_dataValues = Some (take (page_size q (length (matched ctx q))) (matched ctx q)),
      hs_continuationPoint = Some [slot_token 0, 0xA5]\<rparr>)"
proof -
  have "slot_for 16 (cp_bytes (hr_continuationPoint q)) 0" using assms(3) by (simp add: slot_for_def cp_bytes_def)
  moreover have "read_node_history ctx q hist_blank = serve_page ctx q 0 hist_blank"
    using assms(2,3) by (simp add: read_node_history_def plain_read_def cp_bytes_def)
  ultimately show ?thesis using serve_page_resume [OF assms(1), of q 0 0] assms(2,4) by (simp add: plain_read_def)
qed

end
