(* ===== verification/Traces.thy ===== *)
theory Traces
  imports Main "HOL-Library.State_Monad"
begin

text \<open>
  Computations that call the OPC UA stack. The stack is a parameter: what it answers to a call, and
  its next state. A computation is a state monad over the state of the stack and the trace of the
  calls made so far with their answers, so that statements about the order and the arguments of
  calls are statements about the trace. The predicate \<open>runs\<close> and its rules are the program logic
  the components use for such statements.
\<close>

type_synonym ('s, 'c, 'r) stack_api = "'s \<Rightarrow> 'c \<Rightarrow> 'r \<times> 's"
type_synonym ('s, 'c, 'r) traced = "'s \<times> ('c \<times> 'r) list"

definition perform :: "('s, 'c, 'r) stack_api \<Rightarrow> 'c \<Rightarrow> (('s, 'c, 'r) traced, 'r) state" where
  "perform api c = State (\<lambda>(s, tr). case api s c of (r, s') \<Rightarrow> (r, (s', tr @ [(c, r)])))"

text \<open>
  \<open>runs P m Q\<close>: started in a state of the stack with property P, the computation m ends in such a
  state, only extends the trace, and its result and the new part of the trace satisfy Q.
\<close>

definition runs :: "('s \<Rightarrow> bool) \<Rightarrow> (('s, 'c, 'r) traced, 'a) state \<Rightarrow> ('a \<Rightarrow> ('c \<times> 'r) list \<Rightarrow> bool) \<Rightarrow> bool" where
  "runs P m Q \<longleftrightarrow> (\<forall>s tr. P s \<longrightarrow> (case run_state m (s, tr) of (x, s', tr') \<Rightarrow>
     P s' \<and> (\<exists>new. tr' = tr @ new \<and> Q x new)))"

text \<open>The calls keep P.\<close>

definition keeps :: "('s \<Rightarrow> bool) \<Rightarrow> ('s, 'c, 'r) stack_api \<Rightarrow> bool" where
  "keeps P api \<longleftrightarrow> (\<forall>s c. P s \<longrightarrow> P (snd (api s c)))"

lemma runsI:
  assumes "\<And>s tr x s' tr'. P s \<Longrightarrow> run_state m (s, tr) = (x, s', tr') \<Longrightarrow> P s' \<and> (\<exists>new. tr' = tr @ new \<and> Q x new)"
  shows "runs P m Q"
  unfolding runs_def
proof (intro allI impI)
  fix s tr assume "P s"
  then show "case run_state m (s, tr) of (x, s', tr') \<Rightarrow> P s' \<and> (\<exists>new. tr' = tr @ new \<and> Q x new)"
    using assms [of s tr] by (cases "run_state m (s, tr)") auto
qed

lemma runsD:
  assumes "runs P m Q" "P s" "run_state m (s, tr) = (x, s', tr')"
  shows "P s' \<and> (\<exists>new. tr' = tr @ new \<and> Q x new)"
  using assms(1) [unfolded runs_def, rule_format, OF assms(2), of tr] assms(3) by simp

lemma runs_return: "Q x [] \<Longrightarrow> runs P (State_Monad.return x) Q"
  by (rule runsI) simp

lemma runs_perform:
  assumes "keeps P api" "\<And>s r. P s \<Longrightarrow> fst (api s c) = r \<Longrightarrow> Q r [(c, r)]"
  shows "runs P (perform api c) Q"
proof (rule runsI)
  fix s tr x s' tr' assume s: "P s" "run_state (perform api c) (s, tr) = (x, s', tr')"
  then have "api s c = (x, s')" "tr' = tr @ [(c, x)]" by (auto simp: perform_def split: prod.splits)
  moreover have "P (snd (api s c))" using assms(1) s(1) by (simp add: keeps_def)
  ultimately show "P s' \<and> (\<exists>new. tr' = tr @ new \<and> Q x new)" using assms(2) [OF s(1), of x] by simp
qed

lemma runs_bind:
  assumes "runs P m Q" "\<And>x new. Q x new \<Longrightarrow> runs P (f x) (\<lambda>y new'. R y (new @ new'))"
  shows "runs P (State_Monad.bind m f) R"
proof (rule runsI)
  fix s tr y s2 tr2 assume s: "P s" and r: "run_state (State_Monad.bind m f) (s, tr) = (y, s2, tr2)"
  obtain x s1 tr1 where m: "run_state m (s, tr) = (x, s1, tr1)" by (metis prod.exhaust)
  with r have f: "run_state (f x) (s1, tr1) = (y, s2, tr2)" by simp
  obtain new where new: "P s1" "tr1 = tr @ new" "Q x new" using runsD [OF assms(1) s m] by blast
  show "P s2 \<and> (\<exists>new. tr2 = tr @ new \<and> R y new)"
    using runsD [OF assms(2) [OF new(3)] new(1) f] new(2) by auto
qed

lemma runs_mono:
  assumes "runs P m Q" "\<And>x new. Q x new \<Longrightarrow> R x new"
  shows "runs P m R"
proof (rule runsI)
  fix s tr x s' tr' assume "P s" "run_state m (s, tr) = (x, s', tr')"
  with runsD [OF assms(1)] assms(2) show "P s' \<and> (\<exists>new. tr' = tr @ new \<and> R x new)" by blast
qed

lemma runs_call: "keeps P api \<Longrightarrow> runs P (perform api c) (\<lambda>r new. new = [(c, r)])"
  by (rule runs_perform) simp_all

text \<open>The rules as a calculus: they apply by the shape of the computation, so that \<open>auto intro!: runs_calculus\<close>
  reduces a statement about a computation to one about the answers of the stack. A computation
  that has a lemma of its own is left through \<open>runs_mono\<close>.\<close>

lemma runs_bindI: "runs P m (\<lambda>x new. runs P (f x) (\<lambda>y new'. R y (new @ new'))) \<Longrightarrow> runs P (State_Monad.bind m f) R"
  by (rule runs_bind)

abbreviation anything :: "'s \<Rightarrow> bool" where "anything \<equiv> (\<lambda>_. True)"

lemma keeps_anything: "keeps anything api"
  by (simp add: keeps_def)

lemma runs_performI: "(\<And>r. Q r [(c, r)]) \<Longrightarrow> runs anything (perform api c) Q"
  by (rule runs_perform [OF keeps_anything])

lemmas runs_calculus = runs_bindI runs_performI runs_return

text \<open>The calls of one kind, in order.\<close>

definition made :: "('c \<Rightarrow> bool) \<Rightarrow> ('c \<times> 'r) list \<Rightarrow> 'c list" where
  "made p tr = filter p (map fst tr)"

lemma made_simps [simp]: "made p [] = []" "made p (e # tr) = (if p (fst e) then fst e # made p tr else made p tr)"
    "made p (tr @ tr') = made p tr @ made p tr'"
  by (simp_all add: made_def)

end
