(* ===== verification/Server_Nodes.thy ===== *)
theory Server_Nodes
  imports History Traces
begin

text \<open>
  server.c: filling the server's address space from the fixture, its events, alarms and behaviors.
  The stack is the parameter \<open>api\<close>; what it is asked, and what it answers, is the trace of the
  computation (theory Traces).
\<close>

section \<open>Calls to the stack\<close>

record node_place =
  np_nodeId :: nodeid
  np_parent :: nodeid
  np_refType :: nodeid
  np_browseName :: qname
  np_displayName :: ltext
  np_description :: ltext

record variable_attr =
  va_dataType :: nodeid
  va_valueRank :: int
  va_accessLevel :: byte
  va_userAccessLevel :: byte
  va_historizing :: bool
  va_arrayDimensions :: "u32 list"
  va_value :: variant
  va_valueDimensions :: "u32 list" \<comment> \<open>value.arrayDimensions\<close>

datatype method_impl = FixtureMethod "method_callback option" | AlarmReset

datatype repeated = EmitBaseEvent nodeid nodeid | BehaviorTick BehaviorCtx

datatype server_call =
    AddNamespace string
  | AddObjectNode node_place nodeid byte \<comment> \<open>type definition, event notifier\<close>
  | AddVariableNode node_place nodeid variable_attr
  | AddMethodNode node_place method_impl "UA_Argument list" "UA_Argument list"
  | AddEURangeProperty nodeid double double
  | WriteRange nodeid double double
  | BrowsePath nodeid "qname list"
  | ReadValue nodeid
  | WriteDataValue nodeid datavalue
  | SetHistoryDatabase InteropHistCtx
  | AddObjectTypeNode nodeid nodeid qname string string
  | AddRepeatedCallback repeated u32
  | CreateEvent nodeid nodeid u16 ltext
  | AddReference nodeid nodeid nodeid
  | CreateCondition nodeid nodeid qname nodeid nodeid
  | SetConditionFieldProperty nodeid string string variant
  | SetConditionField nodeid string variant
  | WriteObjectProperty nodeid string variant
  | TriggerConditionEvent nodeid nodeid

record ret =
  rt_status :: u32
  rt_ns :: u16
  rt_node :: nodeid
  rt_value :: variant
  rt_found :: bool

type_synonym ('s, 'c) api = "('s, 'c, ret) stack_api"
type_synonym ('s, 'c) world = "('s, 'c, ret) traced"

definition world_addns :: "('s, server_call) api \<Rightarrow> ('s, server_call) world add_namespace" where
  "world_addns api w uri = (case run_state (perform api (AddNamespace uri)) w of (r, w') \<Rightarrow> (rt_ns r, w'))"

definition resolve :: "('s, server_call) api \<Rightarrow> cstr \<Rightarrow> (('s, server_call) world, nodeid) state" where
  "resolve api s = State (\<lambda>w. resolve_nodeid (world_addns api) w s)"

section \<open>Fixture nodes\<close>

definition en :: "string \<Rightarrow> ltext" where
  "en s = \<lparr>lt_locale = Some ''en'', lt_text = Some s\<rparr>"

text \<open>\<open>strstr (s, pat) != NULL\<close>.\<close>

fun contains :: "string \<Rightarrow> string \<Rightarrow> bool" where
  "contains pat [] = starts_with pat []"
| "contains pat (c # cs) = (starts_with pat (c # cs) \<or> contains pat cs)"

definition id_contains :: "string \<Rightarrow> cstr \<Rightarrow> bool" where
  "id_contains pat s = (case s of None \<Rightarrow> False | Some t \<Rightarrow> contains pat t)"

definition set_eu_range :: "('s, server_call) api \<Rightarrow> nodeid \<Rightarrow> double \<Rightarrow> double \<Rightarrow> (('s, server_call) world, unit) state" where
  "set_eu_range api varId low high = do {
     bpr \<leftarrow> perform api (BrowsePath varId [\<lparr>qn_namespaceIndex = 0, qn_name = Some ''EURange''\<rparr>]);
     _ \<leftarrow> (if rt_status bpr = GOOD \<and> rt_found bpr then perform api (WriteRange (rt_node bpr) low high)
          else perform api (AddEURangeProperty varId low high));
     State_Monad.return ()
   }"

definition variable_attributes :: "cjson_lib \<Rightarrow> int \<Rightarrow> FixtureNode \<Rightarrow> variable_attr" where
  "variable_attributes J utcoff nd =
    (let val = (case initialValue nd of None \<Rightarrow> EmptyVariant
                | Some iv \<Rightarrow> build_variant J utcoff (Some iv) (dataType nd) (valueRank nd))
     in \<lparr>va_dataType = data_type_nodeid (dataType nd), va_valueRank = valueRank nd,
         va_accessLevel = accessLevel nd, va_userAccessLevel = accessLevel nd,
         va_historizing = id_contains ''s=History.Temperature'' (fn_nodeId nd),
         va_arrayDimensions = arrayDimensions nd, va_value = val,
         va_valueDimensions = (if 1 < length (arrayDimensions nd) \<and> val \<noteq> EmptyVariant then arrayDimensions nd else [])\<rparr>)"

definition node_place_of :: "FixtureNode \<Rightarrow> nodeid \<Rightarrow> nodeid \<Rightarrow> node_place" where
  "node_place_of nd node parent = \<lparr>np_nodeId = node, np_parent = parent, np_refType = ref_type_id (referenceType nd),
     np_browseName = parse_browse_name (browseName nd), np_displayName = en (or_empty (displayName nd)),
     np_description = en (or_empty (fn_description nd))\<rparr>"

definition resolve_type :: "('s, server_call) api \<Rightarrow> cstr \<Rightarrow> u32 \<Rightarrow> (('s, server_call) world, nodeid) state" where
  "resolve_type api typ fallback = (case typ of
     Some t \<Rightarrow> resolve api (Some t) | None \<Rightarrow> State_Monad.return (nodeid_numeric 0 fallback))"

definition add_object :: "('s, server_call) api \<Rightarrow> FixtureNode \<Rightarrow> nodeid \<Rightarrow> nodeid \<Rightarrow> (('s, server_call) world, u32) state" where
  "add_object api nd node parent = do {
     ty \<leftarrow> resolve_type api (typeDefinition nd) 58;
     r \<leftarrow> perform api (AddObjectNode (node_place_of nd node parent) ty
            (if id_contains ''s=Events.Source'' (fn_nodeId nd) then 1 else 0));
     State_Monad.return (rt_status r)
   }"

definition add_variable ::
  "cjson_lib \<Rightarrow> int \<Rightarrow> ('s, server_call) api \<Rightarrow> FixtureNode \<Rightarrow> nodeid \<Rightarrow> nodeid \<Rightarrow> (('s, server_call) world, u32) state" where
  "add_variable J utcoff api nd node parent = do {
     ty \<leftarrow> resolve_type api (typeDefinition nd) 63;
     r \<leftarrow> perform api (AddVariableNode (node_place_of nd node parent) ty (variable_attributes J utcoff nd));
     _ \<leftarrow> (if rt_status r = GOOD \<and> hasEuRange nd then set_eu_range api node (euRangeLow nd) (euRangeHigh nd)
          else State_Monad.return ());
     State_Monad.return (rt_status r)
   }"

definition add_method :: "('s, server_call) api \<Rightarrow> FixtureNode \<Rightarrow> nodeid \<Rightarrow> nodeid \<Rightarrow> (('s, server_call) world, u32) state" where
  "add_method api nd node parent = do {
     r \<leftarrow> perform api (AddMethodNode (node_place_of nd node parent) (FixtureMethod (method_callback_for (methodBehavior nd)))
            (build_ua_arguments (inputArgs nd)) (build_ua_arguments (outputArgs nd)));
     State_Monad.return (rt_status r)
   }"

definition add_node :: "cjson_lib \<Rightarrow> int \<Rightarrow> ('s, server_call) api \<Rightarrow> FixtureNode \<Rightarrow> (('s, server_call) world, u32) state" where
  "add_node J utcoff api nd = do {
     node \<leftarrow> resolve api (fn_nodeId nd);
     parent \<leftarrow> resolve api (parentNodeId nd);
     case nodeClass nd of
       NODE_OBJECT \<Rightarrow> add_object api nd node parent
     | NODE_VARIABLE \<Rightarrow> add_variable J utcoff api nd node parent
     | NODE_METHOD \<Rightarrow> add_method api nd node parent
   }"

text \<open>A node that cannot be added is reported and skipped.\<close>

fun add_nodes :: "cjson_lib \<Rightarrow> int \<Rightarrow> ('s, server_call) api \<Rightarrow> FixtureNode list \<Rightarrow> (('s, server_call) world, unit) state" where
  "add_nodes J utcoff api [] = State_Monad.return ()"
| "add_nodes J utcoff api (nd # nds) = do { _ \<leftarrow> add_node J utcoff api nd; add_nodes J utcoff api nds }"

fun register_namespaces :: "('s, server_call) api \<Rightarrow> Namespace list \<Rightarrow> (('s, server_call) world, u16 list) state" where
  "register_namespaces api [] = State_Monad.return []"
| "register_namespaces api (n # ns) = do {
     r \<leftarrow> perform api (AddNamespace (or_empty (ns_uri n)));
     rest \<leftarrow> register_namespaces api ns;
     State_Monad.return (rt_ns r # rest)
   }"

section \<open>History, events and alarms\<close>

definition model_id :: "string \<Rightarrow> cstr" where
  "model_id s = Some (''nsu=urn:otfabric:opcua-interop:model;s='' @ s)"

definition install_history :: "('s, server_call) api \<Rightarrow> (('s, server_call) world, unit) state" where
  "install_history api = do {
     histId \<leftarrow> resolve api (model_id ''History.Temperature'');
     _ \<leftarrow> perform api (SetHistoryDatabase (interop_make_history_database histId));
     State_Monad.return ()
   }"

definition interop_emit_base_event :: "('s, server_call) api \<Rightarrow> nodeid \<Rightarrow> nodeid \<Rightarrow> (('s, server_call) world, u32) state" where
  "interop_emit_base_event api sourceId eventTypeId = do {
     r \<leftarrow> perform api (CreateEvent sourceId eventTypeId 500 (en ''peer-event''));
     State_Monad.return (rt_status r)
   }"

definition interop_add_event_type :: "('s, server_call) api \<Rightarrow> (('s, server_call) world, ret) state" where
  "interop_add_event_type api = perform api (AddObjectTypeNode (nodeid_numeric 0 2041) (nodeid_numeric 0 45)
     \<lparr>qn_namespaceIndex = 1, qn_name = Some ''InteropBaseEventType''\<rparr>
     ''InteropBaseEventType'' ''Concrete BaseEvent subtype for interop emission'')"

definition schedule_events :: "('s, server_call) api \<Rightarrow> (('s, server_call) world, bool) state" where
  "schedule_events api = do {
     sourceId \<leftarrow> resolve api (model_id ''Events.Source'');
     esc \<leftarrow> interop_add_event_type api;
     if rt_status esc = GOOD \<and> \<not> isNull sourceId then do {
       _ \<leftarrow> perform api (AddRepeatedCallback (EmitBaseEvent sourceId (rt_node esc)) 2000);
       State_Monad.return True
     } else State_Monad.return False
   }"

definition alarm_set_id :: "('s, server_call) api \<Rightarrow> nodeid \<Rightarrow> string \<Rightarrow> bool \<Rightarrow> (('s, server_call) world, u32) state" where
  "alarm_set_id api cond fld v = do {
     r \<leftarrow> perform api (SetConditionFieldProperty cond fld ''Id'' (Scalar (VBoolean v)));
     State_Monad.return (rt_status r)
   }"

definition set_condition :: "('s, server_call) api \<Rightarrow> nodeid \<Rightarrow> string \<Rightarrow> ua_val \<Rightarrow> (('s, server_call) world, u32) state" where
  "set_condition api cond fld v = do {
     r \<leftarrow> perform api (SetConditionField cond fld (Scalar v));
     State_Monad.return (rt_status r)
   }"

definition alarm_is_enabled :: "('s, server_call) api \<Rightarrow> nodeid \<Rightarrow> (('s, server_call) world, bool) state" where
  "alarm_is_enabled api cond = do {
     bpr \<leftarrow> perform api (BrowsePath cond [\<lparr>qn_namespaceIndex = 0, qn_name = Some ''EnabledState''\<rparr>,
                                        \<lparr>qn_namespaceIndex = 0, qn_name = Some ''Id''\<rparr>]);
     if rt_status bpr = GOOD \<and> rt_found bpr then do {
       r \<leftarrow> perform api (ReadValue (rt_node bpr));
       State_Monad.return (rt_status r = GOOD \<and> rt_value r = Scalar (VBoolean True))
     } else State_Monad.return False
   }"

definition alarm_arm :: "('s, server_call) api \<Rightarrow> nodeid \<Rightarrow> nodeid \<Rightarrow> u64 \<Rightarrow> (('s, server_call) world, u32) state" where
  "alarm_arm api source cond now = do {
     enabled \<leftarrow> alarm_is_enabled api cond;
     s0 \<leftarrow> (if \<not> enabled then alarm_set_id api cond ''EnabledState'' True else State_Monad.return GOOD);
     s1 \<leftarrow> set_condition api cond ''Retain'' (VBoolean True);
     s2 \<leftarrow> set_condition api cond ''Severity'' (VUInt16 500);
     s3 \<leftarrow> alarm_set_id api cond ''AckedState'' False;
     s4 \<leftarrow> alarm_set_id api cond ''ConfirmedState'' False;
     s5 \<leftarrow> alarm_set_id api cond ''ActiveState'' False;
     s6 \<leftarrow> alarm_set_id api cond ''ActiveState'' True;
     r7 \<leftarrow> perform api (WriteObjectProperty cond ''Time'' (Scalar (VDateTime now)));
     s8 \<leftarrow> set_condition api cond ''Message'' (VLocalizedText (en ''interop-alarm''));
     r9 \<leftarrow> perform api (TriggerConditionEvent cond source);
     State_Monad.return (s0 OR s1 OR s2 OR s3 OR s4 OR s5 OR s6 OR rt_status r7 OR s8 OR rt_status r9)
   }"

definition method_alarm_reset_cb :: "('s, server_call) api \<Rightarrow> nodeid \<Rightarrow> nodeid \<Rightarrow> u64 \<Rightarrow> (('s, server_call) world, u32) state" where
  "method_alarm_reset_cb api source cond now = alarm_arm api source cond now"

text \<open>The next step of the setup, run only when everything before it was Good.\<close>

definition if_good :: "u32 \<Rightarrow> ('w, ret) state \<Rightarrow> ('w, u32 \<times> nodeid) state" where
  "if_good sc m = (if sc = GOOD then do { r \<leftarrow> m; State_Monad.return (rt_status r, rt_node r) }
     else State_Monad.return (sc, nodeid_null))"

definition place :: "nodeid \<Rightarrow> nodeid \<Rightarrow> u32 \<Rightarrow> qname \<Rightarrow> string \<Rightarrow> string \<Rightarrow> node_place" where
  "place node parent refType bn dn desc = \<lparr>np_nodeId = node, np_parent = parent, np_refType = nodeid_numeric 0 refType,
     np_browseName = bn, np_displayName = en dn, np_description = en desc\<rparr>"

definition qn :: "u16 \<Rightarrow> string \<Rightarrow> qname" where
  "qn ns s = \<lparr>qn_namespaceIndex = ns, qn_name = Some s\<rparr>"

definition interop_add_alarms :: "('s, server_call) api \<Rightarrow> u64 \<Rightarrow> (('s, server_call) world, bool) state" where
  "interop_add_alarms api now = do {
     nsr \<leftarrow> perform api (AddNamespace ''urn:otfabric:opcua-interop:model'');
     compat \<leftarrow> resolve api (model_id ''Compatibility'');
     (let ns = rt_ns nsr; source = nodeid_string ns ''Alarms.Source'' in
      if ns = 0 \<or> isNull compat then State_Monad.return False
      else do {
        r0 \<leftarrow> perform api (AddObjectNode (place (nodeid_string ns ''Alarms'') compat 35 (qn ns ''Alarms'') ''Alarms''
               ''Alarms & Conditions (Part 9) interoperability.'') (nodeid_numeric 0 61) 0);
        s1 \<leftarrow> if_good (rt_status r0) (perform api (AddObjectNode (place source (nodeid_string ns ''Alarms'') 35
               (qn ns ''Alarms.Source'') ''Alarm Source'' ''ConditionSource of InteropAlarm.'') (nodeid_numeric 0 58) 1));
        s2 \<leftarrow> if_good (fst s1) (perform api (AddReference (nodeid_numeric 0 2253) (nodeid_numeric 0 48) source));
        s3 \<leftarrow> if_good (fst s2) (perform api (CreateCondition (nodeid_string ns ''Alarms.InteropAlarm'') (nodeid_numeric 0 2915)
               (qn ns ''InteropAlarm'') source (nodeid_numeric 0 47)));
        s4 \<leftarrow> if_good (fst s3) (perform api (AddMethodNode (place (nodeid_string ns ''Alarms.Reset'') source 47 (qn ns ''Reset'')
               ''Reset'' ''Re-arm InteropAlarm (enabled, active, unacknowledged, unconfirmed).'') AlarmReset [] []));
        sc \<leftarrow> (if fst s4 = GOOD then alarm_arm api source (snd s3) now else State_Monad.return (fst s4));
        State_Monad.return (sc = GOOD)
      })
   }"

section \<open>Behaviors\<close>

fun register_behaviors :: "('s, server_call) api \<Rightarrow> Behavior list \<Rightarrow> (('s, server_call) world, unit) state" where
  "register_behaviors api [] = State_Monad.return ()"
| "register_behaviors api (beh # behs) =
    (if beh_kind beh = BEH_FIXED_STATUS then register_behaviors api behs
     else do {
       node \<leftarrow> resolve api (beh_target beh);
       _ \<leftarrow> perform api (AddRepeatedCallback (BehaviorTick (behavior_ctx node beh)) (word_of_int (intervalMs beh)));
       register_behaviors api behs
     })"

fun apply_fixed_status :: "('s, server_call) api \<Rightarrow> Behavior list \<Rightarrow> (('s, server_call) world, unit) state" where
  "apply_fixed_status api [] = State_Monad.return ()"
| "apply_fixed_status api (beh # behs) =
    (if beh_kind beh \<noteq> BEH_FIXED_STATUS then apply_fixed_status api behs
     else do {
       node \<leftarrow> resolve api (beh_target beh);
       existing \<leftarrow> perform api (ReadValue node);
       _ \<leftarrow> perform api (WriteDataValue node (DataValue True (rt_value existing) (Some (double_to_u32 (beh_initial beh))) None None None None));
       apply_fixed_status api behs
     })"

text \<open>The address space as \<open>server_run\<close> builds it, up to the start of the server.\<close>

definition build_address_space :: "cjson_lib \<Rightarrow> int \<Rightarrow> u64 \<Rightarrow> ('s, server_call) api \<Rightarrow> Fixture \<Rightarrow> (('s, server_call) world, unit) state" where
  "build_address_space J utcoff now api fx = do {
     _ \<leftarrow> register_namespaces api (namespaces fx);
     _ \<leftarrow> add_nodes J utcoff api (nodes fx);
     _ \<leftarrow> install_history api;
     _ \<leftarrow> schedule_events api;
     _ \<leftarrow> interop_add_alarms api now;
     _ \<leftarrow> register_behaviors api (behaviors fx);
     apply_fixed_status api (behaviors fx)
   }"

section \<open>Reasoning about traces\<close>

text \<open>What is relied on of the stack's namespaces: while the server is set up (property P of its
  state), each URI of U has its index, whatever else is called.\<close>

definition namespaces_fixed :: "('s \<Rightarrow> bool) \<Rightarrow> ('s, server_call) api \<Rightarrow> string set \<Rightarrow> (string \<Rightarrow> u16) \<Rightarrow> bool" where
  "namespaces_fixed P api U idx \<longleftrightarrow> keeps P api \<and>
     (\<forall>s u. P s \<and> u \<in> U \<longrightarrow> rt_ns (fst (api s (AddNamespace u))) = idx u)"

definition uris_of :: "cstr \<Rightarrow> string set" where
  "uris_of s = (case s of None \<Rightarrow> {} | Some t \<Rightarrow>
     if starts_with ''nsu='' t then (case strchr CHR '';'' (drop 4 t) of None \<Rightarrow> {} | Some (uri, _) \<Rightarrow> {uri}) else {})"

text \<open>The NodeId a text stands for, given the indices.\<close>

definition resolve_with :: "(string \<Rightarrow> u16) \<Rightarrow> cstr \<Rightarrow> nodeid" where
  "resolve_with idx s = (case s of None \<Rightarrow> nodeid_null | Some t \<Rightarrow>
     if starts_with ''nsu='' t then (case strchr CHR '';'' (drop 4 t) of None \<Rightarrow> nodeid_null
       | Some (uri, _) \<Rightarrow> server_parse_nodeid s (idx uri))
     else server_parse_nodeid s 0)"

text \<open>The calls that add nodes of the fixture.\<close>

fun is_add :: "server_call \<Rightarrow> bool" where
  "is_add (AddObjectNode _ _ _) = True"
| "is_add (AddVariableNode _ _ _) = True"
| "is_add (AddMethodNode _ _ _ _) = True"
| "is_add _ = False"

lemma runs_resolve:
  assumes "namespaces_fixed P api U idx" "uris_of s \<subseteq> U" "\<forall>u. \<not> p (AddNamespace u)"
  shows "runs P (resolve api s) (\<lambda>n new. n = resolve_with idx s \<and> made p new = [])"
proof (rule runsI)
  fix st tr x s' tr' assume P: "P st" and r: "run_state (resolve api s) (st, tr) = (x, s', tr')"
  have k: "P (snd (api st c))" for c using assms(1) P by (simp add: namespaces_fixed_def keeps_def)
  show "P s' \<and> (\<exists>new. tr' = tr @ new \<and> x = resolve_with idx s \<and> made p new = [])"
  proof (cases "uris_of s = {}")
    case True
    then have "run_state (resolve api s) (st, tr) = (resolve_with idx s, st, tr)"
      by (auto simp: resolve_def resolve_nodeid_def resolve_with_def uris_of_def split: option.splits if_splits)
    with r P show ?thesis by simp
  next
    case False
    then obtain t uri rest where t: "s = Some t" "starts_with ''nsu='' t" "strchr CHR '';'' (drop 4 t) = Some (uri, rest)"
      by (auto simp: uris_of_def split: option.splits if_splits)
    let ?a = "api st (AddNamespace uri)"
    have i: "rt_ns (fst ?a) = idx uri" using assms(1,2) P t by (auto simp: namespaces_fixed_def uris_of_def)
    have "run_state (resolve api s) (st, tr) = (resolve_with idx s, snd ?a, tr @ [(AddNamespace uri, fst ?a)])"
      using t i by (cases ?a) (simp add: resolve_def resolve_nodeid_def resolve_with_def world_addns_def perform_def)
    with r k [of "AddNamespace uri"] assms(3) show ?thesis by auto
  qed
qed

lemma fixed_keeps: "namespaces_fixed P api U idx \<Longrightarrow> keeps P api"
  by (simp add: namespaces_fixed_def)

definition type_with :: "(string \<Rightarrow> u16) \<Rightarrow> cstr \<Rightarrow> u32 \<Rightarrow> nodeid" where
  "type_with idx ty fallback = (case ty of None \<Rightarrow> nodeid_numeric 0 fallback | Some t \<Rightarrow> resolve_with idx ty)"

lemma runs_resolve_type:
  assumes "namespaces_fixed P api U idx" "uris_of ty \<subseteq> U" "\<forall>u. \<not> p (AddNamespace u)"
  shows "runs P (resolve_type api ty fallback) (\<lambda>n new. n = type_with idx ty fallback \<and> made p new = [])"
  using runs_resolve [OF assms] by (cases ty) (auto simp: resolve_type_def type_with_def intro: runs_return)

lemma runs_set_eu_range:
  assumes "keeps P api"
  shows "runs P (set_eu_range api v lo hi) (\<lambda>_ new. made is_add new = [])"
  unfolding set_eu_range_def
proof (rule runs_bind [OF runs_call [OF assms]])
  fix x :: ret and new assume n: "new = [(BrowsePath v [\<lparr>qn_namespaceIndex = 0, qn_name = Some ''EURange''\<rparr>], x)]"
  show "runs P (State_Monad.bind (if rt_status x = GOOD \<and> rt_found x then perform api (WriteRange (rt_node x) lo hi)
      else perform api (AddEURangeProperty v lo hi)) (\<lambda>_. State_Monad.return ())) (\<lambda>_ new'. made is_add (new @ new') = [])"
    by (rule runs_bind [where Q = "\<lambda>_ new. made is_add new = []"])
      (auto simp: n intro!: runs_perform [OF assms] runs_return)
qed

text \<open>The call that adds a fixture node.\<close>

definition node_request :: "cjson_lib \<Rightarrow> int \<Rightarrow> (string \<Rightarrow> u16) \<Rightarrow> FixtureNode \<Rightarrow> server_call" where
  "node_request J utcoff idx nd =
    (let pl = node_place_of nd (resolve_with idx (fn_nodeId nd)) (resolve_with idx (parentNodeId nd))
     in case nodeClass nd of
          NODE_OBJECT \<Rightarrow> AddObjectNode pl (type_with idx (typeDefinition nd) 58)
            (if id_contains ''s=Events.Source'' (fn_nodeId nd) then 1 else 0)
        | NODE_VARIABLE \<Rightarrow> AddVariableNode pl (type_with idx (typeDefinition nd) 63) (variable_attributes J utcoff nd)
        | NODE_METHOD \<Rightarrow> AddMethodNode pl (FixtureMethod (method_callback_for (methodBehavior nd)))
            (build_ua_arguments (inputArgs nd)) (build_ua_arguments (outputArgs nd)))"

definition node_uris :: "FixtureNode \<Rightarrow> string set" where
  "node_uris nd = uris_of (fn_nodeId nd) \<union> uris_of (parentNodeId nd) \<union> uris_of (typeDefinition nd)"

lemma runs_add_object:
  assumes "namespaces_fixed P api U idx" "uris_of (typeDefinition nd) \<subseteq> U"
  shows "runs P (add_object api nd node parent) (\<lambda>_ new. made is_add new =
    [AddObjectNode (node_place_of nd node parent) (type_with idx (typeDefinition nd) 58)
      (if id_contains ''s=Events.Source'' (fn_nodeId nd) then 1 else 0)])"
  unfolding add_object_def
  by (rule runs_bind [OF runs_resolve_type [OF assms, of is_add]], simp,
      rule runs_bind [OF runs_call [OF fixed_keeps [OF assms(1)]]], rule runs_return, simp)

lemma runs_add_variable:
  assumes "namespaces_fixed P api U idx" "uris_of (typeDefinition nd) \<subseteq> U"
  shows "runs P (add_variable J utcoff api nd node parent) (\<lambda>_ new. made is_add new =
    [AddVariableNode (node_place_of nd node parent) (type_with idx (typeDefinition nd) 63) (variable_attributes J utcoff nd)])"
  unfolding add_variable_def
  by (rule runs_bind [OF runs_resolve_type [OF assms, of is_add]], simp,
      rule runs_bind [OF runs_call [OF fixed_keeps [OF assms(1)]]],
      rule runs_bind [where Q = "\<lambda>_ new. made is_add new = []"],
      simp add: runs_set_eu_range [OF fixed_keeps [OF assms(1)]] runs_return, rule runs_return, simp)

lemma runs_add_method:
  "keeps P api \<Longrightarrow> runs P (add_method api nd node parent) (\<lambda>_ new. made is_add new =
    [AddMethodNode (node_place_of nd node parent) (FixtureMethod (method_callback_for (methodBehavior nd)))
      (build_ua_arguments (inputArgs nd)) (build_ua_arguments (outputArgs nd))])"
  unfolding add_method_def by (rule runs_bind [OF runs_call], assumption, rule runs_return, simp)

lemma runs_add_node:
  assumes "namespaces_fixed P api U idx" "node_uris nd \<subseteq> U"
  shows "runs P (add_node J utcoff api nd) (\<lambda>_ new. made is_add new = [node_request J utcoff idx nd])"
proof -
  have u: "uris_of (fn_nodeId nd) \<subseteq> U" "uris_of (parentNodeId nd) \<subseteq> U" "uris_of (typeDefinition nd) \<subseteq> U"
    using assms(2) by (auto simp: node_uris_def)
  have add: "runs P (case nodeClass nd of NODE_OBJECT \<Rightarrow> add_object api nd node parent
      | NODE_VARIABLE \<Rightarrow> add_variable J utcoff api nd node parent | NODE_METHOD \<Rightarrow> add_method api nd node parent)
      (\<lambda>_ new. made is_add new = [node_request J utcoff idx nd])"
    if "node = resolve_with idx (fn_nodeId nd)" "parent = resolve_with idx (parentNodeId nd)" for node parent
    using runs_add_object [OF assms(1) u(3)] runs_add_variable [OF assms(1) u(3)] runs_add_method [OF fixed_keeps [OF assms(1)]] that
    by (cases "nodeClass nd") (simp_all add: node_request_def)
  show ?thesis
    unfolding add_node_def
    by (rule runs_bind [OF runs_resolve [OF assms(1) u(1), of is_add]], simp,
        rule runs_bind [OF runs_resolve [OF assms(1) u(2), of is_add]], simp, simp add: add)
qed

lemma runs_add_nodes:
  assumes "namespaces_fixed P api U idx" "\<forall>nd\<in>set nds. node_uris nd \<subseteq> U"
  shows "runs P (add_nodes J utcoff api nds) (\<lambda>_ new. made is_add new = map (node_request J utcoff idx) nds)"
  using assms(2)
proof (induction nds)
  case (Cons nd nds)
  then have "runs P (add_nodes J utcoff api nds) (\<lambda>_ new. made is_add new = map (node_request J utcoff idx) nds)" by simp
  then show ?case unfolding add_nodes.simps
    by (intro runs_bind [OF runs_add_node [OF assms(1)]]) (use Cons.prems in auto)
qed (simp add: runs_return)

text \<open>
  What a fixture entry describes, read off the fixture format (the schema of fixtures and OPC UA
  Parts 5 and 6) and not off the parsers of the server: the printed forms of NodeIds and browse
  names, and the numbers of the reference types and data types. A namespace URI may hold anything
  but a semicolon; U are the URIs and idx their indices.
\<close>

inductive names :: "string set \<Rightarrow> (string \<Rightarrow> u16) \<Rightarrow> string \<Rightarrow> nodeid \<Rightarrow> bool" for U idx where
  "n < 2 ^ 31 \<Longrightarrow> names U idx (''i='' @ dec n) (nodeid_numeric 0 (word_of_nat n))"
| "u \<in> U \<Longrightarrow> CHR '';'' \<notin> set u \<Longrightarrow> n < 2 ^ 31 \<Longrightarrow> names U idx (''nsu='' @ u @ '';i='' @ dec n) (nodeid_numeric (idx u) (word_of_nat n))"
| "u \<in> U \<Longrightarrow> CHR '';'' \<notin> set u \<Longrightarrow> names U idx (''nsu='' @ u @ '';s='' @ name) (nodeid_string (idx u) name)"
| "k < 65536 \<Longrightarrow> n < 2 ^ 31 \<Longrightarrow> names U idx (''ns='' @ dec k @ '';i='' @ dec n) (nodeid_numeric (word_of_nat k) (word_of_nat n))"
| "k < 65536 \<Longrightarrow> names U idx (''ns='' @ dec k @ '';s='' @ name) (nodeid_string (word_of_nat k) name)"

inductive browse_names :: "cstr \<Rightarrow> qname \<Rightarrow> bool" where
  "browse_names None \<lparr>qn_namespaceIndex = 0, qn_name = Some []\<rparr>"
| "CHR '':'' \<notin> set name \<Longrightarrow> browse_names (Some name) \<lparr>qn_namespaceIndex = 0, qn_name = Some name\<rparr>"
| "k < 65536 \<Longrightarrow> browse_names (Some (dec k @ '':'' @ name)) \<lparr>qn_namespaceIndex = word_of_nat k, qn_name = Some name\<rparr>"

definition reference_types :: "(string \<times> u32) list" where
  "reference_types = [(''Organizes'', 35), (''HasModellingRule'', 37), (''HasEncoding'', 38), (''HasTypeDefinition'', 40),
     (''Aggregates'', 44), (''HasSubtype'', 45), (''HasProperty'', 46), (''HasComponent'', 47)]"

definition data_types :: "(string \<times> u32) list" where
  "data_types = [(''Boolean'', 1), (''SByte'', 2), (''Byte'', 3), (''Int16'', 4), (''UInt16'', 5), (''Int32'', 6), (''UInt32'', 7),
     (''Int64'', 8), (''UInt64'', 9), (''Float'', 10), (''Double'', 11), (''String'', 12), (''DateTime'', 13), (''Guid'', 14),
     (''ByteString'', 15), (''XmlElement'', 16), (''NodeId'', 17), (''ExpandedNodeId'', 18), (''StatusCode'', 19),
     (''QualifiedName'', 20), (''LocalizedText'', 21)]"

definition method_behaviors :: "(string \<times> method_callback) list" where
  "method_behaviors = [(''Add'', method_add_cb), (''Multiply'', method_multiply_cb), (''Echo'', method_echo_cb),
     (''NoArguments'', method_noargs_cb), (''MultipleOutputs'', method_multipleoutputs_cb), (''Fail'', method_fail_cb)]"

text \<open>The number a name has in a table, a default for a name that is missing or unknown.\<close>

definition number_in :: "(string \<times> u32) list \<Rightarrow> u32 \<Rightarrow> cstr \<Rightarrow> u32" where
  "number_in table fallback name = (case name of None \<Rightarrow> fallback
     | Some n \<Rightarrow> (case map_of table n of None \<Rightarrow> fallback | Some k \<Rightarrow> k))"

definition english :: "cstr \<Rightarrow> ltext" where
  "english s = \<lparr>lt_locale = Some ''en'', lt_text = Some (case s of None \<Rightarrow> [] | Some t \<Rightarrow> t)\<rparr>"

definition mentions :: "string \<Rightarrow> cstr \<Rightarrow> bool" where
  "mentions part s \<longleftrightarrow> (\<exists>a b. s = Some (a @ part @ b))"

definition describes_argument :: "Argument \<Rightarrow> UA_Argument \<Rightarrow> bool" where
  "describes_argument a u \<longleftrightarrow> u = \<lparr>ua_name = Some (case arg_name a of None \<Rightarrow> [] | Some n \<Rightarrow> n),
     ua_dataType = nodeid_numeric 0 (number_in data_types 24 (arg_dataType a)), ua_valueRank = arg_valueRank a,
     ua_description = english (arg_description a)\<rparr>"

definition type_names :: "string set \<Rightarrow> (string \<Rightarrow> u16) \<Rightarrow> u32 \<Rightarrow> cstr \<Rightarrow> nodeid \<Rightarrow> bool" where
  "type_names U idx fallback ty n \<longleftrightarrow> (case ty of None \<Rightarrow> n = nodeid_numeric 0 fallback | Some t \<Rightarrow> names U idx t n)"

definition describes_variable :: "cjson_lib \<Rightarrow> int \<Rightarrow> FixtureNode \<Rightarrow> variable_attr \<Rightarrow> bool" where
  "describes_variable J utcoff nd va \<longleftrightarrow>
     va_dataType va = nodeid_numeric 0 (number_in data_types 24 (dataType nd)) \<and> va_valueRank va = valueRank nd \<and>
     va_accessLevel va = accessLevel nd \<and> va_userAccessLevel va = accessLevel nd \<and>
     va_historizing va = mentions ''s=History.Temperature'' (fn_nodeId nd) \<and> va_arrayDimensions va = arrayDimensions nd \<and>
     va_value va = (case initialValue nd of None \<Rightarrow> EmptyVariant
       | Some iv \<Rightarrow> build_variant J utcoff (Some iv) (dataType nd) (valueRank nd)) \<and>
     va_valueDimensions va = (if 2 \<le> length (arrayDimensions nd) \<and> va_value va \<noteq> EmptyVariant then arrayDimensions nd else [])"

definition describes :: "cjson_lib \<Rightarrow> int \<Rightarrow> string set \<Rightarrow> (string \<Rightarrow> u16) \<Rightarrow> FixtureNode \<Rightarrow> server_call \<Rightarrow> bool" where
  "describes J utcoff U idx nd c \<longleftrightarrow>
    (\<exists>idText parentText node parent bn. fn_nodeId nd = Some idText \<and> names U idx idText node \<and>
      parentNodeId nd = Some parentText \<and> names U idx parentText parent \<and> browse_names (browseName nd) bn \<and>
      (let pl = \<lparr>np_nodeId = node, np_parent = parent, np_refType = nodeid_numeric 0 (number_in reference_types 35 (referenceType nd)),
                 np_browseName = bn, np_displayName = english (displayName nd), np_description = english (fn_description nd)\<rparr>
       in case nodeClass nd of
            NODE_OBJECT \<Rightarrow> (\<exists>ty. type_names U idx 58 (typeDefinition nd) ty \<and>
              c = AddObjectNode pl ty (if mentions ''s=Events.Source'' (fn_nodeId nd) then 1 else 0))
          | NODE_VARIABLE \<Rightarrow> (\<exists>ty va. type_names U idx 63 (typeDefinition nd) ty \<and> describes_variable J utcoff nd va \<and>
              c = AddVariableNode pl ty va)
          | NODE_METHOD \<Rightarrow> (\<exists>ins outs. list_all2 describes_argument (inputArgs nd) ins \<and> list_all2 describes_argument (outputArgs nd) outs \<and>
              c = AddMethodNode pl (FixtureMethod (case methodBehavior nd of None \<Rightarrow> None | Some b \<Rightarrow> map_of method_behaviors b)) ins outs)))"

text \<open>An entry whose texts have the documented forms.\<close>

definition well_named :: "string set \<Rightarrow> (string \<Rightarrow> u16) \<Rightarrow> FixtureNode \<Rightarrow> bool" where
  "well_named U idx nd \<longleftrightarrow> (\<exists>t n. fn_nodeId nd = Some t \<and> names U idx t n) \<and> (\<exists>t n. parentNodeId nd = Some t \<and> names U idx t n) \<and>
     (\<exists>n. type_names U idx 0 (typeDefinition nd) n) \<and> (\<exists>q. browse_names (browseName nd) q)"

text \<open>The parsers of the server read these forms.\<close>

lemma dec_no_mark: "CHR '';'' \<notin> set (dec n)" "CHR '':'' \<notin> set (dec n)"
proof -
  have d: "CHR '';'' \<notin> digit_char ` {..<10}" "CHR '':'' \<notin> digit_char ` {..<10}" by code_simp+
  then show "CHR '';'' \<notin> set (dec n)" "CHR '':'' \<notin> set (dec n)" using dec_chars [of n] by blast+
qed

lemma atoi_index: "k < 65536 \<Longrightarrow> word_of_int (atoi (dec k @ CHR '';'' # r)) = (word_of_nat k :: u16)"
    "k < 65536 \<Longrightarrow> word_of_int (atoi (dec k @ CHR '':'' # r)) = (word_of_nat k :: u16)"
  by (subst atoi_dec; simp add: digit_value_def)+

lemma atoi_number: "n < 2 ^ 31 \<Longrightarrow> word_of_int (atoi (dec n)) = (word_of_nat n :: u32)"
  using atoi_dec [of n "[]"] by simp

lemma names_resolve:
  assumes "names U idx t n"
  shows "resolve_with idx (Some t) = n \<and> uris_of (Some t) \<subseteq> U"
  using assms
proof cases
  case (2 u k)
  then have "strchr CHR '';'' (''nsu='' @ u @ '';i='' @ dec k) = Some (''nsu='' @ u, '';i='' @ dec k)" by simp
  then show ?thesis using 2 by (simp add: resolve_with_def uris_of_def server_parse_nodeid_def server_parse_ident_def atoi_number)
next
  case (3 u name)
  then have "strchr CHR '';'' (''nsu='' @ u @ '';s='' @ name) = Some (''nsu='' @ u, '';s='' @ name)" by simp
  then show ?thesis using 3 by (simp add: resolve_with_def uris_of_def server_parse_nodeid_def server_parse_ident_def)
next
  case (4 k m)
  then have "strchr CHR '';'' (''ns='' @ dec k @ '';i='' @ dec m) = Some (''ns='' @ dec k, '';i='' @ dec m)" by (simp add: dec_no_mark)
  then show ?thesis using 4
    by (simp add: resolve_with_def uris_of_def server_parse_nodeid_def server_parse_ident_def atoi_number atoi_index)
next
  case (5 k name)
  then have "strchr CHR '';'' (''ns='' @ dec k @ '';s='' @ name) = Some (''ns='' @ dec k, '';s='' @ name)" by (simp add: dec_no_mark)
  then show ?thesis using 5
    by (simp add: resolve_with_def uris_of_def server_parse_nodeid_def server_parse_ident_def atoi_index)
qed (simp add: resolve_with_def uris_of_def server_parse_nodeid_def atoi_number)

lemma browse_names_parse: "browse_names s q \<Longrightarrow> parse_browse_name s = q"
proof (induction rule: browse_names.induct)
  case (2 name)
  then show ?case by (simp add: parse_browse_name_def strchr_None [THEN iffD2])
next
  case (3 k name)
  then show ?case by (simp add: parse_browse_name_def dec_no_mark atoi_index)
qed (simp add: parse_browse_name_def)

lemma type_names_with:
  assumes "type_names U idx 0 ty n"
  shows "(\<exists>m. type_names U idx fallback ty m) \<and> (\<forall>m. type_names U idx fallback ty m \<longrightarrow> type_with idx ty fallback = m) \<and> uris_of ty \<subseteq> U"
  using assms names_resolve [of U idx _ n]
  by (cases ty) (auto simp: type_names_def type_with_def uris_of_def [of None] dest: names_resolve)

lemma contains_mentions: "id_contains part s \<longleftrightarrow> mentions part s"
proof -
  have "contains part t \<longleftrightarrow> (\<exists>a b. t = a @ part @ b)" for t
  proof (induction t)
    case (Cons c t)
    then show ?case by (auto simp: starts_with_iff Cons_eq_append_conv)
  qed (auto simp: starts_with_iff)
  then show ?thesis by (auto simp: id_contains_def mentions_def split: option.split)
qed

lemma table_numbers: "ref_type_id s = nodeid_numeric 0 (number_in reference_types 35 s)"
    "data_type_nodeid s = nodeid_numeric 0 (number_in data_types 24 s)"
    "method_callback_for s = (case s of None \<Rightarrow> None | Some b \<Rightarrow> map_of method_behaviors b)"
  by (auto simp: ref_type_id_def number_in_def reference_types_def UA_NS0ID_ORGANIZES_def data_type_nodeid_def data_type_for_name_def
    builtin_typeId_def data_types_def method_callback_for_def method_behaviors_def split: option.split)

lemma english_en: "en (or_empty s) = english s" "\<lparr>lt_locale = Some ''en'', lt_text = Some (or_empty s)\<rparr> = english s"
  by (auto simp: en_def or_empty_def english_def split: option.split)

lemma arguments_described: "list_all2 describes_argument args (build_ua_arguments args)"
  by (auto simp: build_ua_arguments_def list_all2_conv_all_nth describes_argument_def table_numbers english_en or_empty_def english_def split: option.split)

lemma variable_described: "describes_variable J utcoff nd (variable_attributes J utcoff nd)"
  by (simp add: describes_variable_def variable_attributes_def Let_def table_numbers contains_mentions Suc_le_eq numeral_2_eq_2)

lemma well_named_request:
  assumes "well_named U idx nd"
  shows "describes J utcoff U idx nd (node_request J utcoff idx nd) \<and> node_uris nd \<subseteq> U"
proof -
  obtain t n t' n' m q where a: "fn_nodeId nd = Some t" "names U idx t n" "parentNodeId nd = Some t'" "names U idx t' n'"
      "type_names U idx 0 (typeDefinition nd) m" "browse_names (browseName nd) q"
    using assms unfolding well_named_def by blast
  have ty: "type_names U idx k (typeDefinition nd) (type_with idx (typeDefinition nd) k)" for k
    using type_names_with [OF a(5), of k] by blast
  have pl: "node_place_of nd n n' = \<lparr>np_nodeId = n, np_parent = n', np_refType = nodeid_numeric 0 (number_in reference_types 35 (referenceType nd)),
      np_browseName = q, np_displayName = english (displayName nd), np_description = english (fn_description nd)\<rparr>"
    by (simp add: node_place_of_def table_numbers english_en browse_names_parse [OF a(6)])
  have req: "node_request J utcoff idx nd = (case nodeClass nd of
      NODE_OBJECT \<Rightarrow> AddObjectNode (node_place_of nd n n') (type_with idx (typeDefinition nd) 58) (if id_contains ''s=Events.Source'' (fn_nodeId nd) then 1 else 0)
    | NODE_VARIABLE \<Rightarrow> AddVariableNode (node_place_of nd n n') (type_with idx (typeDefinition nd) 63) (variable_attributes J utcoff nd)
    | NODE_METHOD \<Rightarrow> AddMethodNode (node_place_of nd n n') (FixtureMethod (method_callback_for (methodBehavior nd)))
        (build_ua_arguments (inputArgs nd)) (build_ua_arguments (outputArgs nd)))"
    using a names_resolve by (simp add: node_request_def Let_def)
  have "describes J utcoff U idx nd (node_request J utcoff idx nd)"
    unfolding describes_def req pl Let_def contains_mentions table_numbers(3)
    by (intro exI [of _ t] exI [of _ t'] exI [of _ n] exI [of _ n'] exI [of _ q] conjI a)
      (use ty variable_described arguments_described in \<open>cases "nodeClass nd"; auto\<close>)
  moreover have "node_uris nd \<subseteq> U"
    using a names_resolve type_names_with [OF a(5)] by (simp add: node_uris_def)
  ultimately show ?thesis ..
qed

text \<open>C9 Every node of the fixture is asked for exactly once, in the order of the fixture, as the fixture
  describes it. Whatever the stack answers, the calls that add nodes correspond one to one to the
  entries: the class of the entry; the NodeId, the parent and the type definition its texts name in their namespaces (BaseObjectType or
  BaseDataVariableType without a type definition); the number of the named reference type; browse name, display
  name and description; for a Variable the data type's number, value rank, access level (also as the user's), array
  dimensions, historizing for the history node, and the value build_variant makes of its initial value;
  for a Method the callback of its behavior and its arguments. A node that the stack refuses does not stop
  the others. The entries' texts are of the documented forms: i=N, nsu=URI;i=N, nsu=URI;s=Name and the same
  with ns=K, N below 2^31; browse names are Name or K:Name.\<close>

theorem fixture_nodes_requested:
  assumes "namespaces_fixed P api U idx" and "\<forall>nd\<in>set nds. well_named U idx nd" and "P s"
    and "run_state (add_nodes J utcoff api nds) (s, tr) = (x, s', tr')"
  shows "\<exists>new. tr' = tr @ new \<and> list_all2 (describes J utcoff U idx) nds (made is_add new)"
proof -
  have "\<forall>nd\<in>set nds. node_uris nd \<subseteq> U" using assms(2) well_named_request by blast
  from runsD [OF runs_add_nodes [OF assms(1) this] assms(3,4)] obtain new
    where "tr' = tr @ new" "made is_add new = map (node_request J utcoff idx) nds" by auto
  moreover have "list_all2 (describes J utcoff U idx) nds (map (node_request J utcoff idx) nds)"
    using assms(2) well_named_request by (simp add: list_all2_conv_all_nth)
  ultimately show ?thesis by auto
qed

text \<open>A stack that keeps a table of namespaces and accepts everything else.\<close>

definition plain_ret :: ret where
  "plain_ret = \<lparr>rt_status = GOOD, rt_ns = 0, rt_node = nodeid_null, rt_value = EmptyVariant, rt_found = False\<rparr>"

definition table_api :: "(string list, server_call) api" where
  "table_api tab c = (case c of AddNamespace u \<Rightarrow> (case table_addns tab u of (i, tab') \<Rightarrow> (plain_ret\<lparr>rt_ns := i\<rparr>, tab'))
     | _ \<Rightarrow> (plain_ret, tab))"

definition two_namespaces :: "string list \<Rightarrow> bool" where
  "two_namespaces tab \<longleftrightarrow> (\<exists>r. tab = ''ua'' # ''urn:m'' # r)"

lemma table_api_fixed: "namespaces_fixed two_namespaces table_api {''urn:m''} (\<lambda>_. 1)"
proof -
  have "two_namespaces (snd (table_api tab c))" if "two_namespaces tab" for tab c
    using that by (auto simp: table_api_def two_namespaces_def table_addns_def split: server_call.split option.split prod.split)
  moreover have "rt_ns (fst (table_api tab (AddNamespace ''urn:m''))) = 1" if "two_namespaces tab" for tab
    using that by (auto simp: two_namespaces_def table_api_def table_addns_def plain_ret_def)
  ultimately show ?thesis by (simp add: namespaces_fixed_def keeps_def)
qed

definition example_node :: FixtureNode where
  "example_node = fixture_node_zero\<lparr>nodeClass := NODE_METHOD, fn_nodeId := Some ''nsu=urn:m;s=A'', parentNodeId := Some ''i=85''\<rparr>"

lemma example_named: "names {''urn:m''} (\<lambda>_. 1) ''nsu=urn:m;s=A'' (nodeid_string 1 ''A'')"
    "names {''urn:m''} (\<lambda>_. 1) ''i=85'' (nodeid_numeric 0 85)"
proof -
  have "dec 85 = ''85''" by code_simp
  then show "names {''urn:m''} (\<lambda>_. 1) ''nsu=urn:m;s=A'' (nodeid_string 1 ''A'')" "names {''urn:m''} (\<lambda>_. 1) ''i=85'' (nodeid_numeric 0 85)"
    using names.intros(3) [of "''urn:m''" "{''urn:m''}" "\<lambda>_. 1" "''A''"] names.intros(1) [of 85 "{''urn:m''}" "\<lambda>_. 1"] by simp_all
qed

lemma example_well_named: "well_named {''urn:m''} (\<lambda>_. 1) example_node"
  using example_named browse_names.intros(1) unfolding well_named_def type_names_def
  by (auto simp: example_node_def fixture_node_zero_def)

theorem fixture_nodes_requested_witness:
  "list_all2 (describes plain_json 0 {''urn:m''} (\<lambda>_. 1)) [example_node]
    (made is_add (snd (snd (run_state (add_nodes plain_json 0 table_api [example_node]) ([''ua'', ''urn:m''], [])))))"
proof -
  obtain x s' tr' where r: "run_state (add_nodes plain_json 0 table_api [example_node]) ([''ua'', ''urn:m''], []) = (x, s', tr')"
    by (metis prod.exhaust)
  have "\<exists>new. tr' = [] @ new \<and> list_all2 (describes plain_json 0 {''urn:m''} (\<lambda>_. 1)) [example_node] (made is_add new)"
    by (rule fixture_nodes_requested [OF table_api_fixed _ _ r]) (simp_all add: example_well_named two_namespaces_def)
  then show ?thesis unfolding r by auto
qed

fun is_schedule :: "server_call \<Rightarrow> bool" where
  "is_schedule (AddRepeatedCallback _ _) = True"
| "is_schedule _ = False"

fun is_access :: "server_call \<Rightarrow> bool" where
  "is_access (ReadValue _) = True"
| "is_access (WriteDataValue _ _) = True"
| "is_access _ = False"

definition behavior_call :: "(string \<Rightarrow> u16) \<Rightarrow> Behavior \<Rightarrow> server_call" where
  "behavior_call idx beh = AddRepeatedCallback (BehaviorTick (behavior_ctx (resolve_with idx (beh_target beh)) beh)) (word_of_int (intervalMs beh))"

text \<open>What a behavior of the fixture describes: a callback on the node its target names, which starts
  from the initial value, counts from it, or ramps from it by the increment within the bounds; and
  for a fixed status a read of the node followed by a write of the value that was read, with that status code
  and no timestamps.\<close>

definition scheduled :: "string set \<Rightarrow> (string \<Rightarrow> u16) \<Rightarrow> Behavior \<Rightarrow> server_call \<Rightarrow> bool" where
  "scheduled U idx beh c \<longleftrightarrow> (\<exists>t n ctx. beh_target beh = Some t \<and> names U idx t n \<and>
     c = AddRepeatedCallback (BehaviorTick ctx) (word_of_int (intervalMs beh)) \<and>
     bc_nodeId ctx = n \<and> bc_kind ctx = beh_kind beh \<and> counter ctx = word_of_int (double_to_i64 (beh_initial beh)) \<and> \<not> toggle ctx \<and>
     rampVal ctx = beh_initial beh \<and> rampInc ctx = beh_increment beh \<and> rampMin ctx = beh_minimum beh \<and> rampMax ctx = beh_maximum beh)"

fun statuses_written :: "string set \<Rightarrow> (string \<Rightarrow> u16) \<Rightarrow> Behavior list \<Rightarrow> (server_call \<times> ret) list \<Rightarrow> bool" where
  "statuses_written U idx [] steps = (steps = [])"
| "statuses_written U idx (beh # behs) steps = (\<exists>t n r w rest. beh_target beh = Some t \<and> names U idx t n \<and>
     steps = (ReadValue n, r) #
       (WriteDataValue n (DataValue True (rt_value r) (Some (double_to_u32 (beh_initial beh))) None None None None), w) # rest \<and>
     statuses_written U idx behs rest)"

definition target_named :: "string set \<Rightarrow> (string \<Rightarrow> u16) \<Rightarrow> Behavior \<Rightarrow> bool" where
  "target_named U idx beh \<longleftrightarrow> (\<exists>t n. beh_target beh = Some t \<and> names U idx t n)"

lemma target_uris: "target_named U idx beh \<Longrightarrow> uris_of (beh_target beh) \<subseteq> U"
  unfolding target_named_def using names_resolve by metis

lemma behavior_call_scheduled: "target_named U idx beh \<Longrightarrow> scheduled U idx beh (behavior_call idx beh)"
  unfolding target_named_def scheduled_def behavior_call_def
  by (auto simp: behavior_ctx_def names_resolve)

lemma runs_register_behaviors:
  assumes "namespaces_fixed P api U idx" "\<forall>beh\<in>set behs. uris_of (beh_target beh) \<subseteq> U"
  shows "runs P (register_behaviors api behs) (\<lambda>_ new. made is_schedule new = map (behavior_call idx) (filter (\<lambda>b. beh_kind b \<noteq> BEH_FIXED_STATUS) behs))"
  using assms(2)
proof (induction behs)
  case (Cons beh behs)
  then have IH: "runs P (register_behaviors api behs) (\<lambda>_ new. made is_schedule new = map (behavior_call idx) (filter (\<lambda>b. beh_kind b \<noteq> BEH_FIXED_STATUS) behs))"
    and u: "uris_of (beh_target beh) \<subseteq> U" by simp_all
  show ?case
  proof (cases "beh_kind beh = BEH_FIXED_STATUS")
    case False
    then show ?thesis unfolding register_behaviors.simps
      by (simp, intro runs_bind [OF runs_resolve [OF assms(1) u, of is_schedule]] runs_bind [OF runs_call [OF fixed_keeps [OF assms(1)]]])
        (auto simp: behavior_call_def intro: runs_mono [OF IH])
  qed (use IH in simp)
qed (simp add: runs_return)

lemma runs_apply_fixed_status:
  assumes "namespaces_fixed P api U idx" "\<forall>beh\<in>set behs. target_named U idx beh"
  shows "runs P (apply_fixed_status api behs) (\<lambda>_ new.
    statuses_written U idx (filter (\<lambda>b. beh_kind b = BEH_FIXED_STATUS) behs) (filter (\<lambda>e. is_access (fst e)) new))"
  using assms(2)
proof (induction behs)
  case (Cons beh behs)
  let ?written = "\<lambda>new. statuses_written U idx (filter (\<lambda>b. beh_kind b = BEH_FIXED_STATUS) behs) (filter (\<lambda>e. is_access (fst e)) new)"
  have IH: "runs P (apply_fixed_status api behs) (\<lambda>_ new. ?written new)" using Cons by simp
  obtain t n where t: "beh_target beh = Some t" "names U idx t n" using Cons.prems by (auto simp: target_named_def)
  then have u: "uris_of (beh_target beh) \<subseteq> U" and n: "names U idx t (resolve_with idx (Some t))" using names_resolve [OF t(2)] by simp_all
  have accesses: "filter (\<lambda>e. is_access (fst e)) new = [] \<longleftrightarrow> made is_access new = []" for new :: "(server_call \<times> ret) list"
    by (simp add: made_def filter_map comp_def)
  show ?case
  proof (cases "beh_kind beh = BEH_FIXED_STATUS")
    case True
    then show ?thesis unfolding apply_fixed_status.simps
      by (simp, intro runs_bind [OF runs_resolve [OF assms(1) u, of is_access]] runs_bind [OF runs_call [OF fixed_keeps [OF assms(1)]]])
        (auto simp: n t(1) accesses [symmetric] intro!: runs_mono [OF IH])
  qed (use IH in simp)
qed (simp add: runs_return)

text \<open>C34 Behaviors: every behavior of the fixture except the fixed statuses is scheduled once, with its own
  interval, as a callback on the node its target names that has the behavior's kind, initial value, increment and
  bounds; for every fixed status the node its target names is read once and then written once, with the
  value that was read and the status code of the behavior; both in the order of the fixture. Registering the behaviors
  schedules nothing else, and applying the statuses reads and writes nothing else. The targets are of the documented forms of NodeIds.\<close>

theorem behaviors_installed:
  assumes "namespaces_fixed P api U idx" and "\<forall>beh\<in>set behs. target_named U idx beh" and "P s"
    and "run_state (register_behaviors api behs) (s, []) = (x, s1, tr1)"
    and "run_state (apply_fixed_status api behs) (s1, []) = (y, s2, tr2)"
  shows "list_all2 (scheduled U idx) (filter (\<lambda>b. beh_kind b \<noteq> BEH_FIXED_STATUS) behs) (made is_schedule tr1) \<and>
    statuses_written U idx (filter (\<lambda>b. beh_kind b = BEH_FIXED_STATUS) behs) (filter (\<lambda>e. is_access (fst e)) tr2)"
proof
  have "\<forall>beh\<in>set behs. uris_of (beh_target beh) \<subseteq> U" using assms(2) target_uris by blast
  from runsD [OF runs_register_behaviors [OF assms(1) this] assms(3,4)]
  have P: "P s1" and sched: "made is_schedule tr1 = map (behavior_call idx) (filter (\<lambda>b. beh_kind b \<noteq> BEH_FIXED_STATUS) behs)" by auto
  have "\<forall>beh\<in>set (filter (\<lambda>b. beh_kind b \<noteq> BEH_FIXED_STATUS) behs). scheduled U idx beh (behavior_call idx beh)"
    using assms(2) behavior_call_scheduled by auto
  then show "list_all2 (scheduled U idx) (filter (\<lambda>b. beh_kind b \<noteq> BEH_FIXED_STATUS) behs) (made is_schedule tr1)"
    unfolding sched by (simp add: list_all2_map2 list_all2_same)
  from runsD [OF runs_apply_fixed_status [OF assms(1,2)] P assms(5)]
  show "statuses_written U idx (filter (\<lambda>b. beh_kind b = BEH_FIXED_STATUS) behs) (filter (\<lambda>e. is_access (fst e)) tr2)" by simp
qed

definition example_behaviors :: "Behavior list" where
  "example_behaviors = [example_ramp\<lparr>beh_target := Some ''nsu=urn:m;s=A''\<rparr>, example_ramp\<lparr>beh_target := Some ''i=85'', beh_kind := BEH_FIXED_STATUS\<rparr>]"

theorem behaviors_installed_witness:
  "\<exists>x s1 tr1 y s2 tr2. run_state (register_behaviors table_api example_behaviors) ([''ua'', ''urn:m''], []) = (x, s1, tr1) \<and>
    run_state (apply_fixed_status table_api example_behaviors) (s1, []) = (y, s2, tr2) \<and>
    list_all2 (scheduled {''urn:m''} (\<lambda>_. 1)) [hd example_behaviors] (made is_schedule tr1) \<and>
    statuses_written {''urn:m''} (\<lambda>_. 1) (tl example_behaviors) (filter (\<lambda>e. is_access (fst e)) tr2)"
proof -
  obtain x s1 tr1 where r1: "run_state (register_behaviors table_api example_behaviors) ([''ua'', ''urn:m''], []) = (x, s1, tr1)"
    by (metis prod.exhaust)
  obtain y s2 tr2 where r2: "run_state (apply_fixed_status table_api example_behaviors) (s1, []) = (y, s2, tr2)"
    by (metis prod.exhaust)
  have kinds: "filter (\<lambda>b. beh_kind b \<noteq> BEH_FIXED_STATUS) example_behaviors = [hd example_behaviors]"
      "filter (\<lambda>b. beh_kind b = BEH_FIXED_STATUS) example_behaviors = tl example_behaviors"
    by (simp_all add: example_behaviors_def example_ramp_def)
  have "list_all2 (scheduled {''urn:m''} (\<lambda>_. 1)) (filter (\<lambda>b. beh_kind b \<noteq> BEH_FIXED_STATUS) example_behaviors) (made is_schedule tr1) \<and>
    statuses_written {''urn:m''} (\<lambda>_. 1) (filter (\<lambda>b. beh_kind b = BEH_FIXED_STATUS) example_behaviors) (filter (\<lambda>e. is_access (fst e)) tr2)"
    by (rule behaviors_installed [OF table_api_fixed _ _ r1 r2])
      (use example_named in \<open>auto simp: example_behaviors_def target_named_def two_namespaces_def\<close>)
  then show ?thesis unfolding kinds using r1 r2 by blast
qed

section \<open>Alarms\<close>

fun is_query :: "server_call \<Rightarrow> bool" where
  "is_query (BrowsePath _ _) = True"
| "is_query (ReadValue _) = True"
| "is_query _ = False"

definition arm_calls :: "nodeid \<Rightarrow> nodeid \<Rightarrow> u64 \<Rightarrow> server_call list" where
  "arm_calls source cond now =
    [SetConditionField cond ''Retain'' (Scalar (VBoolean True)), SetConditionField cond ''Severity'' (Scalar (VUInt16 500)),
     SetConditionFieldProperty cond ''AckedState'' ''Id'' (Scalar (VBoolean False)),
     SetConditionFieldProperty cond ''ConfirmedState'' ''Id'' (Scalar (VBoolean False)),
     SetConditionFieldProperty cond ''ActiveState'' ''Id'' (Scalar (VBoolean False)),
     SetConditionFieldProperty cond ''ActiveState'' ''Id'' (Scalar (VBoolean True)),
     WriteObjectProperty cond ''Time'' (Scalar (VDateTime now)),
     SetConditionField cond ''Message'' (Scalar (VLocalizedText (en ''interop-alarm''))), TriggerConditionEvent cond source]"

definition all_good :: "(server_call \<times> ret) list \<Rightarrow> bool" where
  "all_good tr \<longleftrightarrow> (\<forall>e\<in>set tr. is_query (fst e) \<or> rt_status (snd e) = GOOD)"

lemma all_good_simps [simp]: "all_good []" "all_good (e # tr) \<longleftrightarrow> (is_query (fst e) \<or> rt_status (snd e) = GOOD) \<and> all_good tr"
    "all_good (tr @ tr') \<longleftrightarrow> all_good tr \<and> all_good tr'"
  by (auto simp: all_good_def)

text \<open>The prefix of the trace: is the condition enabled, and if not, enable it.\<close>

definition enable_part :: "nodeid \<Rightarrow> server_call list \<Rightarrow> bool" where
  "enable_part cond cs \<longleftrightarrow> (\<forall>c\<in>set cs. is_query c \<or> c = SetConditionFieldProperty cond ''EnabledState'' ''Id'' (Scalar (VBoolean True)))"

lemma runs_alarm_is_enabled:
  "keeps P api \<Longrightarrow> runs P (alarm_is_enabled api cond) (\<lambda>_ new. \<forall>c\<in>set (map fst new). is_query c)"
  unfolding alarm_is_enabled_def
  by (rule runs_bind [OF runs_call], assumption) (auto intro!: runs_return runs_bind [OF runs_call])

lemma runs_alarm_set_id:
  "keeps P api \<Longrightarrow> runs P (alarm_set_id api cond fld v) (\<lambda>sc new. \<exists>r. new = [(SetConditionFieldProperty cond fld ''Id'' (Scalar (VBoolean v)), r)] \<and> sc = rt_status r)"
  unfolding alarm_set_id_def by (rule runs_bind [OF runs_call]) (auto intro: runs_return)

lemma runs_set_condition:
  "keeps P api \<Longrightarrow> runs P (set_condition api cond fld v) (\<lambda>sc new. \<exists>r. new = [(SetConditionField cond fld (Scalar v), r)] \<and> sc = rt_status r)"
  unfolding set_condition_def by (rule runs_bind [OF runs_call]) (auto intro: runs_return)

lemma runs_enable:
  assumes "keeps P api"
  shows "runs P (if \<not> e then alarm_set_id api cond ''EnabledState'' True else State_Monad.return GOOD)
    (\<lambda>sc new. enable_part cond (map fst new) \<and> (sc = GOOD \<longleftrightarrow> all_good new))"
proof (cases e)
  case False
  have "runs P (alarm_set_id api cond ''EnabledState'' True) (\<lambda>sc new. enable_part cond (map fst new) \<and> (sc = GOOD \<longleftrightarrow> all_good new))"
    by (rule runs_mono [OF runs_alarm_set_id [OF assms]]) (auto simp: enable_part_def)
  with False show ?thesis by simp
qed (simp add: runs_return enable_part_def)

lemma runs_alarm_arm:
  assumes "keeps P api"
  shows "runs P (alarm_arm api source cond now) (\<lambda>sc new. \<exists>pre.
    map fst new = pre @ arm_calls source cond now \<and> enable_part cond pre \<and> (sc = GOOD \<longleftrightarrow> all_good new))"
  unfolding alarm_arm_def
proof (rule runs_bind [OF runs_alarm_is_enabled [OF assms]], rule runs_bind [OF runs_enable [OF assms]])
  fix e :: bool and n0 :: "(server_call \<times> ret) list" and s0 n1
  assume q: "\<forall>c\<in>set (map fst n0). is_query c" and en: "enable_part cond (map fst n1) \<and> (s0 = GOOD \<longleftrightarrow> all_good n1)"
  have pre: "enable_part cond (map fst (n0 @ n1))" "all_good n0" using q en by (auto simp: enable_part_def all_good_def)
  show "runs P (do {
     s1 \<leftarrow> set_condition api cond ''Retain'' (VBoolean True);
     s2 \<leftarrow> set_condition api cond ''Severity'' (VUInt16 500);
     s3 \<leftarrow> alarm_set_id api cond ''AckedState'' False;
     s4 \<leftarrow> alarm_set_id api cond ''ConfirmedState'' False;
     s5 \<leftarrow> alarm_set_id api cond ''ActiveState'' False;
     s6 \<leftarrow> alarm_set_id api cond ''ActiveState'' True;
     r7 \<leftarrow> perform api (WriteObjectProperty cond ''Time'' (Scalar (VDateTime now)));
     s8 \<leftarrow> set_condition api cond ''Message'' (VLocalizedText (en ''interop-alarm''));
     r9 \<leftarrow> perform api (TriggerConditionEvent cond source);
     State_Monad.return (s0 OR s1 OR s2 OR s3 OR s4 OR s5 OR s6 OR rt_status r7 OR s8 OR rt_status r9)
   }) (\<lambda>sc new'. \<exists>pre. map fst (n0 @ n1 @ new') = pre @ arm_calls source cond now \<and> enable_part cond pre \<and>
        (sc = GOOD \<longleftrightarrow> all_good (n0 @ n1 @ new')))"
    by (intro runs_bind [OF runs_set_condition [OF assms]] runs_bind [OF runs_alarm_set_id [OF assms]] runs_bind [OF runs_call [OF assms]]
        runs_return exI [of _ "map fst (n0 @ n1)"]) (use pre en in \<open>auto simp: arm_calls_def or_eq_0_iff\<close>)
qed

text \<open>Arming the alarm: after making sure that the condition is enabled, the fields are set in the
  order the stack needs (Active goes false before true, the Message last, then the event), and the
  result is Good exactly when every one of these calls was.\<close>

lemma alarm_arm_sequence:
  assumes "run_state (alarm_arm api source cond now) (s, tr) = (sc, s', tr')"
  shows "\<exists>pre new. tr' = tr @ new \<and> map fst new = pre @ arm_calls source cond now \<and> enable_part cond pre \<and>
    (sc = GOOD \<longleftrightarrow> all_good new)"
proof -
  have "keeps (\<lambda>_. True) api" by (simp add: keeps_def)
  from runsD [OF runs_alarm_arm [OF this] _ assms] show ?thesis by auto
qed

lemma alarm_arm_sequence_witness:
  "\<exists>pre new. map fst new = pre @ arm_calls nodeid_null nodeid_null 0 \<and> all_good new \<and>
     snd (snd (run_state (alarm_arm table_api nodeid_null nodeid_null 0) ([], []))) = new"
proof -
  have r: "run_state (alarm_arm table_api nodeid_null nodeid_null 0) ([], []) =
      (0, fst (snd (run_state (alarm_arm table_api nodeid_null nodeid_null 0) ([], []))),
       snd (snd (run_state (alarm_arm table_api nodeid_null nodeid_null 0) ([], []))))"
    by (simp add: alarm_arm_def alarm_is_enabled_def alarm_set_id_def set_condition_def perform_def table_api_def plain_ret_def)
  show ?thesis using alarm_arm_sequence [OF r] by auto
qed

end
