(* ===== verification/Server_Args.thy ===== *)
theory Server_Args
  imports Values Fixture
begin

text \<open>
  server.c, server_parse_args: the settings of the server from the environment and the command
  line. The environment is a function from names to values; \<open>argv\<close> is the list of arguments
  with the command name first. An array with its count is a list.
\<close>

record ServerArgs =
  fixturePath :: cstr
  bindAddress :: cstr
  bindPort :: int
  advertisedHost :: cstr
  advertisedPort :: int
  sa_endpointPath :: cstr
  pkiDir :: cstr
  certFile :: cstr
  keyFile :: cstr
  readyFile :: cstr
  readyFileExplicit :: bool
  eccDir :: cstr
  reverseConnect :: "string list"
  reverseIntervalMs :: int
  lds :: bool
  ldsCleanupTimeoutS :: int
  mdnsName :: cstr
  mdnsCaps :: "string list"
  registerWith :: cstr
  registerIntervalMs :: int
  pubsubConfig :: cstr

abbreviation SERVER_MAX_REVERSE :: nat where "SERVER_MAX_REVERSE \<equiv> 8"
abbreviation SERVER_MAX_CAPS :: nat where "SERVER_MAX_CAPS \<equiv> 8"

definition server_args_zero :: ServerArgs where
  "server_args_zero = \<lparr>fixturePath = None, bindAddress = None, bindPort = 0, advertisedHost = None, advertisedPort = 0,
     sa_endpointPath = None, pkiDir = None, certFile = None, keyFile = None, readyFile = None, readyFileExplicit = False,
     eccDir = None, reverseConnect = [], reverseIntervalMs = 0, lds = False, ldsCleanupTimeoutS = 0, mdnsName = None,
     mdnsCaps = [], registerWith = None, registerIntervalMs = 0, pubsubConfig = None\<rparr>"

text \<open>A variable of the environment that is set and not empty.\<close>

definition getenv_set :: "(string \<Rightarrow> cstr) \<Rightarrow> string \<Rightarrow> cstr" where
  "getenv_set env n = (case env n of Some (c # cs) \<Rightarrow> Some (c # cs) | _ \<Rightarrow> None)"

definition env_defaults :: "(string \<Rightarrow> cstr) \<Rightarrow> ServerArgs" where
  "env_defaults env = server_args_zero\<lparr>
     fixturePath := getenv_set env ''OPCUA_FIXTURE'',
     readyFile := getenv_set env ''OPCUA_READY_FILE'',
     pkiDir := getenv_set env ''OPCUA_PKI_DIR'',
     bindAddress := getenv_set env ''OPCUA_BIND_ADDRESS'',
     advertisedHost := getenv_set env ''OPCUA_ADVERTISED_HOST'',
     sa_endpointPath := getenv_set env ''OPCUA_ENDPOINT_PATH'',
     bindPort := (case getenv_set env ''OPCUA_PORT'' of None \<Rightarrow> 0 | Some s \<Rightarrow> atoi s)\<rparr>"

text \<open>What a flag that takes a value does with it.\<close>

definition value_flag :: "string \<Rightarrow> (string \<Rightarrow> ServerArgs \<Rightarrow> ServerArgs) option" where
  "value_flag a =
    (if a = ''--fixture'' then Some (\<lambda>v out. out\<lparr>fixturePath := Some v\<rparr>)
     else if a = ''--bind-address'' then Some (\<lambda>v out. out\<lparr>bindAddress := Some v\<rparr>)
     else if a = ''--bind-port'' then Some (\<lambda>v out. out\<lparr>bindPort := atoi v\<rparr>)
     else if a = ''--advertised-host'' then Some (\<lambda>v out. out\<lparr>advertisedHost := Some v\<rparr>)
     else if a = ''--advertised-port'' then Some (\<lambda>v out. out\<lparr>advertisedPort := atoi v\<rparr>)
     else if a = ''--endpoint-path'' then Some (\<lambda>v out. out\<lparr>sa_endpointPath := Some v\<rparr>)
     else if a = ''--pki-dir'' then Some (\<lambda>v out. out\<lparr>pkiDir := Some v\<rparr>)
     else if a = ''--certificate'' then Some (\<lambda>v out. out\<lparr>certFile := Some v\<rparr>)
     else if a = ''--private-key'' then Some (\<lambda>v out. out\<lparr>keyFile := Some v\<rparr>)
     else if a = ''--ready-file'' then Some (\<lambda>v out. out\<lparr>readyFile := Some v, readyFileExplicit := True\<rparr>)
     else if a = ''--ecc-dir'' then Some (\<lambda>v out. out\<lparr>eccDir := Some v\<rparr>)
     else if a = ''--reverse-connect'' then Some (\<lambda>v out.
       if length (reverseConnect out) < SERVER_MAX_REVERSE then out\<lparr>reverseConnect := reverseConnect out @ [v]\<rparr> else out)
     else if a = ''--reverse-connect-interval-ms'' then Some (\<lambda>v out. out\<lparr>reverseIntervalMs := atoi v\<rparr>)
     else if a = ''--lds-cleanup-timeout'' then Some (\<lambda>v out. out\<lparr>ldsCleanupTimeoutS := atoi v\<rparr>)
     else if a = ''--mdns-name'' then Some (\<lambda>v out. out\<lparr>mdnsName := Some v\<rparr>)
     else if a = ''--mdns-capability'' then Some (\<lambda>v out.
       if length (mdnsCaps out) < SERVER_MAX_CAPS then out\<lparr>mdnsCaps := mdnsCaps out @ [v]\<rparr> else out)
     else if a = ''--register-with'' then Some (\<lambda>v out. out\<lparr>registerWith := Some v\<rparr>)
     else if a = ''--register-interval-ms'' then Some (\<lambda>v out. out\<lparr>registerIntervalMs := atoi v\<rparr>)
     else if a = ''--pubsub-config'' then Some (\<lambda>v out. out\<lparr>pubsubConfig := Some v\<rparr>)
     else None)"

text \<open>The loop over the arguments. A flag without its value at the end of the line, and anything
  that is not a flag, is passed over.\<close>

fun parse_cli :: "string list \<Rightarrow> ServerArgs \<Rightarrow> ServerArgs" where
  "parse_cli [] out = out"
| "parse_cli (a # rest) out =
    (case (value_flag a, rest) of
       (Some set_it, v # rest') \<Rightarrow> parse_cli rest' (set_it v out)
     | _ \<Rightarrow> parse_cli rest (if a = ''--lds'' then out\<lparr>lds := True\<rparr> else out))"

definition server_parse_args :: "(string \<Rightarrow> cstr) \<Rightarrow> string list \<Rightarrow> ServerArgs res" where
  "server_parse_args env argv =
    (let out = parse_cli (drop 1 argv) (env_defaults env);
         out = (if reverseIntervalMs out \<le> 0 then out\<lparr>reverseIntervalMs := 1000\<rparr> else out);
         out = (if registerIntervalMs out \<le> 0 then out\<lparr>registerIntervalMs := 30000\<rparr> else out)
     in if fixturePath out = None \<or> fixturePath out = Some []
        then Fail ''missing --fixture (or OPCUA_FIXTURE)'' else Ok out)"

section \<open>The arrays never overflow\<close>

definition args_bounded :: "ServerArgs \<Rightarrow> bool" where
  "args_bounded out \<longleftrightarrow> length (reverseConnect out) \<le> SERVER_MAX_REVERSE \<and> length (mdnsCaps out) \<le> SERVER_MAX_CAPS"

lemma value_flag_bounded: "value_flag a = Some set_it \<Longrightarrow> args_bounded out \<Longrightarrow> args_bounded (set_it v out)"
  by (auto simp: value_flag_def args_bounded_def split: if_splits)

lemma parse_cli_bounded: "args_bounded out \<Longrightarrow> args_bounded (parse_cli argv out)"
proof (induction argv out rule: parse_cli.induct)
  case (2 a rest out)
  have "args_bounded (if a = ''--lds'' then out\<lparr>lds := True\<rparr> else out)"
    using 2(4) by (simp add: args_bounded_def)
  with 2 show ?case by (cases "value_flag a"; cases rest) (auto simp: value_flag_bounded)
qed simp

lemma env_defaults_bounded: "args_bounded (env_defaults env)"
  by (simp add: args_bounded_def env_defaults_def server_args_zero_def)

section \<open>Settings survive the command line\<close>

text \<open>The command line that states every setting.\<close>

definition flag_opt :: "string \<Rightarrow> cstr \<Rightarrow> string list" where
  "flag_opt f v = (case v of None \<Rightarrow> [] | Some s \<Rightarrow> [f, s])"

definition flag_all :: "string \<Rightarrow> string list \<Rightarrow> string list" where
  "flag_all f vs = concat (map (\<lambda>v. [f, v]) vs)"

definition render_args :: "ServerArgs \<Rightarrow> string list" where
  "render_args a =
     flag_opt ''--fixture'' (fixturePath a) @ flag_opt ''--bind-address'' (bindAddress a) @
     [''--bind-port'', dec_int (bindPort a)] @ flag_opt ''--advertised-host'' (advertisedHost a) @
     [''--advertised-port'', dec_int (advertisedPort a)] @ flag_opt ''--endpoint-path'' (sa_endpointPath a) @
     flag_opt ''--pki-dir'' (pkiDir a) @ flag_opt ''--certificate'' (certFile a) @ flag_opt ''--private-key'' (keyFile a) @
     flag_opt ''--ready-file'' (readyFile a) @ flag_opt ''--ecc-dir'' (eccDir a) @
     flag_all ''--reverse-connect'' (reverseConnect a) @ [''--reverse-connect-interval-ms'', dec_int (reverseIntervalMs a)] @
     (if lds a then [''--lds''] else []) @ [''--lds-cleanup-timeout'', dec_int (ldsCleanupTimeoutS a)] @
     flag_opt ''--mdns-name'' (mdnsName a) @ flag_all ''--mdns-capability'' (mdnsCaps a) @
     flag_opt ''--register-with'' (registerWith a) @ [''--register-interval-ms'', dec_int (registerIntervalMs a)] @
     flag_opt ''--pubsub-config'' (pubsubConfig a)"

lemma parse_cli_all: "value_flag f = Some set_it \<Longrightarrow>
    parse_cli (flag_all f vs @ rest) out = parse_cli rest (fold set_it vs out)"
  by (induction vs arbitrary: out) (simp_all add: flag_all_def)

lemma fold_reverse: "length (reverseConnect out) + length vs \<le> 8 \<Longrightarrow>
    fold (\<lambda>v out. if length (reverseConnect out) < 8 then out\<lparr>reverseConnect := reverseConnect out @ [v]\<rparr> else out) vs out
      = out\<lparr>reverseConnect := reverseConnect out @ vs\<rparr>"
  by (induction vs arbitrary: out) simp_all

lemma fold_caps: "length (mdnsCaps out) + length vs \<le> 8 \<Longrightarrow>
    fold (\<lambda>v out. if length (mdnsCaps out) < 8 then out\<lparr>mdnsCaps := mdnsCaps out @ [v]\<rparr> else out) vs out
      = out\<lparr>mdnsCaps := mdnsCaps out @ vs\<rparr>"
  by (induction vs arbitrary: out) simp_all

definition is_int32 :: "int \<Rightarrow> bool" where
  "is_int32 i \<longleftrightarrow> - (2 ^ 31) \<le> i \<and> i < 2 ^ 31"

lemma atoi_int32: "is_int32 i \<Longrightarrow> atoi (dec_int i) = i"
  using atoi_dec_int [of i "[]"] by (simp add: is_int32_def)

text \<open>Settings the command line can state: a fixture is named, the counts fit, the numbers are
  ints, the intervals positive, and everything the environment could set is set.\<close>

definition complete_args :: "ServerArgs \<Rightarrow> bool" where
  "complete_args a \<longleftrightarrow> args_bounded a \<and> fixturePath a \<noteq> None \<and> fixturePath a \<noteq> Some [] \<and> bindAddress a \<noteq> None \<and>
     advertisedHost a \<noteq> None \<and> sa_endpointPath a \<noteq> None \<and> pkiDir a \<noteq> None \<and> readyFile a \<noteq> None \<and> readyFileExplicit a \<and>
     is_int32 (bindPort a) \<and> is_int32 (advertisedPort a) \<and> is_int32 (ldsCleanupTimeoutS a) \<and>
     is_int32 (reverseIntervalMs a) \<and> 0 < reverseIntervalMs a \<and> is_int32 (registerIntervalMs a) \<and> 0 < registerIntervalMs a"

definition pick :: "cstr \<Rightarrow> cstr \<Rightarrow> cstr" where
  "pick v d = (case v of None \<Rightarrow> d | Some s \<Rightarrow> Some s)"

lemma pick_simps [simp]: "pick (Some s) d = Some s" "pick v None = v"
  by (simp_all add: pick_def split: option.split)

lemma string_flags:
  "parse_cli (flag_opt ''--fixture'' v @ rest) out = parse_cli rest (out\<lparr>fixturePath := pick v (fixturePath out)\<rparr>)"
  "parse_cli (flag_opt ''--bind-address'' v @ rest) out = parse_cli rest (out\<lparr>bindAddress := pick v (bindAddress out)\<rparr>)"
  "parse_cli (flag_opt ''--advertised-host'' v @ rest) out = parse_cli rest (out\<lparr>advertisedHost := pick v (advertisedHost out)\<rparr>)"
  "parse_cli (flag_opt ''--endpoint-path'' v @ rest) out = parse_cli rest (out\<lparr>sa_endpointPath := pick v (sa_endpointPath out)\<rparr>)"
  "parse_cli (flag_opt ''--pki-dir'' v @ rest) out = parse_cli rest (out\<lparr>pkiDir := pick v (pkiDir out)\<rparr>)"
  "parse_cli (flag_opt ''--certificate'' v @ rest) out = parse_cli rest (out\<lparr>certFile := pick v (certFile out)\<rparr>)"
  "parse_cli (flag_opt ''--private-key'' v @ rest) out = parse_cli rest (out\<lparr>keyFile := pick v (keyFile out)\<rparr>)"
  "parse_cli (flag_opt ''--ready-file'' v @ rest) out = parse_cli rest
     (out\<lparr>readyFile := pick v (readyFile out), readyFileExplicit := (v \<noteq> None \<or> readyFileExplicit out)\<rparr>)"
  "parse_cli (flag_opt ''--ecc-dir'' v @ rest) out = parse_cli rest (out\<lparr>eccDir := pick v (eccDir out)\<rparr>)"
  "parse_cli (flag_opt ''--mdns-name'' v @ rest) out = parse_cli rest (out\<lparr>mdnsName := pick v (mdnsName out)\<rparr>)"
  "parse_cli (flag_opt ''--register-with'' v @ rest) out = parse_cli rest (out\<lparr>registerWith := pick v (registerWith out)\<rparr>)"
  "parse_cli (flag_opt ''--pubsub-config'' v) out = out\<lparr>pubsubConfig := pick v (pubsubConfig out)\<rparr>"
  by (cases v; simp add: flag_opt_def pick_def value_flag_def)+

lemma number_flags:
  "parse_cli (''--bind-port'' # v # rest) out = parse_cli rest (out\<lparr>bindPort := atoi v\<rparr>)"
  "parse_cli (''--advertised-port'' # v # rest) out = parse_cli rest (out\<lparr>advertisedPort := atoi v\<rparr>)"
  "parse_cli (''--reverse-connect-interval-ms'' # v # rest) out = parse_cli rest (out\<lparr>reverseIntervalMs := atoi v\<rparr>)"
  "parse_cli (''--lds-cleanup-timeout'' # v # rest) out = parse_cli rest (out\<lparr>ldsCleanupTimeoutS := atoi v\<rparr>)"
  "parse_cli (''--register-interval-ms'' # v # rest) out = parse_cli rest (out\<lparr>registerIntervalMs := atoi v\<rparr>)"
  by (simp_all add: value_flag_def)

lemma list_flags:
  "length (reverseConnect out) + length vs \<le> 8 \<Longrightarrow>
    parse_cli (flag_all ''--reverse-connect'' vs @ rest) out = parse_cli rest (out\<lparr>reverseConnect := reverseConnect out @ vs\<rparr>)"
  "length (mdnsCaps out) + length vs \<le> 8 \<Longrightarrow>
    parse_cli (flag_all ''--mdns-capability'' vs @ rest) out = parse_cli rest (out\<lparr>mdnsCaps := mdnsCaps out @ vs\<rparr>)"
  by (subst parse_cli_all, simp add: value_flag_def, simp only: fold_reverse fold_caps)+

lemma lds_flag: "parse_cli ((if b then [''--lds''] else []) @ rest) out = parse_cli rest (out\<lparr>lds := (b \<or> lds out)\<rparr>)"
  by (simp add: value_flag_def)

lemmas parse_flags = string_flags number_flags list_flags lds_flag

lemma parse_cli_render:
  assumes "complete_args a"
  shows "parse_cli (render_args a) (env_defaults env) = a"
proof -
  obtain fp ba ah ep pk rf where s: "fixturePath a = Some fp" "bindAddress a = Some ba" "advertisedHost a = Some ah"
      "sa_endpointPath a = Some ep" "pkiDir a = Some pk" "readyFile a = Some rf"
    using assms by (auto simp: complete_args_def)
  have n: "atoi (dec_int (bindPort a)) = bindPort a" "atoi (dec_int (advertisedPort a)) = advertisedPort a"
      "atoi (dec_int (ldsCleanupTimeoutS a)) = ldsCleanupTimeoutS a" "atoi (dec_int (reverseIntervalMs a)) = reverseIntervalMs a"
      "atoi (dec_int (registerIntervalMs a)) = registerIntervalMs a"
    using assms by (simp_all add: complete_args_def atoi_int32)
  have b: "length (reverseConnect a) \<le> 8" "length (mdnsCaps a) \<le> 8" "readyFileExplicit a"
    using assms by (simp_all add: complete_args_def args_bounded_def)
  show ?thesis
    by (simp add: render_args_def parse_flags s n b env_defaults_def server_args_zero_def del: parse_cli.simps if_split)
qed

text \<open>C29 Command line round trip: whatever the environment says, the command line that states a
  complete set of settings gives exactly these settings, ports and intervals as numbers and
  repeated flags in order included.\<close>

theorem server_args_roundtrip:
  assumes "complete_args a"
  shows "server_parse_args env (cmd # render_args a) = Ok a"
proof -
  have "0 < reverseIntervalMs a" "0 < registerIntervalMs a" "fixturePath a \<noteq> None" "fixturePath a \<noteq> Some []"
    using assms by (simp_all add: complete_args_def)
  then show ?thesis by (simp add: server_parse_args_def Let_def parse_cli_render [OF assms])
qed

definition example_args :: ServerArgs where
  "example_args = server_args_zero\<lparr>fixturePath := Some ''f.json'', bindAddress := Some ''0.0.0.0'', bindPort := 4840,
     advertisedHost := Some ''localhost'', sa_endpointPath := Some ''/'', pkiDir := Some ''pki'', readyFile := Some ''ready'',
     readyFileExplicit := True, reverseConnect := [''opc.tcp://c:1''], reverseIntervalMs := 5, registerIntervalMs := 7\<rparr>"

theorem server_args_roundtrip_witness:
  "server_parse_args (\<lambda>n. Some ''9'') (''server'' # render_args example_args) = Ok example_args"
  by (rule server_args_roundtrip)
    (simp add: complete_args_def args_bounded_def is_int32_def example_args_def server_args_zero_def)

text \<open>Accepted settings are usable: a fixture is named, the intervals are positive, and the two
  arrays hold at most the eight entries they have room for, however many flags are given. The
  only error is a missing fixture.\<close>

lemma server_args_bounds:
  "case server_parse_args env argv of
     Inl e \<Rightarrow> e = ''missing --fixture (or OPCUA_FIXTURE)''
   | Inr a \<Rightarrow> length (reverseConnect a) \<le> SERVER_MAX_REVERSE \<and> length (mdnsCaps a) \<le> SERVER_MAX_CAPS \<and>
       0 < reverseIntervalMs a \<and> 0 < registerIntervalMs a \<and> (\<exists>c cs. fixturePath a = Some (c # cs))"
proof -
  define out where "out = parse_cli (drop 1 argv) (env_defaults env)"
  have "args_bounded out" unfolding out_def by (intro parse_cli_bounded env_defaults_bounded)
  then show ?thesis
    unfolding server_parse_args_def out_def [symmetric] Let_def args_bounded_def
    by (cases "fixturePath out") (auto simp: neq_Nil_conv)
qed

end
