(* ===== verification/Server_Files.thy ===== *)
theory Server_Files
  imports Server_Args
begin

text \<open>
  server.c: the files the server reads and writes. A certificate directory is listed twice (to
  count, then to load); the two listings are parameters, since the directory may change in
  between. The readiness file is written to a temporary file that is then renamed; the model
  records every state of the file system on the way.
\<close>

section \<open>Certificates\<close>

text \<open>\<open>load_cert_file\<close>: None stands for \<open>UA_BYTESTRING_NULL\<close>.\<close>

definition load_cert_file :: "file_system \<Rightarrow> cstr \<Rightarrow> ua_bytes" where
  "load_cert_file fs path = (case path of None \<Rightarrow> None | Some [] \<Rightarrow> None
     | Some p \<Rightarrow> (case fs p of Inl strerror \<Rightarrow> None
        | Inr bytes \<Rightarrow> if length bytes = 0 then None else Some (map byte_of_char bytes)))"

definition ends_with :: "string \<Rightarrow> string \<Rightarrow> bool" where
  "ends_with suf s \<longleftrightarrow> length suf \<le> length s \<and> drop (length s - length suf) s = suf"

definition is_cert_name :: "string \<Rightarrow> bool" where
  "is_cert_name n \<longleftrightarrow> 4 < length n \<and> (ends_with ''.crt'' n \<or> ends_with ''.der'' n)"

text \<open>The second pass, which fills at most \<open>cap\<close> entries; \<open>n_filled\<close> counts them.\<close>

fun load_certs :: "file_system \<Rightarrow> string \<Rightarrow> nat \<Rightarrow> nat \<Rightarrow> string list \<Rightarrow> byte list list" where
  "load_certs fs dir cap n_filled [] = []"
| "load_certs fs dir cap n_filled (nm # rest) =
    (if \<not> n_filled < cap then []
     else if is_cert_name nm then
       (case load_cert_file fs (Some (take 1023 (dir @ ''/'' @ nm))) of
          Some (b # bs) \<Rightarrow> (b # bs) # load_certs fs dir cap (n_filled + 1) rest
        | _ \<Rightarrow> load_certs fs dir cap n_filled rest)
     else load_certs fs dir cap n_filled rest)"

text \<open>The listings are None when the directory cannot be opened.\<close>

definition load_trust_dir :: "file_system \<Rightarrow> (string \<Rightarrow> (string list \<times> string list) option) \<Rightarrow> string \<Rightarrow> byte list list" where
  "load_trust_dir fs readdir dir_path =
    (if dir_path = [] then []
     else (case readdir dir_path of None \<Rightarrow> []
       | Some (first_pass, second_pass) \<Rightarrow>
           let cap = length (filter is_cert_name first_pass)
           in if cap = 0 then [] else load_certs fs dir_path cap 0 second_pass))"

lemma load_certs_bound: "length (load_certs fs dir cap k names) \<le> cap - k"
proof (induction names arbitrary: k)
  case (Cons nm names)
  show ?case using Cons.IH [of k] Cons.IH [of "k + 1"] by (auto split: option.split list.split)
qed simp

definition cert_contents :: "file_system \<Rightarrow> string \<Rightarrow> string list \<Rightarrow> byte list list" where
  "cert_contents fs dir names = concat (map (\<lambda>nm. if is_cert_name nm
     then (case load_cert_file fs (Some (take 1023 (dir @ ''/'' @ nm))) of Some bs \<Rightarrow> [bs] | None \<Rightarrow> []) else []) names)"

lemma load_cert_file_nonempty: "load_cert_file fs p \<noteq> Some []"
  by (auto simp: load_cert_file_def split: option.split list.split sum.split)

lemma load_certs_contents:
  "length (filter is_cert_name names) \<le> cap - k \<Longrightarrow> load_certs fs dir cap k names = cert_contents fs dir names"
proof (induction names arbitrary: k)
  case (Cons nm names)
  let ?f = "load_cert_file fs (Some (take 1023 (dir @ ''/'' @ nm)))"
  show ?case
  proof (cases "is_cert_name nm")
    case True
    then have k: "k < cap" "length (filter is_cert_name names) \<le> cap - (k + 1)" "length (filter is_cert_name names) \<le> cap - k"
      using Cons.prems by auto
    show ?thesis
    proof (cases ?f)
      case (Some bs)
      then obtain c cs where "bs = c # cs" using load_cert_file_nonempty [of fs] by (metis list.exhaust)
      then show ?thesis using True k Some Cons.IH [OF k(2)] by (simp add: cert_contents_def)
    qed (use True k Cons.IH [OF k(3)] in \<open>simp add: cert_contents_def\<close>)
  next
    case False
    then show ?thesis
    proof (cases "k < cap")
      case True
      with False Cons show ?thesis by (simp add: cert_contents_def)
    next
      case nk: False
      with False Cons.prems have "\<forall>n\<in>set names. \<not> is_cert_name n" by (auto simp: filter_empty_conv)
      then have "cert_contents fs dir (nm # names) = []" using False by (auto simp: cert_contents_def)
      then show ?thesis using nk by simp
    qed
  qed
qed (simp add: cert_contents_def)

text \<open>The trust list never overflows the array sized by the first pass over the directory, even
  if files are added before the second pass; and when the directory does not change it holds
  exactly the readable, non-empty certificate files, in directory order.\<close>

lemma load_trust_dir_sound:
  assumes "readdir dir = Some (first_pass, second_pass)" and "dir \<noteq> []"
  shows "length (load_trust_dir fs readdir dir) \<le> length (filter is_cert_name first_pass) \<and>
    (second_pass = first_pass \<longrightarrow> load_trust_dir fs readdir dir = cert_contents fs dir first_pass)"
proof -
  let ?cap = "length (filter is_cert_name first_pass)"
  have "cert_contents fs dir first_pass = []" if "?cap = 0"
    using that by (auto simp: cert_contents_def filter_empty_conv)
  then show ?thesis
    using assms load_certs_bound [of fs dir ?cap 0] load_certs_contents [of first_pass ?cap 0]
    by (simp add: load_trust_dir_def Let_def)
qed

lemma load_trust_dir_sound_witness:
  "length (load_trust_dir (\<lambda>p. Ok ''x'') (\<lambda>d. Some ([''a.crt''], [''a.crt'', ''b.crt''])) ''pki'') \<le> 1"
  using load_trust_dir_sound [of "\<lambda>d. Some ([''a.crt''], [''a.crt'', ''b.crt''])" "''pki''" "[''a.crt'']" "[''a.crt'', ''b.crt'']" "\<lambda>p. Ok ''x''"]
  by (simp add: is_cert_name_def ends_with_def)

section \<open>The readiness file\<close>

type_synonym files = "string \<Rightarrow> cstr"

text \<open>What the operating system allows.\<close>

record os_answers =
  can_create :: "string \<Rightarrow> bool"
  can_rename :: "string \<Rightarrow> string \<Rightarrow> bool"

definition ready_json :: "cstr \<Rightarrow> cstr \<Rightarrow> cstr \<Rightarrow> string" where
  "ready_json adapter fixture_id adv_url =
    jobj [(''ready'', ''true''),
          (''adapter'', jkey (case adapter of None \<Rightarrow> ''open62541'' | Some a \<Rightarrow> a)),
          (''fixture'', jkey (case fixture_id of None \<Rightarrow> [] | Some i \<Rightarrow> i)),
          (''endpoint'', jkey (case adv_url of None \<Rightarrow> [] | Some u \<Rightarrow> u))] @ [CHR 0x0A]"

definition unlink_ready_file :: "cstr \<Rightarrow> files \<Rightarrow> files" where
  "unlink_ready_file path fs = (case path of None \<Rightarrow> fs | Some [] \<Rightarrow> fs | Some p \<Rightarrow> fs(p := None))"

definition tmp_path :: "string \<Rightarrow> string" where
  "tmp_path p = take 4095 (p @ ''.tmp'')"

text \<open>The return value and the states of the file system, in order: after the temporary file is
  opened (and truncated), after it is written, after the rename or the removal.\<close>

definition write_ready_file_atomic ::
  "os_answers \<Rightarrow> cstr \<Rightarrow> bool \<Rightarrow> cstr \<Rightarrow> cstr \<Rightarrow> cstr \<Rightarrow> files \<Rightarrow> int \<times> files list" where
  "write_ready_file_atomic os path explicit adapter fixture_id adv_url fs = (case path of
     None \<Rightarrow> (0, [fs]) | Some [] \<Rightarrow> (0, [fs])
   | Some p \<Rightarrow>
       (if \<not> can_create os (tmp_path p) then (if explicit then - 1 else 0, [fs])
        else
          let opened = fs(tmp_path p := Some []);
              written = opened(tmp_path p := Some (ready_json adapter fixture_id adv_url))
          in if can_rename os (tmp_path p) p
             then (0, [fs, opened, written, written(tmp_path p := None, p := written (tmp_path p))])
             else (if explicit then - 1 else 0, [fs, opened, written, written(tmp_path p := None)])))"

lemma tmp_path_other: "length p < 4095 \<Longrightarrow> tmp_path p \<noteq> p"
proof
  assume l: "length p < 4095" and e: "tmp_path p = p"
  then have "length (tmp_path p) = min 4095 (length p + 4)" by (simp add: tmp_path_def)
  with l e show False by simp
qed

lemma ready_json_object:
  assumes "\<forall>s\<in>{adapter, fixture_id, adv_url}. case s of None \<Rightarrow> True | Some t \<Rightarrow> json_chars t"
  shows "\<exists>j. ready_json adapter fixture_id adv_url = j @ [CHR 0x0A] \<and> json_value j"
  unfolding ready_json_def using assms
  by (intro exI conjI refl jobj_value) (auto intro!: json_intro split: option.splits)

text \<open>The readiness file appears atomically: in every state of the file system on the way, the
  path holds what it held before or the complete new text, and after a successful return with an
  explicit path it holds the new text.\<close>

lemma ready_file_atomic:
  assumes "write_ready_file_atomic os (Some p) explicit adapter fixture_id adv_url fs = (rc, states)"
    and "p \<noteq> []" and "length p < 4095"
  shows "(\<forall>st\<in>set states. st p = fs p \<or> st p = Some (ready_json adapter fixture_id adv_url)) \<and>
    (explicit \<and> rc = 0 \<longrightarrow> (last states) p = Some (ready_json adapter fixture_id adv_url))"
  using assms(1,2) tmp_path_other [OF assms(3)]
  by (auto simp: write_ready_file_atomic_def Let_def neq_Nil_conv split: if_splits)

lemma ready_file_atomic_witness:
  "(last (snd (write_ready_file_atomic \<lparr>can_create = (\<lambda>_. True), can_rename = (\<lambda>_ _. True)\<rparr> (Some ''r'') True None None None (\<lambda>_. None)))) ''r''
     = Some (ready_json None None None)"
  using ready_file_atomic [of "\<lparr>can_create = (\<lambda>_. True), can_rename = (\<lambda>_ _. True)\<rparr>" "''r''" True None None None "\<lambda>_. None"]
  by (cases "write_ready_file_atomic \<lparr>can_create = (\<lambda>_. True), can_rename = (\<lambda>_ _. True)\<rparr> (Some ''r'') True None None None (\<lambda>_. None)")
    (simp add: write_ready_file_atomic_def Let_def)

end
