(* ===== verification/Server_Run.thy ===== *)
theory Server_Run
  imports Server_Nodes Server_Files
begin

text \<open>
  server.c: configuring, starting and stopping the server (\<open>server_run\<close>), as built by the
  repository's Dockerfile, with all optional parts of the stack enabled. As in the theory of the
  address space, the stack is a parameter that answers calls and the model records them. The
  number of main loop turns before a signal arrives, and of turns while the server waits for its
  deregistration, come from outside and are parameters; so is the time of day. PubSub is set up by
  pubsub_server.c, whose functions appear here as calls.
\<close>

section \<open>Settings\<close>

definition set_or :: "cstr \<Rightarrow> string \<Rightarrow> string" where
  "set_or s d = (case s of Some (c # cs) \<Rightarrow> c # cs | _ \<Rightarrow> d)"

definition is_set :: "cstr \<Rightarrow> bool" where
  "is_set s = (case s of Some (c # cs) \<Rightarrow> True | _ \<Rightarrow> False)"

record settings =
  bind_addr :: string
  bind_port :: int
  adv_host :: string
  adv_port :: int
  ep_path :: string

definition server_settings :: "ServerArgs \<Rightarrow> Fixture \<Rightarrow> settings" where
  "server_settings args fx =
    (let bp = (if 0 < bindPort args then bindPort args else port fx)
     in \<lparr>bind_addr = set_or (bindAddress args) ''0.0.0.0'', bind_port = bp,
         adv_host = set_or (advertisedHost args) ''localhost'',
         adv_port = (if 0 < advertisedPort args then advertisedPort args else bp),
         ep_path = set_or (sa_endpointPath args) (or_empty (endpointPath fx))\<rparr>)"

definition adv_url :: "settings \<Rightarrow> string" where
  "adv_url st = take 511 (''opc.tcp://'' @ adv_host st @ '':'' @ dec_int (adv_port st) @ ep_path st)"

definition bind_srv_url :: "settings \<Rightarrow> string" where
  "bind_srv_url st = take 255 (if bind_addr st = ''0.0.0.0'' then ''opc.tcp://:'' @ dec_int (bind_port st)
     else ''opc.tcp://'' @ bind_addr st @ '':'' @ dec_int (bind_port st))"

datatype security_mode = MODE_NONE | MODE_SIGN | MODE_SIGNANDENCRYPT

definition security_mode_from_name :: "cstr \<Rightarrow> security_mode" where
  "security_mode_from_name s = (if s = Some ''Sign'' then MODE_SIGN
     else if s = Some ''SignAndEncrypt'' then MODE_SIGNANDENCRYPT else MODE_NONE)"

record server_config =
  serverUrls :: "string list"
  allowNonePolicyPassword :: bool
  reverseReconnectInterval :: u32
  discoveryServer :: bool
  discoveryCleanupTimeout :: "u32 option" \<comment> \<open>None: as the stack sets it\<close>
  mdnsServerName :: string
  serverCapabilities :: "string list"
  mdnsEnabled :: bool

datatype run_call =
    SetDefault
  | SetDefaultWithSecurityPolicies u16 ua_bytes ua_bytes "byte list list"
  | AddSecurityPolicyEcc string ua_bytes ua_bytes
  | AddEndpoint string security_mode
  | AccessControlDefault bool "(string \<times> string) list"
  | PreparePubSub
  | NewWithConfig server_config
  | SetApplication string cstr cstr cstr \<comment> \<open>URL of the endpoints, application URI, product URI, name\<close>
  | OnServer server_call
  | RunStartup
  | SetDiscoveryUrls "string list"
  | PubSubInit
  | PubSubApply string cstr cstr string
  | AddReverseConnect string
  | RegisterDiscovery string
  | RepeatRegister string int
  | ReadyFile string
  | RunIterate bool
  | DeregisterDiscovery string
  | DisablePubSub
  | RunShutdown
  | DeleteServer
  | PubSubCleanup
  | UnlinkReady string

text \<open>Running a computation on the server inside the run.\<close>

definition on_server :: "('s, run_call) api \<Rightarrow> (('s, server_call) api \<Rightarrow> (('s, server_call) world, 'a) state) \<Rightarrow> (('s, run_call) world, 'a) state" where
  "on_server api m = State (\<lambda>(s, tr). case run_state (m (\<lambda>s c. api s (OnServer c))) (s, []) of
     (x, s', new) \<Rightarrow> (x, (s', tr @ map (\<lambda>(c, r). (OnServer c, r)) new)))"

definition act :: "('s, run_call) api \<Rightarrow> run_call \<Rightarrow> (('s, run_call) world, unit) state" where
  "act api c = do { _ \<leftarrow> perform api c; State_Monad.return () }"

fun acts :: "('s, run_call) api \<Rightarrow> run_call list \<Rightarrow> (('s, run_call) world, unit) state" where
  "acts api [] = State_Monad.return ()"
| "acts api (c # cs) = do { _ \<leftarrow> perform api c; acts api cs }"

section \<open>ECC endpoints\<close>

definition g_eccPolicies :: "(string \<times> string) list" where
  "g_eccPolicies =
    [(''ECC_nistP256'', ''ecc-nistp256''), (''ECC_nistP384'', ''ecc-nistp384''),
     (''ECC_brainpoolP256r1'', ''ecc-brainpoolp256r1''), (''ECC_brainpoolP384r1'', ''ecc-brainpoolp384r1''),
     (''ECC_curve25519'', ''ecc-curve25519''), (''ECC_curve448'', ''ecc-curve448''),
     (''ECC_nistP256_AesGcm'', ''ecc-nistp256''), (''ECC_nistP256_ChaChaPoly'', ''ecc-nistp256'')]"

fun add_endpoints :: "('s, run_call) api \<Rightarrow> string \<Rightarrow> SecurityProfile list \<Rightarrow> (('s, run_call) world, nat) state" where
  "add_endpoints api name [] = State_Monad.return 0"
| "add_endpoints api name (sp # sps) =
    (let mode = security_mode_from_name (sp_mode sp)
     in if sp_policy sp \<noteq> Some name \<or> mode = MODE_NONE then add_endpoints api name sps
        else do {
          r \<leftarrow> perform api (AddEndpoint (''http://opcfoundation.org/UA/SecurityPolicy#'' @ name) mode);
          n \<leftarrow> add_endpoints api name sps;
          State_Monad.return (if rt_status r = GOOD then n + 1 else n)
        })"

definition ecc_path :: "string \<Rightarrow> string \<Rightarrow> string \<Rightarrow> string" where
  "ecc_path dir curveDir file = take 1099 (dir @ ''/'' @ curveDir @ ''/'' @ file)"

text \<open>One policy: skipped when the fixture does not name it, its files cannot be read, or the stack
  refuses it.\<close>

definition add_ecc_policy ::
  "file_system \<Rightarrow> ('s, run_call) api \<Rightarrow> Fixture \<Rightarrow> string \<Rightarrow> string \<times> string \<Rightarrow> (('s, run_call) world, nat) state" where
  "add_ecc_policy fs api fx dir pol =
    (let name = fst pol; cert = ecc_path dir (snd pol) ''cert.crt''; key = ecc_path dir (snd pol) ''cert.key''
     in if \<not> (\<exists>sp\<in>set (securityProfiles fx). sp_policy sp = Some name) then State_Monad.return 0
        else if (case fs cert of Inl _ \<Rightarrow> True | Inr _ \<Rightarrow> False) \<or> (case fs key of Inl _ \<Rightarrow> True | Inr _ \<Rightarrow> False) then State_Monad.return 0
        else do {
          r \<leftarrow> perform api (AddSecurityPolicyEcc name (load_cert_file fs (Some cert)) (load_cert_file fs (Some key)));
          if rt_status r \<noteq> GOOD then State_Monad.return 0 else add_endpoints api name (securityProfiles fx)
        })"

fun add_ecc_policies ::
  "file_system \<Rightarrow> ('s, run_call) api \<Rightarrow> Fixture \<Rightarrow> string \<Rightarrow> (string \<times> string) list \<Rightarrow> (('s, run_call) world, nat) state" where
  "add_ecc_policies fs api fx dir [] = State_Monad.return 0"
| "add_ecc_policies fs api fx dir (pol # pols) = do {
     n \<leftarrow> add_ecc_policy fs api fx dir pol;
     k \<leftarrow> add_ecc_policies fs api fx dir pols;
     State_Monad.return (n + k)
   }"

definition add_ecc_endpoints :: "file_system \<Rightarrow> ('s, run_call) api \<Rightarrow> Fixture \<Rightarrow> string \<Rightarrow> (('s, run_call) world, nat) state" where
  "add_ecc_endpoints fs api fx dir = add_ecc_policies fs api fx dir g_eccPolicies"

section \<open>Configuration\<close>

record environment =
  en_files :: file_system
  en_readdir :: "string \<Rightarrow> (string list \<times> string list) option"
  en_os :: os_answers
  en_utcoff :: int
  en_now :: u64
  en_turns :: nat \<comment> \<open>turns of the main loop before a signal\<close>
  en_drain :: nat \<comment> \<open>turns of the loop that waits 1.5 s for the deregistration\<close>

definition pki_dir :: "ServerArgs \<Rightarrow> string" where
  "pki_dir args = set_or (pkiDir args) ''/run/opcua-interop/pki''"

text \<open>The security part; False when the server cannot be configured.\<close>

definition configure_security ::
  "environment \<Rightarrow> ('s, run_call) api \<Rightarrow> ServerArgs \<Rightarrow> Fixture \<Rightarrow> (('s, run_call) world, bool) state" where
  "configure_security env api args fx =
    (let fs = en_files env; have_rsa = is_set (certFile args) \<and> is_set (keyFile args); have_ecc = is_set (eccDir args);
         cert = (if have_rsa then load_cert_file fs (certFile args) else None);
         key = (if have_rsa then load_cert_file fs (keyFile args) else None);
         st = server_settings args fx
     in if have_rsa \<or> have_ecc then
          (if have_rsa \<and> (cert = None \<or> key = None) then State_Monad.return False
           else do {
             r \<leftarrow> perform api (SetDefaultWithSecurityPolicies (word_of_int (bind_port st)) cert key
                    (load_trust_dir fs (en_readdir env) (take 1023 (pki_dir args @ ''/trusted/certs''))));
             if rt_status r \<noteq> GOOD then State_Monad.return False
             else if have_ecc then do {
               _ \<leftarrow> add_ecc_endpoints fs api fx (or_empty (eccDir args));
               _ \<leftarrow> perform api (AccessControlDefault True []);
               State_Monad.return True
             } else State_Monad.return True
           })
        else do {
          r \<leftarrow> perform api SetDefault;
          State_Monad.return (rt_status r = GOOD)
        })"

definition logins :: "Fixture \<Rightarrow> (string \<times> string) list" where
  "logins fx = map (\<lambda>u. (or_empty (username u), or_empty (password u))) (users fx)"

definition mdns_name :: "ServerArgs \<Rightarrow> Fixture \<Rightarrow> string" where
  "mdns_name args fx = (if is_set (mdnsName args) then or_empty (mdnsName args)
     else if lds args then ''opcua-interop-lds''
     else (case applicationName fx of Some n \<Rightarrow> n | None \<Rightarrow> ''opcua-interop''))"

definition make_config :: "ServerArgs \<Rightarrow> Fixture \<Rightarrow> server_config" where
  "make_config args fx =
    \<lparr>serverUrls = [bind_srv_url (server_settings args fx)], allowNonePolicyPassword = (0 < length (users fx)),
     reverseReconnectInterval = word_of_int (reverseIntervalMs args), discoveryServer = lds args,
     discoveryCleanupTimeout = (if lds args \<and> 0 < ldsCleanupTimeoutS args then Some (word_of_int (ldsCleanupTimeoutS args)) else None),
     mdnsServerName = mdns_name args fx,
     serverCapabilities = (if 0 < length (mdnsCaps args) then mdnsCaps args else [if lds args then ''LDS'' else ''NA'']),
     mdnsEnabled = (lds args \<or> is_set (mdnsName args))\<rparr>"

section \<open>The run\<close>

text \<open>Leaving after a failure: the calls that take the server down, and the exit code.\<close>

definition leave :: "('s, run_call) api \<Rightarrow> run_call list \<Rightarrow> int \<Rightarrow> (('s, run_call) world, int) state" where
  "leave api cs code = do { _ \<leftarrow> acts api cs; State_Monad.return code }"

text \<open>The part after the server has started; the exit code.\<close>

definition serve_until_signal :: "environment \<Rightarrow> ('s, run_call) api \<Rightarrow> ServerArgs \<Rightarrow> (('s, run_call) world, int) state" where
  "serve_until_signal env api args = do {
     _ \<leftarrow> acts api (replicate (en_turns env) (RunIterate True));
     _ \<leftarrow> (if is_set (registerWith args)
          then acts api (DeregisterDiscovery (or_empty (registerWith args)) # replicate (en_drain env) (RunIterate False))
          else State_Monad.return ());
     leave api ([DisablePubSub, RunShutdown, DeleteServer, PubSubCleanup]
       @ (if is_set (readyFile args) then [UnlinkReady (or_empty (readyFile args))] else [])) 0
   }"

text \<open>The readiness file; False when an explicitly given one cannot be written. The file system is
  taken to be one without the file: the stale one has been removed.\<close>

definition announce_ready :: "environment \<Rightarrow> ('s, run_call) api \<Rightarrow> ServerArgs \<Rightarrow> Fixture \<Rightarrow> (('s, run_call) world, bool) state" where
  "announce_ready env api args fx =
    (if is_set (readyFile args) then
       (case write_ready_file_atomic (en_os env) (readyFile args) (readyFileExplicit args) (Some ''open62541'') (fix_id fx)
              (Some (adv_url (server_settings args fx))) (\<lambda>_. None) of (rc, states) \<Rightarrow>
        if rc \<noteq> 0 then State_Monad.return False
        else do {
          _ \<leftarrow> (if (last states) (or_empty (readyFile args)) \<noteq> None then act api (ReadyFile (or_empty (readyFile args)))
               else State_Monad.return ());
          State_Monad.return True
        })
     else State_Monad.return True)"

definition connect_out :: "('s, run_call) api \<Rightarrow> ServerArgs \<Rightarrow> (('s, run_call) world, unit) state" where
  "connect_out api args = do {
     _ \<leftarrow> acts api (map AddReverseConnect (reverseConnect args));
     if is_set (registerWith args)
     then acts api [RegisterDiscovery (or_empty (registerWith args)), RepeatRegister (or_empty (registerWith args)) (registerIntervalMs args)]
     else State_Monad.return ()
   }"

definition run_started :: "environment \<Rightarrow> ('s, run_call) api \<Rightarrow> ServerArgs \<Rightarrow> Fixture \<Rightarrow> (('s, run_call) world, int) state" where
  "run_started env api args fx = do {
     _ \<leftarrow> acts api [SetDiscoveryUrls [adv_url (server_settings args fx)], PubSubInit];
     ok \<leftarrow> (if is_set (pubsubConfig args) then do {
              r \<leftarrow> perform api (PubSubApply (or_empty (pubsubConfig args)) (certFile args) (keyFile args) (pki_dir args));
              State_Monad.return (rt_status r = 0)
            } else State_Monad.return True);
     if \<not> ok then leave api [RunShutdown, DeleteServer, PubSubCleanup] 1
     else do {
       _ \<leftarrow> connect_out api args;
       ready \<leftarrow> announce_ready env api args fx;
       if \<not> ready then leave api [RunShutdown, DeleteServer] 6 else serve_until_signal env api args
     }
   }"

definition server_run :: "cjson_lib \<Rightarrow> environment \<Rightarrow> ('s, run_call) api \<Rightarrow> ServerArgs \<Rightarrow> (('s, run_call) world, int) state" where
  "server_run J env api args = (case fixture_load J (en_files env) (or_empty (fixturePath args)) of
     Inl e \<Rightarrow> State_Monad.return 1
   | Inr fx \<Rightarrow> do {
       _ \<leftarrow> (if is_set (readyFile args) then act api (UnlinkReady (or_empty (readyFile args))) else State_Monad.return ());
       configured \<leftarrow> configure_security env api args fx;
       if \<not> configured then State_Monad.return 1
       else do {
         _ \<leftarrow> (if 0 < length (users fx) then act api (AccessControlDefault True (logins fx)) else State_Monad.return ());
         _ \<leftarrow> act api PreparePubSub;
         server \<leftarrow> perform api (NewWithConfig (make_config args fx));
         if \<not> rt_found server then State_Monad.return 1
         else do {
           _ \<leftarrow> act api (SetApplication (adv_url (server_settings args fx)) (applicationUri fx) (productUri fx) (applicationName fx));
           _ \<leftarrow> on_server api (\<lambda>api. build_address_space J (en_utcoff env) (en_now env) api fx);
           r \<leftarrow> perform api RunStartup;
           if rt_status r \<noteq> GOOD then leave api [DeleteServer] 1 else run_started env api args fx
         }
       }
     })"

section \<open>The life of the server\<close>

datatype life = Created bool | Started bool | Ready | Shutdown | Deleted

fun life_event :: "run_call \<times> ret \<Rightarrow> life list" where
  "life_event (NewWithConfig _, r) = [Created (rt_found r)]"
| "life_event (RunStartup, r) = [Started (rt_status r = GOOD)]"
| "life_event (ReadyFile _, r) = [Ready]"
| "life_event (RunShutdown, r) = [Shutdown]"
| "life_event (DeleteServer, r) = [Deleted]"
| "life_event _ = []"

definition life_of :: "(run_call \<times> ret) list \<Rightarrow> life list" where
  "life_of tr = concat (map life_event tr)"

lemma life_of_simps [simp]: "life_of [] = []" "life_of (e # tr) = life_event e @ life_of tr" "life_of (tr @ tr') = life_of tr @ life_of tr'"
  by (simp_all add: life_of_def)

text \<open>The lives a run can have, by exit code.\<close>

inductive lifecycle :: "int \<Rightarrow> life list \<Rightarrow> bool" where
  not_configured: "lifecycle 1 []"
| not_created: "lifecycle 1 [Created False]"
| not_started: "lifecycle 1 [Created True, Started False, Deleted]"
| no_pubsub: "lifecycle 1 [Created True, Started True, Shutdown, Deleted]"
| not_ready: "lifecycle 6 [Created True, Started True, Shutdown, Deleted]"
| quiet: "lifecycle 0 [Created True, Started True, Shutdown, Deleted]"
| announced: "lifecycle 0 [Created True, Started True, Ready, Shutdown, Deleted]"

abbreviation always :: "'s \<Rightarrow> bool" where "always \<equiv> (\<lambda>_. True)"

lemma keeps_always: "keeps always api"
  by (simp add: keeps_def)

lemma runs_acts: "runs always (acts api cs) (\<lambda>_ new. map fst new = cs)"
proof (induction cs)
  case (Cons c cs)
  show ?case unfolding acts.simps
    by (rule runs_bind [OF runs_call [OF keeps_always]], rule runs_mono [OF Cons]) simp
qed (simp add: runs_return)

declare acts.simps [simp del]

lemma runs_act: "runs always (act api c) (\<lambda>_ new. \<exists>r. new = [(c, r)])"
  unfolding act_def by (rule runs_bind [OF runs_call [OF keeps_always]], rule runs_return) simp

lemma runs_on_server: "runs always (on_server api m) (\<lambda>_ new. life_of new = [])"
proof (rule runsI)
  fix s tr x s' tr' assume "run_state (on_server api m) (s, tr) = (x, s', tr')"
  then obtain new where "tr' = tr @ map (\<lambda>(c, r). (OnServer c, r)) new" by (auto simp: on_server_def split: prod.splits)
  moreover have "life_of (map (\<lambda>(c, r). (OnServer c, r)) new) = []" by (induction new) auto
  ultimately show "True \<and> (\<exists>new. tr' = tr @ new \<and> life_of new = [])" by blast
qed

definition eventless :: "run_call \<Rightarrow> bool" where
  "eventless c \<longleftrightarrow> (\<forall>r. life_event (c, r) = [])"

lemma life_of_eventless: "\<forall>e\<in>set new. eventless (fst e) \<Longrightarrow> life_of new = []"
  by (induction new) (auto simp: eventless_def)

lemma eventless_calls [simp]: "eventless (UnlinkReady f)" "eventless (AccessControlDefault b l)" "eventless PreparePubSub"
  "eventless (SetApplication u a p n)" "eventless (SetDiscoveryUrls us)" "eventless PubSubInit" "eventless (PubSubApply f c' k' d)"
  "eventless (AddReverseConnect u)" "eventless (RegisterDiscovery u)" "eventless (RepeatRegister u i)" "eventless (RunIterate b)"
  "eventless (DeregisterDiscovery u)" "eventless DisablePubSub" "eventless PubSubCleanup" "eventless SetDefault"
  "eventless (SetDefaultWithSecurityPolicies pt c k t)" "eventless (AddSecurityPolicyEcc f c k)" "eventless (AddEndpoint u m)"
  by (simp_all add: eventless_def)

lemma runs_eventless_acts: "\<forall>c\<in>set cs. eventless c \<Longrightarrow> runs always (acts api cs) (\<lambda>_ new. life_of new = [])"
  by (rule runs_mono [OF runs_acts], rule life_of_eventless) force

lemma runs_eventless_act: "eventless c \<Longrightarrow> runs always (act api c) (\<lambda>_ new. life_of new = [])"
  by (rule runs_mono [OF runs_act]) (auto simp: eventless_def)

lemma runs_eventless_perform: "eventless c \<Longrightarrow> runs always (perform api c) (\<lambda>_ new. life_of new = [])"
  by (rule runs_mono [OF runs_call [OF keeps_always]]) (auto simp: eventless_def)

lemmas runs_eventless = runs_eventless_acts runs_eventless_act runs_eventless_perform

text \<open>A computation without life events in sequence with another.\<close>

lemma runs_quiet:
  assumes "runs always m (\<lambda>_ new. life_of new = [])" "\<And>x. runs always (f x) (\<lambda>y new. R y (life_of new))"
  shows "runs always (State_Monad.bind m f) (\<lambda>y new. R y (life_of new))"
  by (rule runs_bind [OF assms(1)], rule runs_mono [OF assms(2)]) simp

lemma runs_quiet_end:
  "runs always m (\<lambda>_ new. life_of new = []) \<Longrightarrow> (\<And>x. runs always (f x) (\<lambda>_ new. life_of new = [])) \<Longrightarrow>
    runs always (State_Monad.bind m f) (\<lambda>_ new. life_of new = [])"
  by (rule runs_quiet [where R = "\<lambda>_ l. l = []"])

lemma runs_quiet_return: "runs always (State_Monad.return x) (\<lambda>_ new. life_of new = [])"
  by (rule runs_return) simp

lemma runs_add_endpoints: "runs always (add_endpoints api name sps) (\<lambda>_ new. life_of new = [])"
  by (induction sps) (auto simp: Let_def intro!: runs_quiet_end runs_eventless runs_quiet_return)

lemma runs_add_ecc_policies: "runs always (add_ecc_policies fs api fx dir pols) (\<lambda>_ new. life_of new = [])"
  by (induction pols) (auto simp: add_ecc_policy_def Let_def intro!: runs_quiet_end runs_eventless runs_quiet_return runs_add_endpoints)

lemma runs_configure: "runs always (configure_security env api args fx) (\<lambda>_ new. life_of new = [])"
  unfolding configure_security_def add_ecc_endpoints_def
  by (auto simp: Let_def intro!: runs_quiet_end runs_eventless runs_quiet_return runs_add_ecc_policies)

lemma runs_connect_out: "runs always (connect_out api args) (\<lambda>_ new. life_of new = [])"
  unfolding connect_out_def by (auto intro!: runs_quiet_end runs_eventless runs_quiet_return)

lemma runs_leave: "runs always (leave api cs code) (\<lambda>y new. y = code \<and> map fst new = cs)"
  unfolding leave_def by (rule runs_bind [OF runs_acts], rule runs_return) simp

text \<open>The events of a list of calls whose answers do not matter.\<close>

fun call_life :: "run_call \<Rightarrow> life list" where
  "call_life (ReadyFile _) = [Ready]"
| "call_life RunShutdown = [Shutdown]"
| "call_life DeleteServer = [Deleted]"
| "call_life _ = []"

fun plain_call :: "run_call \<Rightarrow> bool" where
  "plain_call (NewWithConfig _) = False"
| "plain_call RunStartup = False"
| "plain_call _ = True"

lemma life_of_plain: "\<forall>c\<in>set (map fst new). plain_call c \<Longrightarrow> life_of new = concat (map call_life (map fst new))"
proof (induction new)
  case (Cons e new)
  moreover have "plain_call (fst e) \<Longrightarrow> life_event e = call_life (fst e)" by (cases e; cases "fst e") auto
  ultimately show ?case by simp
qed simp

lemma runs_leave_life:
  "\<forall>c\<in>set cs. plain_call c \<Longrightarrow> runs always (leave api cs code) (\<lambda>y new. y = code \<and> life_of new = concat (map call_life cs))"
  by (rule runs_mono [OF runs_leave]) (use life_of_plain in fastforce)

lemma runs_serve: "runs always (serve_until_signal env api args) (\<lambda>y new. y = 0 \<and> life_of new = [Shutdown, Deleted])"
  unfolding serve_until_signal_def
  by (intro runs_quiet [where R = "\<lambda>y l. y = 0 \<and> l = [Shutdown, Deleted]"])
    (auto intro!: runs_eventless runs_quiet_return runs_mono [OF runs_leave_life])

lemma runs_announce: "runs always (announce_ready env api args fx) (\<lambda>ok new. life_of new = [] \<or> ok \<and> life_of new = [Ready])"
  unfolding announce_ready_def
  by (auto split: prod.split intro!: runs_return runs_bind [OF runs_act])

lemma runs_run_started:
  "runs always (run_started env api args fx) (\<lambda>code new. lifecycle code ([Created True, Started True] @ life_of new))"
  unfolding run_started_def
proof (rule runs_quiet, rule runs_eventless_acts, simp, rule runs_quiet)
  show "runs always (if is_set (pubsubConfig args) then do {
              r \<leftarrow> perform api (PubSubApply (or_empty (pubsubConfig args)) (certFile args) (keyFile args) (pki_dir args));
              State_Monad.return (rt_status r = 0)
            } else State_Monad.return True) (\<lambda>_ new. life_of new = [])"
    by (auto intro!: runs_quiet_end runs_eventless runs_quiet_return)
  fix ok
  have stop: "runs always (leave api [RunShutdown, DeleteServer, PubSubCleanup] 1) (\<lambda>code new. lifecycle code ([Created True, Started True] @ life_of new))"
    by (rule runs_mono [OF runs_leave_life]) (auto intro: lifecycle.intros)
  have "runs always (if \<not> ready then leave api [RunShutdown, DeleteServer] 6 else serve_until_signal env api args)
      (\<lambda>code new'. lifecycle code ([Created True, Started True] @ life_of (new @ new')))"
    if "life_of new = [] \<or> ready \<and> life_of new = [Ready]" for ready new
    using that by (cases ready) (auto intro!: runs_mono [OF runs_leave_life] runs_mono [OF runs_serve] intro: lifecycle.intros)
  then have "runs always (do {
       ready \<leftarrow> announce_ready env api args fx;
       if \<not> ready then leave api [RunShutdown, DeleteServer] 6 else serve_until_signal env api args
     }) (\<lambda>code new. lifecycle code ([Created True, Started True] @ life_of new))"
    by (intro runs_bind [OF runs_announce]) simp
  then show "runs always (if \<not> ok then leave api [RunShutdown, DeleteServer, PubSubCleanup] 1
     else do {
       _ \<leftarrow> connect_out api args;
       ready \<leftarrow> announce_ready env api args fx;
       if \<not> ready then leave api [RunShutdown, DeleteServer] 6 else serve_until_signal env api args
     }) (\<lambda>code new. lifecycle code ([Created True, Started True] @ life_of new))"
    using stop by (auto intro!: runs_quiet runs_connect_out)
qed

lemma runs_startup:
  "runs always (do {
     r \<leftarrow> perform api RunStartup;
     if rt_status r \<noteq> GOOD then leave api [DeleteServer] 1 else run_started env api args fx
   }) (\<lambda>code new. lifecycle code (Created True # life_of new))"
proof (rule runs_bind [OF runs_call [OF keeps_always]])
  fix x :: ret and new assume n: "new = [(RunStartup, x)]"
  show "runs always (if rt_status x \<noteq> GOOD then leave api [DeleteServer] 1 else run_started env api args fx)
      (\<lambda>code new'. lifecycle code (Created True # life_of (new @ new')))"
  proof (cases "rt_status x = GOOD")
    case True
    then show ?thesis using runs_run_started [of env api args fx] by (simp add: n)
  next
    case False
    have "runs always (leave api [DeleteServer] 1) (\<lambda>code new'. lifecycle code (Created True # life_of (new @ new')))"
      by (rule runs_mono [OF runs_leave_life]) (use False n in \<open>auto intro: lifecycle.intros\<close>)
    then show ?thesis using False by simp
  qed
qed

lemma runs_create:
  "runs always (do {
     server \<leftarrow> perform api (NewWithConfig cfg);
     if \<not> rt_found server then State_Monad.return 1
     else do {
       _ \<leftarrow> act api (SetApplication u a p n);
       _ \<leftarrow> on_server api m;
       r \<leftarrow> perform api RunStartup;
       if rt_status r \<noteq> GOOD then leave api [DeleteServer] 1 else run_started env api args fx
     }
   }) (\<lambda>code new. lifecycle code (life_of new))"
proof (rule runs_bind [OF runs_call [OF keeps_always]])
  fix x :: ret and new assume n: "new = [(NewWithConfig cfg, x)]"
  have go: "runs always (do {
       _ \<leftarrow> act api (SetApplication u a p n);
       _ \<leftarrow> on_server api m;
       r \<leftarrow> perform api RunStartup;
       if rt_status r \<noteq> GOOD then leave api [DeleteServer] 1 else run_started env api args fx
     }) (\<lambda>code new'. lifecycle code (Created True # life_of new'))"
    by (rule runs_quiet, rule runs_eventless_act, simp, rule runs_quiet [OF runs_on_server], rule runs_startup)
  show "runs always (if \<not> rt_found x then State_Monad.return 1
     else do {
       _ \<leftarrow> act api (SetApplication u a p n);
       _ \<leftarrow> on_server api m;
       r \<leftarrow> perform api RunStartup;
       if rt_status r \<noteq> GOOD then leave api [DeleteServer] 1 else run_started env api args fx
     }) (\<lambda>code new'. lifecycle code (life_of (new @ new')))"
    using go by (cases "rt_found x") (auto simp: n intro!: runs_return lifecycle.intros)
qed

lemma runs_server_run: "runs always (server_run J env api args) (\<lambda>code new. lifecycle code (life_of new))"
proof (cases "fixture_load J (en_files env) (or_empty (fixturePath args))")
  case (Inl e)
  then show ?thesis by (auto simp: server_run_def intro!: runs_return lifecycle.intros)
next
  case (Inr fx)
  show ?thesis
    unfolding server_run_def Inr sum.case
  proof (rule runs_quiet)
    show "runs always (if is_set (readyFile args) then act api (UnlinkReady (or_empty (readyFile args))) else State_Monad.return ())
        (\<lambda>_ new. life_of new = [])" by (auto intro!: runs_eventless runs_quiet_return)
    show "runs always (do {
       configured \<leftarrow> configure_security env api args fx;
       if \<not> configured then State_Monad.return 1
       else do {
         _ \<leftarrow> (if 0 < length (users fx) then act api (AccessControlDefault True (logins fx)) else State_Monad.return ());
         _ \<leftarrow> act api PreparePubSub;
         server \<leftarrow> perform api (NewWithConfig (make_config args fx));
         if \<not> rt_found server then State_Monad.return 1
         else do {
           _ \<leftarrow> act api (SetApplication (adv_url (server_settings args fx)) (applicationUri fx) (productUri fx) (applicationName fx));
           _ \<leftarrow> on_server api (\<lambda>api. build_address_space J (en_utcoff env) (en_now env) api fx);
           r \<leftarrow> perform api RunStartup;
           if rt_status r \<noteq> GOOD then leave api [DeleteServer] 1 else run_started env api args fx
         }
       }
     }) (\<lambda>code new. lifecycle code (life_of new))"
      by (rule runs_quiet [OF runs_configure])
        (auto intro!: runs_return lifecycle.intros runs_quiet runs_eventless runs_quiet_return runs_create)
  qed
qed

text \<open>C5 The life of the server: whatever the stack, the files and the clock do, a run is one of seven
  sequences of events, and its exit code says which. The readiness file appears only after a
  successful start; a server that was created is deleted exactly once, at the end, and one that was
  started is shut down first; exit code 0 means that it was started and shut down in order, 6 that
  an explicit readiness file could not be written.\<close>

theorem server_lifecycle:
  assumes "run_state (server_run J env api args) (s, []) = (code, s', tr)"
  shows "lifecycle code (life_of tr)"
  using runsD [OF runs_server_run _ assms] by auto

text \<open>A stack on which everything succeeds.\<close>

definition good_api :: "(unit, run_call) api" where
  "good_api s c = (plain_ret\<lparr>rt_found := True\<rparr>, ())"

definition example_env :: environment where
  "example_env = \<lparr>en_files = (\<lambda>_. Ok ''x''), en_readdir = (\<lambda>_. None),
     en_os = \<lparr>can_create = (\<lambda>_. True), can_rename = (\<lambda>_ _. True)\<rparr>, en_utcoff = 0, en_now = 0, en_turns = 3, en_drain = 0\<rparr>"

theorem server_lifecycle_witness:
  "\<exists>code. code \<in> {0, 1, 6} \<and> lifecycle code (life_of (snd (snd (run_state (server_run example_json example_env good_api example_args) ((), [])))))"
proof -
  obtain code s' tr where r: "run_state (server_run example_json example_env good_api example_args) ((), []) = (code, s', tr)"
    by (metis prod.exhaust)
  have l: "lifecycle code (life_of tr)" by (rule server_lifecycle [OF r])
  then have "code \<in> {0, 1, 6}" by (cases rule: lifecycle.cases) auto
  with l show ?thesis unfolding r by auto
qed

inductive_cases lifecycle_Cons: "lifecycle code (e # es)"

section \<open>ECC endpoints\<close>

fun good_endpoint :: "run_call \<times> ret \<Rightarrow> bool" where
  "good_endpoint (AddEndpoint _ _, r) = (rt_status r = GOOD)"
| "good_endpoint _ = False"

fun endpoint_ok :: "SecurityProfile list \<Rightarrow> run_call \<Rightarrow> bool" where
  "endpoint_ok sps (AddEndpoint uri mode) = (mode \<noteq> MODE_NONE \<and> (\<exists>sp\<in>set sps. \<exists>name\<in>fst ` set g_eccPolicies.
     sp_policy sp = Some name \<and> mode = security_mode_from_name (sp_mode sp) \<and> uri = ''http://opcfoundation.org/UA/SecurityPolicy#'' @ name))"
| "endpoint_ok sps _ = True"

definition endpoints_ok :: "SecurityProfile list \<Rightarrow> nat \<Rightarrow> (run_call \<times> ret) list \<Rightarrow> bool" where
  "endpoints_ok sps n new \<longleftrightarrow> n = length (filter good_endpoint new) \<and> list_all (\<lambda>e. endpoint_ok sps (fst e)) new"

lemma endpoints_ok_append: "endpoints_ok sps n a \<Longrightarrow> endpoints_ok sps k b \<Longrightarrow> endpoints_ok sps (n + k) (a @ b)"
  by (auto simp: endpoints_ok_def)

lemma runs_endpoints:
  assumes "name \<in> fst ` set g_eccPolicies"
  shows "set sps \<subseteq> set all \<Longrightarrow> runs always (add_endpoints api name sps) (endpoints_ok all)"
proof (induction sps)
  case Nil
  show ?case by (auto simp: endpoints_ok_def intro: runs_return)
next
  case (Cons sp sps)
  then have IH: "runs always (add_endpoints api name sps) (endpoints_ok all)" and sp: "sp \<in> set all" by auto
  show ?case
  proof (cases "sp_policy sp \<noteq> Some name \<or> security_mode_from_name (sp_mode sp) = MODE_NONE")
    case True
    then show ?thesis using IH by (simp add: Let_def)
  next
    case False
    then have "endpoint_ok all (AddEndpoint (''http://opcfoundation.org/UA/SecurityPolicy#'' @ name) (security_mode_from_name (sp_mode sp)))"
      using assms sp by auto
    then show ?thesis using False unfolding add_endpoints.simps Let_def
      by (simp del: endpoint_ok.simps, intro runs_bind [OF runs_call [OF keeps_always]] runs_bind [OF IH] runs_return)
        (auto simp: endpoints_ok_def simp del: endpoint_ok.simps)
  qed
qed

lemma runs_ecc_policy:
  "pol \<in> set g_eccPolicies \<Longrightarrow> runs always (add_ecc_policy fs api fx dir pol) (endpoints_ok (securityProfiles fx))"
  by (auto simp: add_ecc_policy_def Let_def endpoints_ok_def intro!: runs_return runs_bind [OF runs_call [OF keeps_always]]
      runs_mono [OF runs_endpoints [of "fst pol" "securityProfiles fx" "securityProfiles fx"]])

lemma runs_ecc_policies:
  "set pols \<subseteq> set g_eccPolicies \<Longrightarrow> runs always (add_ecc_policies fs api fx dir pols) (endpoints_ok (securityProfiles fx))"
proof (induction pols)
  case (Cons pol pols)
  then have IH: "runs always (add_ecc_policies fs api fx dir pols) (endpoints_ok (securityProfiles fx))" and p: "pol \<in> set g_eccPolicies" by auto
  show ?case unfolding add_ecc_policies.simps
    by (rule runs_bind [OF runs_ecc_policy [OF p]], rule runs_bind [OF IH], rule runs_return) (simp add: endpoints_ok_append)
qed (auto simp: endpoints_ok_def intro: runs_return)

text \<open>ECC endpoints: the number returned is the number of endpoints the stack accepted; every
  endpoint asked for is one of the fixture's security profiles with a policy of the table, and
  none is offered without message security.\<close>

lemma ecc_endpoints_sound:
  assumes "run_state (add_ecc_endpoints fs api fx dir) (s, []) = (n, s', tr)"
  shows "n = length (filter good_endpoint tr) \<and> (\<forall>e\<in>set tr. endpoint_ok (securityProfiles fx) (fst e))"
  using runsD [OF runs_ecc_policies [OF order_refl] _ assms [unfolded add_ecc_endpoints_def]] by (auto simp: endpoints_ok_def list_all_iff)

definition ecc_fixture :: Fixture where
  "ecc_fixture = \<lparr>schemaVersion = None, fix_id = None, fix_description = None, applicationUri = None, productUri = None,
     applicationName = None, port = 0, endpointPath = None, namespaces = [], nodes = [], behaviors = [],
     securityProfiles = [\<lparr>sp_policy = Some ''ECC_curve448'', sp_mode = Some ''Sign''\<rparr>, \<lparr>sp_policy = Some ''ECC_curve448'', sp_mode = Some ''None''\<rparr>],
     users = []\<rparr>"

lemma ecc_endpoints_sound_witness:
  "\<exists>n tr. n = length (filter good_endpoint tr) \<and> run_state (add_ecc_endpoints (\<lambda>_. Ok ''x'') good_api ecc_fixture ''e'') ((), []) = (n, (), tr)"
proof -
  obtain n tr where r: "run_state (add_ecc_endpoints (\<lambda>_. Ok ''x'') good_api ecc_fixture ''e'') ((), []) = (n, (), tr)"
    by (metis old.unit.exhaust prod.exhaust)
  from ecc_endpoints_sound [OF r] r show ?thesis by blast
qed

section \<open>A run on a stack that accepts everything\<close>

definition accepting :: "('s, run_call) api \<Rightarrow> bool" where
  "accepting api \<longleftrightarrow> (\<forall>s c. rt_status (fst (api s c)) = GOOD \<and> rt_found (fst (api s c)))"

definition certificates_ok :: "file_system \<Rightarrow> ServerArgs \<Rightarrow> bool" where
  "certificates_ok fs args \<longleftrightarrow> (is_set (certFile args) \<and> is_set (keyFile args) \<longrightarrow>
     load_cert_file fs (certFile args) \<noteq> None \<and> load_cert_file fs (keyFile args) \<noteq> None)"

definition can_announce :: "os_answers \<Rightarrow> ServerArgs \<Rightarrow> bool" where
  "can_announce os args \<longleftrightarrow> (is_set (readyFile args) \<longrightarrow> can_create os (tmp_path (or_empty (readyFile args))) \<and>
     can_rename os (tmp_path (or_empty (readyFile args))) (or_empty (readyFile args)))"

lemma runs_trivial: "runs always m Q \<Longrightarrow> runs always m (\<lambda>_ _. True)"
  by (rule runs_mono) simp_all

lemma runs_unless: "b \<Longrightarrow> runs P m Q \<Longrightarrow> runs P (if \<not> b then m' else m) Q"
  by simp

lemma runs_accepted: "accepting api \<Longrightarrow> runs always (perform api c) (\<lambda>r new. rt_status r = GOOD \<and> rt_found r)"
  by (rule runs_perform [OF keeps_always]) (auto simp: accepting_def)

lemma runs_configure_ok:
  assumes "accepting api" "certificates_ok (en_files env) args"
  shows "runs always (configure_security env api args fx) (\<lambda>ok _. ok)"
  using assms(2) unfolding configure_security_def Let_def certificates_ok_def add_ecc_endpoints_def
  by (auto intro!: runs_return runs_bind [OF runs_accepted [OF assms(1)]] runs_bind [OF runs_trivial [OF runs_add_ecc_policies]])

lemma announce_answer:
  assumes "can_announce (en_os env) args" "is_set (readyFile args)"
  shows "\<exists>states. write_ready_file_atomic (en_os env) (readyFile args) e a i u fs = (0, states) \<and>
    (last states) (or_empty (readyFile args)) \<noteq> None"
proof -
  obtain p where p: "readyFile args = Some p" "p \<noteq> []" using assms(2) by (auto simp: is_set_def split: option.splits list.splits)
  then show ?thesis using assms(1)
    by (auto simp: can_announce_def is_set_def or_empty_def write_ready_file_atomic_def Let_def neq_Nil_conv)
qed

lemma runs_announce_ok:
  assumes "can_announce (en_os env) args"
  shows "runs always (announce_ready env api args fx) (\<lambda>ok new. ok \<and> (is_set (readyFile args) \<longrightarrow> life_of new = [Ready]))"
proof (cases "is_set (readyFile args)")
  case True
  obtain states where "write_ready_file_atomic (en_os env) (readyFile args) (readyFileExplicit args) (Some ''open62541'') (fix_id fx)
      (Some (adv_url (server_settings args fx))) (\<lambda>_. None) = (0, states)" "(last states) (or_empty (readyFile args)) \<noteq> None"
    using announce_answer [OF assms True] by blast
  with True show ?thesis unfolding announce_ready_def by (auto intro!: runs_return runs_bind [OF runs_act])
qed (simp add: announce_ready_def runs_return)

definition ran_ready :: "ServerArgs \<Rightarrow> int \<Rightarrow> life list \<Rightarrow> bool" where
  "ran_ready args code l \<longleftrightarrow> code = 0 \<and> (is_set (readyFile args) \<longrightarrow> Ready \<in> set l)"

lemma runs_started_ok:
  assumes "accepting api" "can_announce (en_os env) args"
  shows "runs always (run_started env api args fx) (\<lambda>code new. ran_ready args code (life_of new))"
  unfolding run_started_def
proof (rule runs_bind [OF runs_trivial [OF runs_acts]], rule runs_bind)
  fix new0 :: "(run_call \<times> ret) list" and x0 :: unit
  show "runs always (if is_set (pubsubConfig args) then do {
              r \<leftarrow> perform api (PubSubApply (or_empty (pubsubConfig args)) (certFile args) (keyFile args) (pki_dir args));
              State_Monad.return (rt_status r = 0)
            } else State_Monad.return True) (\<lambda>ok _. ok)"
    by (auto intro!: runs_return runs_bind [OF runs_accepted [OF assms(1)]])
  fix ok new1 assume ok: "ok"
  have "runs always (do {
       _ \<leftarrow> connect_out api args;
       ready \<leftarrow> announce_ready env api args fx;
       if \<not> ready then leave api [RunShutdown, DeleteServer] 6 else serve_until_signal env api args
     }) (\<lambda>code new'. ran_ready args code (life_of (new0 @ new1 @ new')))"
    by (intro runs_bind [OF runs_trivial [OF runs_connect_out]] runs_bind [OF runs_announce_ok [OF assms(2)]])
      (auto simp: ran_ready_def intro!: runs_mono [OF runs_serve])
  then show "runs always (if \<not> ok then leave api [RunShutdown, DeleteServer, PubSubCleanup] 1
     else do {
       _ \<leftarrow> connect_out api args;
       ready \<leftarrow> announce_ready env api args fx;
       if \<not> ready then leave api [RunShutdown, DeleteServer] 6 else serve_until_signal env api args
     }) (\<lambda>code new'. ran_ready args code (life_of (new0 @ new1 @ new')))"
    using ok by simp
qed

lemma runs_accepted_run:
  assumes "accepting api" "certificates_ok (en_files env) args" "can_announce (en_os env) args"
    and "fixture_load J (en_files env) (or_empty (fixturePath args)) = Ok fx"
  shows "runs always (server_run J env api args) (\<lambda>code new. ran_ready args code (life_of new))"
  unfolding server_run_def assms(4) sum.case
proof (rule runs_bind)
  show "runs always (if is_set (readyFile args) then act api (UnlinkReady (or_empty (readyFile args))) else State_Monad.return ()) (\<lambda>_ _. True)"
    by (auto intro!: runs_trivial [OF runs_act] runs_return)
  have users: "runs always (if 0 < length (users fx) then act api (AccessControlDefault True (logins fx)) else State_Monad.return ()) (\<lambda>_ _. True)"
    by (auto intro!: runs_trivial [OF runs_act] runs_return)
  have last_part: "runs always (run_started env api args fx) (\<lambda>code new'. ran_ready args code (life_of (new @ new')))" for new
    by (rule runs_mono [OF runs_started_ok [OF assms(1,3)]]) (auto simp: ran_ready_def)
  fix new :: "(run_call \<times> ret) list" and x :: unit
  show "runs always (do {
       configured \<leftarrow> configure_security env api args fx;
       if \<not> configured then State_Monad.return 1
       else do {
         _ \<leftarrow> (if 0 < length (users fx) then act api (AccessControlDefault True (logins fx)) else State_Monad.return ());
         _ \<leftarrow> act api PreparePubSub;
         server \<leftarrow> perform api (NewWithConfig (make_config args fx));
         if \<not> rt_found server then State_Monad.return 1
         else do {
           _ \<leftarrow> act api (SetApplication (adv_url (server_settings args fx)) (applicationUri fx) (productUri fx) (applicationName fx));
           _ \<leftarrow> on_server api (\<lambda>api. build_address_space J (en_utcoff env) (en_now env) api fx);
           r \<leftarrow> perform api RunStartup;
           if rt_status r \<noteq> GOOD then leave api [DeleteServer] 1 else run_started env api args fx
         }
       }
     }) (\<lambda>code new'. ran_ready args code (life_of (new @ new')))"
    by (rule runs_bind [OF runs_configure_ok [OF assms(1,2)]], rule runs_unless, assumption,
        rule runs_bind [OF users], rule runs_bind [OF runs_trivial [OF runs_act]], rule runs_bind [OF runs_accepted [OF assms(1)]],
        rule runs_unless, simp, rule runs_bind [OF runs_trivial [OF runs_act]], rule runs_bind [OF runs_trivial [OF runs_on_server]],
        rule runs_bind [OF runs_accepted [OF assms(1)]], rule runs_unless, simp)
      (simp only: append_assoc [symmetric] last_part)
qed

text \<open>C15 Liveness: with a fixture that loads, usable certificates, a writable place for the readiness
  file and a stack that accepts its calls, the server comes up, announces itself if asked to, and
  after the signal exits with code 0.\<close>

theorem server_becomes_ready:
  assumes "accepting api" and "certificates_ok (en_files env) args" and "can_announce (en_os env) args"
    and "fixture_load J (en_files env) (or_empty (fixturePath args)) = Ok fx"
    and "run_state (server_run J env api args) (s, []) = (code, s', tr)"
  shows "code = 0 \<and> (is_set (readyFile args) \<longrightarrow> Ready \<in> set (life_of tr))"
  using runsD [OF runs_accepted_run [OF assms(1-4)] _ assms(5)] by (auto simp: ran_ready_def)

theorem server_becomes_ready_witness:
  "fst (run_state (server_run example_json example_env good_api example_args) ((), [])) = 0 \<and>
   Ready \<in> set (life_of (snd (snd (run_state (server_run example_json example_env good_api example_args) ((), [])))))"
proof -
  obtain code s' tr where r: "run_state (server_run example_json example_env good_api example_args) ((), []) = (code, s', tr)"
    by (metis prod.exhaust)
  have "\<exists>fx. fixture_of_json example_json example_doc = Inr fx"
    using fixture_of_json_reads [of example_json example_doc] example_entry_ok by blast
  then obtain fx where "fixture_of_json example_json example_doc = Ok fx" ..
  then have fx: "fixture_load example_json (en_files example_env) (or_empty (fixturePath example_args)) = Ok fx"
    by (simp add: fixture_load_def Let_def example_env_def example_json_def)
  have "code = 0 \<and> (is_set (readyFile example_args) \<longrightarrow> Ready \<in> set (life_of tr))"
    by (rule server_becomes_ready [OF _ _ _ fx r])
      (simp_all add: accepting_def good_api_def plain_ret_def certificates_ok_def can_announce_def example_args_def server_args_zero_def is_set_def example_env_def)
  then show ?thesis unfolding r by (simp add: example_args_def server_args_zero_def is_set_def)
qed

end
