(* ===== verification/PubSub_Security.thy ===== *)
theory PubSub_Security
  imports Server_Methods
begin

text \<open>
  pubsub_security.c: the PubSub message security policies on OpenSSL. HMAC, AES-CTR and the random
  number generator of OpenSSL are the record \<open>crypto\<close>, a parameter; what is relied on of them is
  stated as a hypothesis where it is needed. A group context is the record of its fixed arrays.
\<close>

section \<open>The policies\<close>

record crypto =
  HMAC_sha256 :: "byte list \<Rightarrow> byte list \<Rightarrow> byte list option" \<comment> \<open>key, message\<close>
  aes_ctr :: "nat \<Rightarrow> byte list \<Rightarrow> byte list \<Rightarrow> byte list \<Rightarrow> byte list option" \<comment> \<open>key length, key, counter block, data\<close>
  RAND_bytes :: "nat \<Rightarrow> byte list option"

abbreviation SHA256_LENGTH :: nat where "SHA256_LENGTH \<equiv> 32"
abbreviation SIGNING_KEY_LENGTH :: nat where "SIGNING_KEY_LENGTH \<equiv> 32"
abbreviation KEYNONCE_LENGTH :: nat where "KEYNONCE_LENGTH \<equiv> 4"
abbreviation MESSAGENONCE_LENGTH :: nat where "MESSAGENONCE_LENGTH \<equiv> 8"
abbreviation MAX_ENCRYPTING_KEY :: nat where "MAX_ENCRYPTING_KEY \<equiv> 32"

record PolicyContext =
  policyUri :: string
  pc_encryptingKeyLength :: nat

record GroupContext =
  encryptingKeyLength :: nat
  signingKey :: "byte list"
  encryptingKey :: "byte list"
  keyNonce :: "byte list"
  messageNonce :: "byte list"

definition enc_len :: "PolicyContext \<Rightarrow> nat" where
  "enc_len p = pc_encryptingKeyLength p"

definition hmac_sha256 :: "crypto \<Rightarrow> byte list \<Rightarrow> byte list \<Rightarrow> byte list option" where
  "hmac_sha256 C key msg = (case HMAC_sha256 C key msg of None \<Rightarrow> None
     | Some out \<Rightarrow> if length out = SHA256_LENGTH then Some out else None)"

definition verify_ctr :: "crypto \<Rightarrow> GroupContext option \<Rightarrow> byte list option \<Rightarrow> byte list option \<Rightarrow> u32" where
  "verify_ctr C gContext message signature = (case (gContext, message, signature) of
     (Some gc, Some msg, Some sig) \<Rightarrow>
       (if length sig \<noteq> SHA256_LENGTH then BADSECURITYCHECKSFAILED
        else (case hmac_sha256 C (signingKey gc) msg of
            None \<Rightarrow> BADSECURITYCHECKSFAILED
          | Some mac \<Rightarrow> if mac \<noteq> sig then BADSECURITYCHECKSFAILED else GOOD))
   | _ \<Rightarrow> BADINTERNALERROR)"

text \<open>The signature buffer before the call, and the status and the buffer after it.\<close>

definition sign_ctr :: "crypto \<Rightarrow> GroupContext option \<Rightarrow> byte list option \<Rightarrow> byte list option \<Rightarrow> u32 \<times> byte list option" where
  "sign_ctr C gContext message signature = (case (gContext, message, signature) of
     (Some gc, Some msg, Some buf) \<Rightarrow>
       (if length buf \<noteq> SHA256_LENGTH then (BADINTERNALERROR, signature)
        else (case hmac_sha256 C (signingKey gc) msg of
            None \<Rightarrow> (BADSECURITYCHECKSFAILED, signature)
          | Some mac \<Rightarrow> (GOOD, Some mac)))
   | _ \<Rightarrow> (BADINTERNALERROR, signature))"

definition signature_size :: nat where "signature_size = SHA256_LENGTH"
definition signing_key_length :: nat where "signing_key_length = SIGNING_KEY_LENGTH"
definition encrypting_key_length :: "PolicyContext \<Rightarrow> nat" where "encrypting_key_length p = enc_len p"

text \<open>The first counter block: KeyNonce, MessageNonce, block counter 1.\<close>

definition counter_block :: "GroupContext \<Rightarrow> byte list" where
  "counter_block gc = keyNonce gc @ messageNonce gc @ [0, 0, 0, 1]"

text \<open>AES-128 reads 16 bytes of the key array, AES-256 all 32.\<close>

definition crypt_ctr :: "crypto \<Rightarrow> GroupContext option \<Rightarrow> byte list option \<Rightarrow> u32 \<times> byte list option" where
  "crypt_ctr C gContext data = (case (gContext, data) of
     (Some gc, Some d) \<Rightarrow>
       (if length d = 0 then (GOOD, data)
        else
          let n = (if encryptingKeyLength gc = 32 then 32 else 16)
          in (case aes_ctr C n (take n (encryptingKey gc)) (counter_block gc) d of
                None \<Rightarrow> (BADINTERNALERROR, data)
              | Some d' \<Rightarrow> (GOOD, Some d')))
   | _ \<Rightarrow> (BADINTERNALERROR, data))"

text \<open>The loop of \<open>generate_key_ctr\<close>: off bytes are written, a is A(i).\<close>

function generate_loop :: "crypto \<Rightarrow> byte list \<Rightarrow> byte list \<Rightarrow> nat \<Rightarrow> byte list \<Rightarrow> nat \<Rightarrow> byte list \<Rightarrow> byte list option" where
  "generate_loop C secret seed len a off out =
    (if off < len then
       (case (hmac_sha256 C secret (a @ seed), hmac_sha256 C secret a) of
          (Some block, Some nxt) \<Rightarrow>
            (let n = (if len - off < SHA256_LENGTH then len - off else SHA256_LENGTH)
             in generate_loop C secret seed len nxt (off + n) (out @ take n block))
        | _ \<Rightarrow> None)
     else Some out)"
  by auto
termination by (relation "measure (\<lambda>(C, secret, seed, len, a, off, out). len - off)") (auto simp: Let_def)

declare generate_loop.simps [simp del]

definition generate_key_ctr :: "crypto \<Rightarrow> byte list \<Rightarrow> byte list \<Rightarrow> nat \<Rightarrow> u32 \<times> byte list option" where
  "generate_key_ctr C secret seed len = (case hmac_sha256 C secret seed of
     None \<Rightarrow> (BADINTERNALERROR, None)
   | Some a \<Rightarrow> (case generate_loop C secret seed len a 0 [] of
       None \<Rightarrow> (BADINTERNALERROR, None)
     | Some out \<Rightarrow> (GOOD, Some out)))"

definition generate_nonce_ctr :: "crypto \<Rightarrow> nat \<Rightarrow> u32 \<times> byte list option" where
  "generate_nonce_ctr C len = (if len = 0 then (GOOD, Some [])
     else (case RAND_bytes C len of None \<Rightarrow> (BADUNEXPECTEDERROR, None) | Some bs \<Rightarrow> (GOOD, Some bs)))"

definition has_length :: "nat \<Rightarrow> byte list option \<Rightarrow> bool" where
  "has_length n b = (case b of None \<Rightarrow> False | Some bs \<Rightarrow> length bs = n)"

definition bad_length :: "nat \<Rightarrow> byte list option \<Rightarrow> bool" where
  "bad_length n b = (case b of None \<Rightarrow> False | Some bs \<Rightarrow> length bs \<noteq> n)"

definition keys_valid :: "PolicyContext \<Rightarrow> byte list option \<Rightarrow> byte list option \<Rightarrow> byte list option \<Rightarrow> bool" where
  "keys_valid p sk ek kn \<longleftrightarrow> has_length SIGNING_KEY_LENGTH sk \<and> has_length (enc_len p) ek \<and> has_length KEYNONCE_LENGTH kn"

definition copy_key :: "byte list \<Rightarrow> byte list option \<Rightarrow> byte list" where
  "copy_key dst src = (case src of None \<Rightarrow> dst | Some bs \<Rightarrow> memcpy_front dst bs)"

definition new_context_ctr :: "PolicyContext \<Rightarrow> byte list option \<Rightarrow> byte list option \<Rightarrow> byte list option \<Rightarrow> u32 \<times> GroupContext option" where
  "new_context_ctr p sk ek kn =
    (if bad_length SIGNING_KEY_LENGTH sk \<or> bad_length (enc_len p) ek \<or> bad_length KEYNONCE_LENGTH kn
     then (BADSECURITYCHECKSFAILED, None)
     else (GOOD, Some \<lparr>encryptingKeyLength = enc_len p, signingKey = copy_key (replicate SIGNING_KEY_LENGTH 0) sk,
        encryptingKey = copy_key (replicate MAX_ENCRYPTING_KEY 0) ek, keyNonce = copy_key (replicate KEYNONCE_LENGTH 0) kn,
        messageNonce = replicate MESSAGENONCE_LENGTH 0\<rparr>))"

definition set_keys_ctr ::
  "PolicyContext \<Rightarrow> GroupContext option \<Rightarrow> byte list option \<Rightarrow> byte list option \<Rightarrow> byte list option \<Rightarrow> u32 \<times> GroupContext option" where
  "set_keys_ctr p gContext sk ek kn = (case gContext of None \<Rightarrow> (BADINTERNALERROR, None)
     | Some gc \<Rightarrow>
        if \<not> keys_valid p sk ek kn then (BADSECURITYCHECKSFAILED, gContext)
        else (GOOD, Some (gc\<lparr>signingKey := copy_key (signingKey gc) sk, encryptingKey := copy_key (encryptingKey gc) ek,
               keyNonce := copy_key (keyNonce gc) kn\<rparr>)))"

definition set_message_nonce_ctr :: "GroupContext option \<Rightarrow> byte list option \<Rightarrow> u32 \<times> GroupContext option" where
  "set_message_nonce_ctr gContext nonce = (case (gContext, nonce) of
     (Some gc, Some n) \<Rightarrow>
       (if length n \<noteq> MESSAGENONCE_LENGTH then (BADSECURITYCHECKSFAILED, gContext)
        else (GOOD, Some (gc\<lparr>messageNonce := memcpy_front (messageNonce gc) n\<rparr>)))
   | _ \<Rightarrow> (BADSECURITYCHECKSFAILED, gContext))"

definition PUBSUB_POLICY_AES128CTR :: string where
  "PUBSUB_POLICY_AES128CTR = ''http://opcfoundation.org/UA/SecurityPolicy#PubSub-Aes128-CTR''"

definition PUBSUB_POLICY_AES256CTR :: string where
  "PUBSUB_POLICY_AES256CTR = ''http://opcfoundation.org/UA/SecurityPolicy#PubSub-Aes256-CTR''"

definition init_ctr :: "string \<Rightarrow> nat \<Rightarrow> PolicyContext" where
  "init_ctr uri n = \<lparr>policyUri = uri, pc_encryptingKeyLength = n\<rparr>"

definition nonceLength :: "PolicyContext \<Rightarrow> nat" where
  "nonceLength p = SIGNING_KEY_LENGTH + pc_encryptingKeyLength p + KEYNONCE_LENGTH"

definition Aes128Ctr :: PolicyContext where
  "Aes128Ctr = init_ctr PUBSUB_POLICY_AES128CTR 16"

definition Aes256Ctr :: PolicyContext where
  "Aes256Ctr = init_ctr PUBSUB_POLICY_AES256CTR 32"

definition adapter_pubsub_install_security_policies :: "PolicyContext list" where
  "adapter_pubsub_install_security_policies = [Aes128Ctr, Aes256Ctr]"

definition adapter_pubsub_find_policy :: "PolicyContext list \<Rightarrow> string \<Rightarrow> PolicyContext option" where
  "adapter_pubsub_find_policy pols uri = find (\<lambda>p. policyUri p = uri) pols"

section \<open>Key generation\<close>

text \<open>P_SHA256 as RFC 5246 defines it: A(0) is the seed, A(i) the HMAC of A(i - 1), and the output
  the concatenation of the HMACs of A(1) seed, A(2) seed, and so on.\<close>

fun p_hash_A :: "(byte list \<Rightarrow> byte list) \<Rightarrow> byte list \<Rightarrow> nat \<Rightarrow> byte list" where
  "p_hash_A mac seed 0 = seed"
| "p_hash_A mac seed (Suc i) = mac (p_hash_A mac seed i)"

definition p_hash_block :: "(byte list \<Rightarrow> byte list) \<Rightarrow> byte list \<Rightarrow> nat \<Rightarrow> byte list" where
  "p_hash_block mac seed i = mac (p_hash_A mac seed (Suc i) @ seed)"

definition p_hash :: "(byte list \<Rightarrow> byte list) \<Rightarrow> byte list \<Rightarrow> nat \<Rightarrow> byte list" where
  "p_hash mac seed len = take len (concat (map (p_hash_block mac seed) [0..<Suc (len div 32)]))"

text \<open>HMAC with SHA-256 has results of 32 bytes.\<close>

definition hmac_total :: "crypto \<Rightarrow> (byte list \<Rightarrow> byte list \<Rightarrow> byte list) \<Rightarrow> bool" where
  "hmac_total C mac \<longleftrightarrow> (\<forall>key msg. HMAC_sha256 C key msg = Some (mac key msg) \<and> length (mac key msg) = 32)"

lemma hmac_sha256_total: "hmac_total C mac \<Longrightarrow> hmac_sha256 C key msg = Some (mac key msg)"
  by (simp add: hmac_total_def hmac_sha256_def)

lemma length_p_hash_blocks:
  "(\<And>msg. length (mac msg) = 32) \<Longrightarrow> length (concat (map (p_hash_block mac seed) [0..<k])) = 32 * k"
  by (induction k) (simp_all add: p_hash_block_def)

lemma generate_loop_blocks:
  fixes secret seed :: "byte list"
  assumes tot: "hmac_total C mac" and le: "32 * i \<le> len"
  defines "bs \<equiv> \<lambda>k. concat (map (p_hash_block (mac secret) seed) [0..<k])"
  shows "generate_loop C secret seed len (p_hash_A (mac secret) seed (Suc i)) (32 * i) (bs i)
    = Some (take len (bs (Suc (len div 32))))"
  using le
proof (induction "len - 32 * i" arbitrary: i rule: less_induct)
  case less
  have len32: "length (mac secret msg) = 32" for msg using tot by (simp add: hmac_total_def)
  have lb: "length (bs k) = 32 * k" for k unfolding bs_def by (rule length_p_hash_blocks) (rule len32)
  have step: "bs (Suc k) = bs k @ p_hash_block (mac secret) seed k" for k by (simp add: bs_def)
  let ?blk = "p_hash_block (mac secret) seed i"
  have blk: "hmac_sha256 C secret (p_hash_A (mac secret) seed (Suc i) @ seed) = Some ?blk"
    "hmac_sha256 C secret (p_hash_A (mac secret) seed (Suc i)) = Some (p_hash_A (mac secret) seed (Suc (Suc i)))"
    using tot by (simp_all only: hmac_sha256_total p_hash_block_def p_hash_A.simps)
  consider "32 * i = len" | "32 * i < len" "len - 32 * i < 32" | "32 * Suc i \<le> len" using less.prems by fastforce
  then show ?case
  proof cases
    case 1
    then have "len div 32 = i" by auto
    then show ?thesis using 1 lb [of i] by (simp add: generate_loop.simps [of C secret seed len _ len] step del: p_hash_A.simps)
  next
    case 2
    then have "len div 32 = i" by auto
    moreover have "32 * i + (len - 32 * i) = len" using 2 by simp
    ultimately show ?thesis using 2 blk lb [of i]
      by (simp add: generate_loop.simps [of C secret seed len _ "32 * i"] generate_loop.simps [of C secret seed len _ len] step Let_def del: p_hash_A.simps)
  next
    case 3
    have nl: "32 * i < len" "\<not> len - 32 * i < 32" using 3 by auto
    have "take 32 ?blk = ?blk" by (simp add: p_hash_block_def len32)
    then have "generate_loop C secret seed len (p_hash_A (mac secret) seed (Suc i)) (32 * i) (bs i)
        = generate_loop C secret seed len (p_hash_A (mac secret) seed (Suc (Suc i))) (32 * Suc i) (bs (Suc i))"
      using blk nl by (subst generate_loop.simps) (simp add: step add.commute del: p_hash_A.simps)
    also have "\<dots> = Some (take len (bs (Suc (len div 32))))" by (rule less.hyps) (use 3 in auto)
    finally show ?thesis .
  qed
qed

text \<open>C18 Key generation is P_SHA256: the loop that fills the buffer block by block writes exactly the
  bytes RFC 5246 defines, for every length, and returns Good.\<close>

theorem generate_key_is_p_sha256:
  assumes "hmac_total C mac"
  shows "generate_key_ctr C secret seed len = (GOOD, Some (p_hash (mac secret) seed len))"
  using generate_loop_blocks [OF assms, of 0 len secret seed] hmac_sha256_total [OF assms, of secret seed]
  by (simp add: generate_key_ctr_def p_hash_def)

text \<open>An instance of the library: the "HMAC" sums the bytes, the key stream repeats the key's and the
  counter block's sum.\<close>

definition byte_sum :: "byte list \<Rightarrow> byte" where
  "byte_sum bs = foldl (+) 0 bs"

definition plain_crypto :: crypto where
  "plain_crypto = \<lparr>HMAC_sha256 = (\<lambda>k m. Some (replicate 32 (byte_sum (k @ m)))),
     aes_ctr = (\<lambda>n k iv d. Some (map2 (XOR) d (replicate (length d) (byte_sum (k @ iv))))),
     RAND_bytes = (\<lambda>n. Some (replicate n 4))\<rparr>"

lemma plain_hmac_total: "hmac_total plain_crypto (\<lambda>k m. replicate 32 (byte_sum (k @ m)))"
  by (simp add: hmac_total_def plain_crypto_def)

theorem generate_key_is_p_sha256_witness:
  "generate_key_ctr plain_crypto [1, 2] [3] 40 = (GOOD, Some (p_hash (\<lambda>m. replicate 32 (byte_sum ([1, 2] @ m))) [3] 40))"
  by (rule generate_key_is_p_sha256 [OF plain_hmac_total])

section \<open>Message security\<close>

text \<open>Counter mode: the data is combined with a key stream that depends on the key, the counter
  block and the length only.\<close>

definition ctr_mode :: "crypto \<Rightarrow> bool" where
  "ctr_mode C \<longleftrightarrow> (\<exists>stream. \<forall>n key iv d. length (stream n key iv (length d)) = length d \<and>
     aes_ctr C n key iv d = Some (map2 (XOR) d (stream n key iv (length d))))"

lemma xor_twice: "length ks = length d \<Longrightarrow> map2 (XOR) (map2 (XOR) d ks) ks = (d :: byte list)"
proof (induction d arbitrary: ks)
  case (Cons x d)
  then show ?case by (cases ks) (simp_all add: xor.assoc)
qed simp

lemma aes_ctr_involution:
  assumes "ctr_mode C" "aes_ctr C n key iv d = Some e"
  shows "length e = length d \<and> aes_ctr C n key iv e = Some d"
proof -
  obtain stream where st: "\<And>n key iv d. length (stream n key iv (length d)) = length d \<and>
      aes_ctr C n key iv d = Some (map2 (XOR) d (stream n key iv (length d)))" using assms(1) unfolding ctr_mode_def by blast
  let ?ks = "stream n key iv (length d)"
  have e: "e = map2 (XOR) d ?ks" "length ?ks = length d" using assms(2) st [of n key iv d] by auto
  then have "length e = length d" by simp
  with st [of n key iv e] e xor_twice [of ?ks d] show ?thesis by simp
qed

text \<open>The contexts of a policy: every array has its length.\<close>

definition context_ok :: "PolicyContext \<Rightarrow> GroupContext \<Rightarrow> bool" where
  "context_ok p gc \<longleftrightarrow> encryptingKeyLength gc = enc_len p \<and> length (signingKey gc) = 32 \<and> length (encryptingKey gc) = 32 \<and>
     length (keyNonce gc) = 4 \<and> length (messageNonce gc) = 8"

definition adapter_policy :: "PolicyContext \<Rightarrow> bool" where
  "adapter_policy p \<longleftrightarrow> p \<in> set adapter_pubsub_install_security_policies"

lemma adapter_policy_len: "adapter_policy p \<Longrightarrow> enc_len p = 16 \<or> enc_len p = 32"
  by (auto simp: adapter_policy_def adapter_pubsub_install_security_policies_def Aes128Ctr_def Aes256Ctr_def init_ctr_def enc_len_def)

lemma length_copy_key: "\<not> bad_length n src \<Longrightarrow> n \<le> length dst \<Longrightarrow> length (copy_key dst src) = length dst"
  by (auto simp: copy_key_def bad_length_def split: option.splits)

lemma new_context_ok:
  "adapter_policy p \<Longrightarrow> new_context_ctr p sk ek kn = (GOOD, Some gc) \<Longrightarrow> context_ok p gc"
  using adapter_policy_len [of p] by (auto simp: new_context_ctr_def context_ok_def length_copy_key split: if_splits)

lemma set_keys_ok:
  assumes "adapter_policy p" "context_ok p gc" "set_keys_ctr p (Some gc) sk ek kn = (sc, Some gc')"
  shows "context_ok p gc'"
  using assms adapter_policy_len [of p]
  by (auto simp: set_keys_ctr_def context_ok_def keys_valid_def copy_key_def has_length_def split: if_splits option.splits)

lemma set_message_nonce_ok: "context_ok p gc \<Longrightarrow> set_message_nonce_ctr (Some gc) n = (sc, Some gc') \<Longrightarrow> context_ok p gc'"
  by (auto simp: set_message_nonce_ctr_def context_ok_def split: option.splits if_splits)

text \<open>The operations of a group, from its creation on.\<close>

inductive group_reachable :: "PolicyContext \<Rightarrow> GroupContext \<Rightarrow> bool" for p where
  create: "new_context_ctr p sk ek kn = (GOOD, Some gc) \<Longrightarrow> group_reachable p gc"
| set_keys: "group_reachable p gc \<Longrightarrow> set_keys_ctr p (Some gc) sk ek kn = (sc, Some gc') \<Longrightarrow> group_reachable p gc'"
| set_nonce: "group_reachable p gc \<Longrightarrow> set_message_nonce_ctr (Some gc) n = (sc, Some gc') \<Longrightarrow> group_reachable p gc'"

lemma reachable_context_ok:
  assumes "adapter_policy p" "group_reachable p gc"
  shows "context_ok p gc"
  using assms(2) by (induction rule: group_reachable.induct)
    (use assms(1) new_context_ok set_keys_ok set_message_nonce_ok in blast)+

text \<open>Setting keys and a nonce makes two contexts of a policy agree on everything a message depends on.\<close>

lemma copy_key_take: "has_length n (Some bs) \<Longrightarrow> take n (copy_key dst (Some bs)) = bs"
  by (simp add: copy_key_def has_length_def memcpy_front_def)

lemma keyed_context:
  assumes "adapter_policy p" "context_ok p gc" "set_keys_ctr p (Some gc) (Some sk) (Some ek) (Some kn) = (GOOD, Some gc1)"
    and "set_message_nonce_ctr (Some gc1) (Some mn) = (GOOD, Some gc2)"
  shows "signingKey gc2 = sk \<and> take (enc_len p) (encryptingKey gc2) = ek \<and> counter_block gc2 = kn @ mn @ [0, 0, 0, 1]
    \<and> encryptingKeyLength gc2 = enc_len p"
proof -
  have l: "length sk = 32" "length ek = enc_len p" "length kn = 4" "length mn = 8"
    and g1: "gc1 = gc\<lparr>signingKey := copy_key (signingKey gc) (Some sk), encryptingKey := copy_key (encryptingKey gc) (Some ek),
               keyNonce := copy_key (keyNonce gc) (Some kn)\<rparr>"
    and g2: "gc2 = gc1\<lparr>messageNonce := memcpy_front (messageNonce gc1) mn\<rparr>"
    using assms(3,4) by (auto simp: set_keys_ctr_def set_message_nonce_ctr_def keys_valid_def has_length_def split: if_splits)
  have c: "length (signingKey gc) = 32" "length (keyNonce gc) = 4" "length (messageNonce gc) = 8" "encryptingKeyLength gc = enc_len p"
    using assms(2) by (simp_all add: context_ok_def)
  show ?thesis using l c by (simp add: g1 g2 counter_block_def copy_key_def memcpy_front_def)
qed

text \<open>What a publisher does to a payload and a subscriber undoes: encrypt, and sign header and
  ciphertext; check the signature, and decrypt.\<close>

definition protect :: "crypto \<Rightarrow> GroupContext \<Rightarrow> byte list \<Rightarrow> byte list \<Rightarrow> (byte list \<times> byte list) option" where
  "protect C gc header payload = (case crypt_ctr C (Some gc) (Some payload) of
     (sc, Some cipher) \<Rightarrow> if sc \<noteq> GOOD then None else
       (case sign_ctr C (Some gc) (Some (header @ cipher)) (Some (replicate signature_size 0)) of
          (sc', Some sig) \<Rightarrow> if sc' \<noteq> GOOD then None else Some (cipher, sig)
        | _ \<Rightarrow> None)
   | _ \<Rightarrow> None)"

definition unprotect :: "crypto \<Rightarrow> GroupContext \<Rightarrow> byte list \<Rightarrow> byte list \<times> byte list \<Rightarrow> byte list option" where
  "unprotect C gc header msg = (case msg of (cipher, sig) \<Rightarrow>
     if verify_ctr C (Some gc) (Some (header @ cipher)) (Some sig) \<noteq> GOOD then None
     else (case crypt_ctr C (Some gc) (Some cipher) of
        (sc, Some payload) \<Rightarrow> if sc \<noteq> GOOD then None else Some payload
      | _ \<Rightarrow> None))"

definition same_security :: "GroupContext \<Rightarrow> GroupContext \<Rightarrow> bool" where
  "same_security a b \<longleftrightarrow> signingKey a = signingKey b \<and> counter_block a = counter_block b \<and>
     encryptingKeyLength a = encryptingKeyLength b \<and> take (encryptingKeyLength a) (encryptingKey a) = take (encryptingKeyLength b) (encryptingKey b)"

lemma unprotect_protect:
  assumes "hmac_total C mac" "ctr_mode C" "same_security a b" "encryptingKeyLength a = 16 \<or> encryptingKeyLength a = 32"
  shows "\<exists>m. protect C a header payload = Some m \<and> unprotect C b header m = Some payload"
proof -
  let ?n = "encryptingKeyLength a"
  have b: "signingKey b = signingKey a" "counter_block b = counter_block a" "encryptingKeyLength b = ?n"
      "take ?n (encryptingKey b) = take ?n (encryptingKey a)" using assms(3) by (auto simp: same_security_def)
  have n: "(if ?n = 32 then 32 else 16) = ?n" using assms(4) by auto
  note mac = hmac_sha256_total [OF assms(1)]
  have len: "length (mac k m) = 32" for k m using assms(1) by (simp add: hmac_total_def)
  show ?thesis
  proof (cases "payload = []")
    case True
    then show ?thesis by (simp add: protect_def unprotect_def crypt_ctr_def sign_ctr_def verify_ctr_def mac len b signature_size_def)
  next
    case False
    obtain e where e: "aes_ctr C ?n (take ?n (encryptingKey a)) (counter_block a) payload = Some e"
      using assms(2) unfolding ctr_mode_def by blast
    from aes_ctr_involution [OF assms(2) e] False have "e \<noteq> []" "aes_ctr C ?n (take ?n (encryptingKey a)) (counter_block a) e = Some payload" by auto
    then have "crypt_ctr C (Some b) (Some e) = (GOOD, Some payload)" "crypt_ctr C (Some a) (Some payload) = (GOOD, Some e)"
      using e False n b by (simp_all add: crypt_ctr_def Let_def)
    then show ?thesis by (simp add: protect_def unprotect_def sign_ctr_def verify_ctr_def mac len b signature_size_def)
  qed
qed

text \<open>C8 Secured messages get through: a publisher and a subscriber of a policy, however their contexts
  were used before, that are given the same keys and message nonce, exchange every payload: what
  the one encrypts and signs, the other verifies and decrypts to the same bytes.\<close>

theorem secured_message_roundtrip:
  assumes "hmac_total C mac" and "ctr_mode C" and "adapter_policy p"
    and "group_reachable p pub" and "group_reachable p sub"
    and "set_keys_ctr p (Some pub) (Some sk) (Some ek) (Some kn) = (GOOD, Some pub1)" and "set_message_nonce_ctr (Some pub1) (Some mn) = (GOOD, Some pub2)"
    and "set_keys_ctr p (Some sub) (Some sk) (Some ek) (Some kn) = (GOOD, Some sub1)" and "set_message_nonce_ctr (Some sub1) (Some mn) = (GOOD, Some sub2)"
  shows "\<exists>m. protect C pub2 header payload = Some m \<and> unprotect C sub2 header m = Some payload"
proof (rule unprotect_protect [OF assms(1,2)])
  have a: "signingKey pub2 = sk \<and> take (enc_len p) (encryptingKey pub2) = ek \<and> counter_block pub2 = kn @ mn @ [0, 0, 0, 1] \<and> encryptingKeyLength pub2 = enc_len p"
    by (rule keyed_context [OF assms(3) reachable_context_ok [OF assms(3,4)] assms(6,7)])
  have b: "signingKey sub2 = sk \<and> take (enc_len p) (encryptingKey sub2) = ek \<and> counter_block sub2 = kn @ mn @ [0, 0, 0, 1] \<and> encryptingKeyLength sub2 = enc_len p"
    by (rule keyed_context [OF assms(3) reachable_context_ok [OF assms(3,5)] assms(8,9)])
  from a b show "same_security pub2 sub2" by (simp add: same_security_def)
  from a adapter_policy_len [OF assms(3)] show "encryptingKeyLength pub2 = 16 \<or> encryptingKeyLength pub2 = 32" by simp
qed

lemma plain_ctr_mode: "ctr_mode plain_crypto"
  unfolding ctr_mode_def plain_crypto_def by (rule exI [of _ "\<lambda>n k iv l. replicate l (byte_sum (k @ iv))"]) simp

theorem secured_message_roundtrip_witness:
  "\<exists>ctx m. group_reachable Aes128Ctr ctx \<and> protect plain_crypto ctx [7] [1, 2, 3] = Some m \<and> unprotect plain_crypto ctx [7] m = Some [1, 2, 3]"
proof -
  let ?sk = "replicate 32 (1 :: byte)" and ?ek = "replicate 16 (2 :: byte)" and ?kn = "replicate 4 (3 :: byte)" and ?mn = "replicate 8 (4 :: byte)"
  obtain c0 where c0: "new_context_ctr Aes128Ctr None None None = (GOOD, Some c0)" by (simp add: new_context_ctr_def bad_length_def)
  then have r0: "group_reachable Aes128Ctr c0" by (rule group_reachable.create)
  obtain c1 where c1: "set_keys_ctr Aes128Ctr (Some c0) (Some ?sk) (Some ?ek) (Some ?kn) = (GOOD, Some c1)"
    by (simp add: set_keys_ctr_def keys_valid_def has_length_def Aes128Ctr_def init_ctr_def enc_len_def)
  obtain c2 where c2: "set_message_nonce_ctr (Some c1) (Some ?mn) = (GOOD, Some c2)" by (simp add: set_message_nonce_ctr_def)
  have "adapter_policy Aes128Ctr" by (simp add: adapter_policy_def adapter_pubsub_install_security_policies_def)
  from secured_message_roundtrip [OF plain_hmac_total plain_ctr_mode this r0 r0 c1 c2 c1 c2, of "[7]" "[1, 2, 3]"]
    group_reachable.set_nonce [OF group_reachable.set_keys [OF r0 c1] c2] show ?thesis by blast
qed

lemma padding_zero:
  assumes "adapter_policy p" "group_reachable p gc"
  shows "drop (enc_len p) (encryptingKey gc) = replicate (32 - enc_len p) 0"
  using assms(2)
proof (induction rule: group_reachable.induct)
  case (create sk ek kn gc)
  then show ?case using adapter_policy_len [OF assms(1)]
    by (auto simp: new_context_ctr_def copy_key_def bad_length_def memcpy_front_def split: if_splits option.splits)
next
  case (set_keys gc sk ek kn sc gc')
  then show ?case
    by (auto simp: set_keys_ctr_def keys_valid_def has_length_def copy_key_def memcpy_front_def split: if_splits option.splits)
next
  case (set_nonce gc n sc gc')
  then show ?case by (auto simp: set_message_nonce_ctr_def split: if_splits option.splits)
qed

text \<open>The key lengths of the two policies (OPC UA Part 14, 7.2.2.4.3): a signing key of 32 bytes, an
  encryption key of 16 or of 32, a key nonce of 4.\<close>

definition part14_key_length :: "string \<Rightarrow> nat option" where
  "part14_key_length uri = map_of
     [(''http://opcfoundation.org/UA/SecurityPolicy#PubSub-Aes128-CTR'', 16),
      (''http://opcfoundation.org/UA/SecurityPolicy#PubSub-Aes256-CTR'', 32)] uri"

definition part14_lengths :: "nat \<Rightarrow> byte list option \<Rightarrow> byte list option \<Rightarrow> byte list option \<Rightarrow> bool" where
  "part14_lengths k sk ek kn \<longleftrightarrow> sk \<in> {None} \<union> Some ` {b. length b = 32} \<and> ek \<in> {None} \<union> Some ` {b. length b = k} \<and>
     kn \<in> {None} \<union> Some ` {b. length b = 4}"

lemma find_policy_len:
  "adapter_pubsub_find_policy adapter_pubsub_install_security_policies uri = Some p \<Longrightarrow>
    adapter_policy p \<and> part14_key_length uri = Some (enc_len p)"
  by (auto simp: adapter_pubsub_find_policy_def adapter_policy_def adapter_pubsub_install_security_policies_def part14_key_length_def
    Aes128Ctr_def Aes256Ctr_def init_ctr_def enc_len_def PUBSUB_POLICY_AES128CTR_def PUBSUB_POLICY_AES256CTR_def split: if_splits)

text \<open>C35 Key material is checked against the policy and stored as given. For the policy installed under a
  URI, with the encryption keys of k bytes that OPC UA gives it (16 for PubSub-Aes128-CTR, 32 for
  PubSub-Aes256-CTR): a context is created exactly when each part that is given has its length (32, k, 4), with the parts as
  given and zeros otherwise; in every context reached from there the key length is k, the arrays have their
  sizes and the encryption key is followed by zeros only; setting the keys succeeds exactly when all three parts are there with
  those lengths and then replaces all three and nothing else; setting the message nonce succeeds
  exactly for 8 bytes and then replaces it; every refused call leaves the context as it was.\<close>

theorem key_context_invariant:
  assumes "adapter_pubsub_find_policy adapter_pubsub_install_security_policies uri = Some p" and "group_reachable p gc"
  shows "\<exists>k. part14_key_length uri = Some k \<and> encryptingKeyLength gc = k \<and>
    length (signingKey gc) = 32 \<and> length (encryptingKey gc) = 32 \<and> length (keyNonce gc) = 4 \<and> length (messageNonce gc) = 8 \<and>
    drop k (encryptingKey gc) = replicate (32 - k) 0 \<and>
    new_context_ctr p sk ek kn =
      (if part14_lengths k sk ek kn
       then (GOOD, Some \<lparr>encryptingKeyLength = k, signingKey = (case sk of Some b \<Rightarrow> b | None \<Rightarrow> replicate 32 0),
         encryptingKey = (case ek of Some b \<Rightarrow> b @ replicate (32 - k) 0 | None \<Rightarrow> replicate 32 0),
         keyNonce = (case kn of Some b \<Rightarrow> b | None \<Rightarrow> replicate 4 0), messageNonce = replicate 8 0\<rparr>)
       else (BADSECURITYCHECKSFAILED, None)) \<and>
    set_keys_ctr p (Some gc) sk ek kn =
      (case (sk, ek, kn) of
         (Some a, Some b, Some c) \<Rightarrow>
           if length a = 32 \<and> length b = k \<and> length c = 4
           then (GOOD, Some (gc\<lparr>signingKey := a, encryptingKey := b @ replicate (32 - k) 0, keyNonce := c\<rparr>))
           else (BADSECURITYCHECKSFAILED, Some gc)
       | _ \<Rightarrow> (BADSECURITYCHECKSFAILED, Some gc)) \<and>
    set_message_nonce_ctr (Some gc) nonce =
      (case nonce of
         Some n \<Rightarrow> if length n = 8 then (GOOD, Some (gc\<lparr>messageNonce := n\<rparr>)) else (BADSECURITYCHECKSFAILED, Some gc)
       | None \<Rightarrow> (BADSECURITYCHECKSFAILED, Some gc))"
proof -
  have p: "adapter_policy p" "part14_key_length uri = Some (enc_len p)" using find_policy_len [OF assms(1)] by simp_all
  have ok: "encryptingKeyLength gc = enc_len p" "length (signingKey gc) = 32" "length (encryptingKey gc) = 32"
      "length (keyNonce gc) = 4" "length (messageNonce gc) = 8"
    using reachable_context_ok [OF p(1) assms(2)] by (simp_all add: context_ok_def)
  have pad: "drop (enc_len p) (encryptingKey gc) = replicate (32 - enc_len p) 0" by (rule padding_zero [OF p(1) assms(2)])
  show ?thesis
    apply (intro exI [of _ "enc_len p"] conjI)
    apply (simp_all only: p ok pad)
    subgoal
      by (cases sk; cases ek; cases kn)
        (simp_all add: new_context_ctr_def part14_lengths_def bad_length_def copy_key_def memcpy_front_def image_iff)
    subgoal
      using ok pad by (cases sk; cases ek; cases kn)
        (simp_all add: set_keys_ctr_def keys_valid_def has_length_def copy_key_def memcpy_front_def)
    subgoal
      using ok by (cases nonce) (simp_all add: set_message_nonce_ctr_def memcpy_front_def)
    done
qed

theorem key_context_invariant_witness:
  "\<exists>gc p. adapter_pubsub_find_policy adapter_pubsub_install_security_policies
      ''http://opcfoundation.org/UA/SecurityPolicy#PubSub-Aes256-CTR'' = Some p \<and> group_reachable p gc \<and>
    set_keys_ctr p (Some gc) (Some (replicate 32 1)) (Some (replicate 16 2)) (Some [1, 2, 3, 4]) = (BADSECURITYCHECKSFAILED, Some gc)"
proof -
  obtain c0 where "new_context_ctr Aes256Ctr None None None = (GOOD, Some c0)" by (simp add: new_context_ctr_def bad_length_def)
  then have r0: "group_reachable Aes256Ctr c0" by (rule group_reachable.create)
  have f: "adapter_pubsub_find_policy adapter_pubsub_install_security_policies
      ''http://opcfoundation.org/UA/SecurityPolicy#PubSub-Aes256-CTR'' = Some Aes256Ctr"
    by (simp add: adapter_pubsub_find_policy_def adapter_pubsub_install_security_policies_def Aes128Ctr_def Aes256Ctr_def init_ctr_def
      PUBSUB_POLICY_AES128CTR_def PUBSUB_POLICY_AES256CTR_def)
  from key_context_invariant [OF f r0, of "Some (replicate 32 1)" "Some (replicate 16 2)" "Some [1, 2, 3, 4]" None] f r0
  show ?thesis by (auto simp: part14_key_length_def)
qed

end
