(* ===== verification/Part12_Json.thy ===== *)
theory Part12_Json
  imports Output
begin

text \<open>
  The JSON builder of part12.c (part12.h declares P12Json), on which the push and GDS commands
  build their result item before the envelope around it is printed. The builder is modelled
  down to its buffer: the bytes of the heap block, the fill level, the capacity, and the flag
  that says whether a comma is due. The first part translates the operations; the second shows
  that they implement appending to a text, never write outside the block and keep it
  terminated; the rest uses only that contract.
\<close>

section \<open>The buffer\<close>

text \<open>jbuf holds the capacity's bytes (none for the NULL buffer). The flag oom is not modelled,
  as allocation succeeds.\<close>

record P12Json =
  jbuf :: string
  jlen :: nat
  jcap :: nat
  jfirst :: bool

definition p12j_init :: P12Json where
  "p12j_init = \<lparr>jbuf = [], jlen = 0, jcap = 0, jfirst = True\<rparr>"

text \<open>The doubling loop; the capacity it starts from is never 0.\<close>

function grow_cap :: "nat \<Rightarrow> nat \<Rightarrow> nat" where
  "grow_cap need cap = (if 0 < cap \<and> cap < need then grow_cap need (cap * 2) else cap)"
  by pat_completeness auto
termination by (relation "measure (\<lambda>(need, cap). need - cap)") auto

declare grow_cap.simps [simp del]

text \<open>\<open>realloc\<close> keeps the old bytes; the new ones are indeterminate and are filled with a byte
  that is not NUL. \<open>memcpy\<close> into the block at an offset.\<close>

definition realloc_block :: "nat \<Rightarrow> string \<Rightarrow> string" where
  "realloc_block cap b = take cap b @ replicate (cap - length b) (CHR 0xA5)"

definition write_at :: "nat \<Rightarrow> string \<Rightarrow> string \<Rightarrow> string" where
  "write_at pos s b = take pos b @ s @ drop (pos + length s) b"

definition reserve :: "nat \<Rightarrow> P12Json \<Rightarrow> P12Json" where
  "reserve n j =
    (if jcap j < jlen j + n + 1
     then let cap = grow_cap (jlen j + n + 1) (if jcap j \<noteq> 0 then jcap j else 1024)
          in j\<lparr>jbuf := realloc_block cap (jbuf j), jcap := cap\<rparr>
     else j)"

definition p12j_append :: "string \<Rightarrow> P12Json \<Rightarrow> P12Json" where
  "p12j_append s j =
    (let n = length s; j = reserve n j; j = j\<lparr>jbuf := write_at (jlen j) s (jbuf j)\<rparr>; j = j\<lparr>jlen := jlen j + n\<rparr>
     in j\<lparr>jbuf := write_at (jlen j) [CHR 0x00] (jbuf j)\<rparr>)"

section \<open>Writing JSON\<close>

definition p12j_raw :: "string \<Rightarrow> P12Json \<Rightarrow> P12Json" where
  "p12j_raw s j = p12j_append s j"

text \<open>The formatted text either fits the array of 256 bytes or is formatted again into a block of
  its length.\<close>

definition p12j_printf :: "string \<Rightarrow> P12Json \<Rightarrow> P12Json" where
  "p12j_printf formatted j =
    (let n = length formatted; tmp = snprintf_buf 256 formatted in
     if n < 256 then p12j_append (take n tmp) j
     else let big = snprintf_buf (n + 1) formatted in p12j_append (take n big) j)"

definition p12j_sep :: "P12Json \<Rightarrow> P12Json" where
  "p12j_sep j = (let j = (if \<not> jfirst j then p12j_raw '','' j else j) in j\<lparr>jfirst := False\<rparr>)"

definition p12j_open :: "char \<Rightarrow> P12Json \<Rightarrow> P12Json" where
  "p12j_open c j = (p12j_raw [c] j)\<lparr>jfirst := True\<rparr>"

definition p12j_close :: "char \<Rightarrow> P12Json \<Rightarrow> P12Json" where
  "p12j_close c j = (p12j_raw [c] j)\<lparr>jfirst := False\<rparr>"

definition p12j_char :: "char \<Rightarrow> P12Json \<Rightarrow> P12Json" where
  "p12j_char c j =
    (if c = quote then p12j_raw [bslash, quote] j
     else if c = bslash then p12j_raw [bslash, bslash] j
     else if c = CHR 0x0A then p12j_raw [bslash, CHR ''n''] j
     else if c = CHR 0x0D then p12j_raw [bslash, CHR ''r''] j
     else if c = CHR 0x09 then p12j_raw [bslash, CHR ''t''] j
     else if (of_char c :: nat) < 32 then p12j_raw (snprintf_buf 8 ([bslash, CHR ''u''] @ hex_pad 4 (of_char c))) j
     else p12j_append [c] j)"

definition p12j_str :: "string \<Rightarrow> P12Json \<Rightarrow> P12Json" where
  "p12j_str data j = p12j_raw [quote] (fold p12j_char data (p12j_raw [quote] j))"

definition p12j_cstr :: "cstr \<Rightarrow> P12Json \<Rightarrow> P12Json" where
  "p12j_cstr s j = (case s of None \<Rightarrow> p12j_raw ''null'' j | Some s \<Rightarrow> p12j_str s j)"

definition p12j_key :: "string \<Rightarrow> P12Json \<Rightarrow> P12Json" where
  "p12j_key key j = p12j_raw '':'' (p12j_cstr (Some key) (p12j_sep j))"

definition p12j_uastr :: "ua_string \<Rightarrow> P12Json \<Rightarrow> P12Json" where
  "p12j_uastr s j = (case s of None \<Rightarrow> p12j_raw ''null'' j | Some s \<Rightarrow> p12j_str s j)"

text \<open>A group of up to three bytes is four characters (\<open>b64_group\<close>, the table and the padding of
  the other encoders).\<close>

function p12j_b64_loop :: "byte list \<Rightarrow> P12Json \<Rightarrow> P12Json" where
  "p12j_b64_loop data j = (if data = [] then j else p12j_b64_loop (drop 3 data) (p12j_append (b64_group data) j))"
  by pat_completeness auto
termination by (relation "measure (\<lambda>(data, j). length data)") auto

declare p12j_b64_loop.simps [simp del]

definition p12j_b64 :: "ua_bytes \<Rightarrow> P12Json \<Rightarrow> P12Json" where
  "p12j_b64 data j =
    (let j = p12j_raw [quote] j; j = (case data of None \<Rightarrow> j | Some d \<Rightarrow> p12j_b64_loop d j) in p12j_raw [quote] j)"

definition p12j_nodeid :: "nodeid \<Rightarrow> P12Json \<Rightarrow> P12Json" where
  "p12j_nodeid n j =
    (let ns = ''ns='' @ dec (unat (namespaceIndex n)) @ '';'' in
     case nid n of
       Numeric i \<Rightarrow>
         (if namespaceIndex n = 0 then p12j_cstr (Some (snprintf_buf 128 (''i='' @ dec (unat i)))) j
          else p12j_cstr (Some (snprintf_buf 128 (ns @ ''i='' @ dec (unat i)))) j)
     | StringId s \<Rightarrow> p12j_str (snprintf_buf 128 (ns @ ''s='') @ bytes_of_string s) j
     | GuidId g \<Rightarrow> p12j_cstr (Some (snprintf_buf 128 (ns @ ''g='' @ guid_text g))) j
     | ByteStringId bs \<Rightarrow>
         (let b = p12j_b64 bs p12j_init; j = p12j_raw (snprintf_buf 128 ([quote] @ ns @ ''b='')) j in
          if 2 \<le> jlen b then p12j_append (take (jlen b - 1) (drop 1 (jbuf b))) j else p12j_raw [quote] j))"

definition p12j_status :: "stack \<Rightarrow> u32 \<Rightarrow> P12Json \<Rightarrow> P12Json" where
  "p12j_status st sc j =
    (p12j_printf (''{'' @ jkey ''name'' @ '':'' @ [quote] @ output_status_code_name st sc @ [quote] @ '','' @ jkey ''code'' @ '':''
       @ dec (unat sc) @ '','' @ jkey ''severity'' @ '':'' @ [quote] @ output_severity st sc @ [quote] @ ''}'') j)\<lparr>jfirst := False\<rparr>"

definition p12j_datetime :: "stack \<Rightarrow> u64 \<Rightarrow> P12Json \<Rightarrow> P12Json" where
  "p12j_datetime st dt j = (if dt = 0 then p12j_raw ''null'' j else p12j_cstr (Some (output_timestamp st dt 64)) j)"

definition p12j_status_field :: "stack \<Rightarrow> string \<Rightarrow> u32 \<Rightarrow> P12Json \<Rightarrow> P12Json" where
  "p12j_status_field st key sc j = p12j_status st sc (p12j_key key j)"

definition p12j_b64_field :: "string \<Rightarrow> ua_bytes option \<Rightarrow> P12Json \<Rightarrow> P12Json" where
  "p12j_b64_field key bs j =
    (let j = p12j_key key j in case bs of Some b \<Rightarrow> p12j_b64 b j | None \<Rightarrow> p12j_raw [quote, quote] j)"

definition p12j_b64_list :: "ua_bytes list \<Rightarrow> P12Json \<Rightarrow> P12Json" where
  "p12j_b64_list bs j = p12j_close CHR '']'' (fold (\<lambda>b j. p12j_b64 b (p12j_sep j)) bs (p12j_open CHR ''['' j))"

text \<open>The elements of an array Variant, read at the type the Variant has.\<close>

fun as_bytestring :: "ua_val \<Rightarrow> ua_bytes" where
  "as_bytestring (VByteString b) = b"
| "as_bytestring _ = None"

fun as_nodeid :: "ua_val \<Rightarrow> nodeid" where
  "as_nodeid (VNodeId n) = n"
| "as_nodeid _ = nodeid_null"

definition p12j_b64_array_field :: "string \<Rightarrow> variant option \<Rightarrow> P12Json \<Rightarrow> P12Json" where
  "p12j_b64_array_field key v j =
    (let j = p12j_key key j;
         j = (case v of
                Some (Array TByteString vs _) \<Rightarrow> p12j_b64_list (map as_bytestring vs) j
              | Some (Scalar (VByteString b)) \<Rightarrow> p12j_b64_list [b] j
              | _ \<Rightarrow> p12j_raw ''[]'' j)
     in j\<lparr>jfirst := False\<rparr>)"

definition p12j_nodeid_array_field :: "string \<Rightarrow> variant option \<Rightarrow> P12Json \<Rightarrow> P12Json" where
  "p12j_nodeid_array_field key v j =
    (let j = p12j_open CHR ''['' (p12j_key key j);
         ids = (case v of
                  Some (Array TNodeId vs _) \<Rightarrow> map as_nodeid vs
                | Some (Scalar (VNodeId n)) \<Rightarrow> [n]
                | _ \<Rightarrow> [])
     in p12j_close CHR '']'' (fold (\<lambda>n j. p12j_nodeid n (p12j_sep j)) ids j))"

record TrustListDataType =
  specifiedLists :: u32
  trustedCertificates :: "ua_bytes list"
  trustedCrls :: "ua_bytes list"
  issuerCertificates :: "ua_bytes list"
  issuerCrls :: "ua_bytes list"

definition p12j_trust_list :: "TrustListDataType \<Rightarrow> P12Json \<Rightarrow> P12Json" where
  "p12j_trust_list trust j =
    (let j = p12j_open CHR ''{'' j;
         j = p12j_printf (dec (unat (specifiedLists trust))) (p12j_key ''specifiedLists'' j);
         j = p12j_b64_list (trustedCertificates trust) (p12j_key ''trustedCertificates'' j);
         j = p12j_b64_list (trustedCrls trust) (p12j_key ''trustedCrls'' j);
         j = p12j_b64_list (issuerCertificates trust) (p12j_key ''issuerCertificates'' j);
         j = p12j_b64_list (issuerCrls trust) (p12j_key ''issuerCrls'' j)
     in p12j_close CHR ''}'' j)"

text \<open>\<open>fputs (buf, stdout)\<close>: the bytes up to the first NUL of the block.\<close>

definition fputs_text :: "P12Json \<Rightarrow> string" where
  "fputs_text j = until_nul (jbuf j)"

definition p12_emit :: "stack \<Rightarrow> string \<Rightarrow> bool \<Rightarrow> u32 \<Rightarrow> cstr \<Rightarrow> cstr \<Rightarrow> P12Json option \<Rightarrow> string" where
  "p12_emit st op ok sc category message result =
    output_begin (Some ''open62541'') (Some op) @ output_success ok @ output_service_result st sc
    @ '','' @ jkey ''results'' @ '':['' @ (case result of Some j \<Rightarrow> fputs_text j | None \<Rightarrow> []) @ '']''
    @ (case category of
         Some cat \<Rightarrow>
           fputs_text (p12j_raw ''}'' (p12j_cstr (Some (case message of Some m \<Rightarrow> m | None \<Rightarrow> []))
             (p12j_raw ('','' @ jkey ''message'' @ '':'')
               (p12j_cstr (Some cat) (p12j_raw ('','' @ jkey ''error'' @ '':{'' @ jkey ''category'' @ '':'') p12j_init)))))
       | None \<Rightarrow> output_null_error)
    @ output_end"

section \<open>The contract: appending to a text\<close>

text \<open>A valid builder: NULL and empty, or a block with a terminator right after the text.\<close>

definition wf_json :: "P12Json \<Rightarrow> bool" where
  "wf_json j \<longleftrightarrow> length (jbuf j) = jcap j \<and>
    (if jcap j = 0 then jlen j = 0 else jlen j < jcap j \<and> jbuf j ! jlen j = CHR 0x00)"

definition json_text :: "P12Json \<Rightarrow> string" where
  "json_text j = take (jlen j) (jbuf j)"

lemma grow_cap_enough: "0 < cap \<Longrightarrow> need \<le> grow_cap need cap"
  by (induction need cap rule: grow_cap.induct) (subst grow_cap.simps, auto)

lemma grow_cap_ge: "cap \<le> grow_cap need cap"
  by (induction need cap rule: grow_cap.induct) (subst grow_cap.simps, auto)

text \<open>The block at most doubles what is needed: appending costs amortised constant time.\<close>

lemma grow_cap_tight: "cap < need \<Longrightarrow> grow_cap need cap < 2 * need"
proof (induction need cap rule: grow_cap.induct)
  case (1 need cap)
  show ?case
  proof (cases "0 < cap \<and> cap * 2 < need")
    case True
    with 1 show ?thesis by (subst grow_cap.simps) simp
  next
    case False
    then have "grow_cap need (cap * 2) = cap * 2" by (subst grow_cap.simps) auto
    with 1(2) show ?thesis by (subst grow_cap.simps) auto
  qed
qed

lemma wf_init [simp]: "wf_json p12j_init" "json_text p12j_init = []" "jfirst p12j_init"
  by (simp_all add: wf_json_def json_text_def p12j_init_def)

lemma wf_json_fill: "wf_json j \<Longrightarrow> jlen j \<le> length (jbuf j)"
  by (auto simp: wf_json_def split: if_splits)

lemma reserve_fits:
  assumes "wf_json j"
  shows "jlen (reserve n j) + n + 1 \<le> jcap (reserve n j)" "length (jbuf (reserve n j)) = jcap (reserve n j)"
    "take (jlen j) (jbuf (reserve n j)) = json_text j" "jlen (reserve n j) = jlen j" "jfirst (reserve n j) = jfirst j"
  using assms grow_cap_enough [of "if jcap j \<noteq> 0 then jcap j else 1024" "jlen j + n + 1"]
    grow_cap_ge [of "jcap j" "jlen j + n + 1"]
  by (auto simp: reserve_def Let_def wf_json_def json_text_def realloc_block_def min_def split: if_splits)

lemma append_contract:
  assumes "wf_json j"
  shows "wf_json (p12j_append s j)" "json_text (p12j_append s j) = json_text j @ s" "jfirst (p12j_append s j) = jfirst j"
  using reserve_fits [OF assms, of "length s"] wf_json_fill [OF assms]
  by (auto simp: p12j_append_def Let_def write_at_def wf_json_def json_text_def nth_append)

lemma wf_json_first [simp]: "wf_json (j\<lparr>jfirst := b\<rparr>) = wf_json j" "json_text (j\<lparr>jfirst := b\<rparr>) = json_text j"
  by (simp_all add: wf_json_def json_text_def)

text \<open>Printing the block prints the text, as long as no NUL is part of it.\<close>

lemma fputs_json_text:
  assumes "wf_json j" and "CHR 0x00 \<notin> set (json_text j)"
  shows "fputs_text j = json_text j"
proof (cases "jcap j = 0")
  case True
  with assms show ?thesis by (simp add: wf_json_def fputs_text_def until_nul_def json_text_def)
next
  case False
  with assms(1) have "jbuf j = json_text j @ CHR 0x00 # drop (Suc (jlen j)) (jbuf j)"
    using id_take_nth_drop [of "jlen j" "jbuf j"] by (simp add: wf_json_def json_text_def)
  then have "fputs_text j = takeWhile (\<lambda>c. c \<noteq> CHR 0x00) (json_text j @ CHR 0x00 # drop (Suc (jlen j)) (jbuf j))"
    by (simp only: fputs_text_def until_nul_def)
  also have "\<dots> = json_text j" using assms(2) by (subst takeWhile_append2) auto
  finally show ?thesis .
qed

text \<open>A writer extends a valid builder by a text. The text may depend on whether a comma is due, and
  the writer settles whether one is due after it.\<close>

locale json_writer =
  fixes wr :: "P12Json \<Rightarrow> P12Json" and txt_of :: "bool \<Rightarrow> string" and due :: "bool \<Rightarrow> bool"
  assumes keeps_wf: "wf_json j \<Longrightarrow> wf_json (wr j)"
    and writes: "wf_json j \<Longrightarrow> json_text (wr j) = json_text j @ txt_of (jfirst j)"
    and sets_first: "wf_json j \<Longrightarrow> jfirst (wr j) = due (jfirst j)"
begin

lemma from_scratch: "json_text (wr p12j_init) = txt_of True"
  by (simp add: writes)

lemma fputs_writer: "CHR 0x00 \<notin> set (txt_of True) \<Longrightarrow> fputs_text (wr p12j_init) = txt_of True"
  using fputs_json_text [OF keeps_wf [OF wf_init(1)]] from_scratch by simp

lemma after:
  assumes "json_writer wr' txt' due'"
  shows "json_writer (\<lambda>j. wr (wr' j)) (\<lambda>f. txt' f @ txt_of (due' f)) (\<lambda>f. due (due' f))"
  using assms by unfold_locales (auto simp: json_writer_def keeps_wf writes sets_first)

end

section \<open>What every operation writes\<close>

interpretation w_append: json_writer "p12j_append s" "\<lambda>_. s" "\<lambda>f. f"
  by unfold_locales (simp_all add: append_contract)

interpretation w_raw: json_writer "p12j_raw s" "\<lambda>_. s" "\<lambda>f. f"
  unfolding p12j_raw_def by (rule w_append.json_writer_axioms)

interpretation w_printf: json_writer "p12j_printf s" "\<lambda>_. s" "\<lambda>f. f"
  by unfold_locales (simp_all add: p12j_printf_def Let_def snprintf_buf_def append_contract)

lemmas raw_contract [simp] = append_contract w_raw.keeps_wf w_raw.writes w_raw.sets_first
  w_printf.keeps_wf w_printf.writes w_printf.sets_first

interpretation w_sep: json_writer p12j_sep "\<lambda>f. if f then [] else '',''" "\<lambda>f. False"
  by unfold_locales (simp_all add: p12j_sep_def Let_def)

interpretation w_open: json_writer "p12j_open c" "\<lambda>_. [c]" "\<lambda>f. True"
  by unfold_locales (simp_all add: p12j_open_def)

interpretation w_close: json_writer "p12j_close c" "\<lambda>_. [c]" "\<lambda>f. False"
  by unfold_locales (simp_all add: p12j_close_def)

text \<open>A control character takes six characters, which the array of eight holds.\<close>

lemma snprintf_escape: "snprintf_buf 8 ([bslash, CHR ''u''] @ hex_pad 4 (of_char c)) = [bslash, CHR ''u''] @ hex_pad 4 (of_char c)"
  using char_small [of c] by (simp add: snprintf_buf_def length_hex_pad)

interpretation w_char: json_writer "p12j_char c" "\<lambda>_. escape_char c" "\<lambda>f. f"
  by unfold_locales (simp_all add: p12j_char_def escape_char_def snprintf_escape del: append_Cons)

lemma fold_chars:
  assumes "wf_json j"
  shows "wf_json (fold p12j_char s j) \<and> json_text (fold p12j_char s j) = json_text j @ concat (map escape_char s)
    \<and> jfirst (fold p12j_char s j) = jfirst j"
  using assms by (induction s arbitrary: j) (simp_all add: w_char.keeps_wf w_char.writes w_char.sets_first)

interpretation w_str: json_writer "p12j_str s" "\<lambda>_. print_json_string (Some s)" "\<lambda>f. f"
  by unfold_locales (simp_all add: p12j_str_def fold_chars print_json_string_def)

interpretation w_cstr: json_writer "p12j_cstr s" "\<lambda>_. print_json_string s" "\<lambda>f. f"
  by unfold_locales (simp_all add: p12j_cstr_def w_str.keeps_wf w_str.writes w_str.sets_first print_json_string_def split: option.split)

interpretation w_uastr: json_writer "p12j_uastr s" "\<lambda>_. print_json_string s" "\<lambda>f. f"
  by unfold_locales (simp_all add: p12j_uastr_def w_str.keeps_wf w_str.writes w_str.sets_first print_json_string_def split: option.split)

lemmas string_contract [simp] = w_sep.keeps_wf w_sep.writes w_sep.sets_first w_open.keeps_wf w_open.writes w_open.sets_first
  w_close.keeps_wf w_close.writes w_close.sets_first w_str.keeps_wf w_str.writes w_str.sets_first
  w_cstr.keeps_wf w_cstr.writes w_cstr.sets_first

interpretation w_key: json_writer "p12j_key k" "\<lambda>f. (if f then [] else '','') @ print_json_string (Some k) @ '':''" "\<lambda>f. False"
  by unfold_locales (simp_all add: p12j_key_def)

lemma b64_loop_contract:
  "wf_json j \<Longrightarrow> wf_json (p12j_b64_loop d j) \<and> json_text (p12j_b64_loop d j) = json_text j @ value_b64_encode d
    \<and> jfirst (p12j_b64_loop d j) = jfirst j"
proof (induction d j rule: p12j_b64_loop.induct)
  case (1 d j)
  then show ?case by (cases "d = []") (simp_all add: p12j_b64_loop.simps [of d] p12j_b64_loop.simps [of "[]"] value_b64_encode.simps [of d])
qed

definition b64_quoted :: "ua_bytes \<Rightarrow> string" where
  "b64_quoted bs = [quote] @ base64_of bs @ [quote]"

interpretation w_b64: json_writer "p12j_b64 bs" "\<lambda>_. b64_quoted bs" "\<lambda>f. f"
  by unfold_locales (simp_all add: p12j_b64_def Let_def b64_loop_contract b64_quoted_def base64_of_def print_base64_Nil split: option.split)

lemmas value_contract [simp] = w_key.keeps_wf w_key.writes w_key.sets_first w_b64.keeps_wf w_b64.writes w_b64.sets_first

lemma escape_plain: "plain_text s \<Longrightarrow> concat (map escape_char s) = s"
  by (induction s) (auto simp: plain_char_def escape_char_def)

lemma escape_printable: "printable s \<Longrightarrow> concat (map escape_char s) = escape_quotes s"
  by (induction s) (auto simp: printable_def escape_char_def)

text \<open>The pieces formatted through the array of 128 bytes fit it.\<close>

lemma nodeid_pieces_fit:
  "snprintf_buf 128 (''i='' @ dec (unat (i :: u32))) = ''i='' @ dec (unat i)"
  "snprintf_buf 128 (''ns='' @ dec (unat (w :: u16)) @ '';'' @ ''i='' @ dec (unat i)) = ''ns='' @ dec (unat w) @ '';'' @ ''i='' @ dec (unat i)"
  "snprintf_buf 128 (''ns='' @ dec (unat w) @ '';'' @ ''s='') = ''ns='' @ dec (unat w) @ '';'' @ ''s=''"
  "snprintf_buf 128 (''ns='' @ dec (unat w) @ '';'' @ ''g='' @ guid_text g) = ''ns='' @ dec (unat w) @ '';'' @ ''g='' @ guid_text g"
  "snprintf_buf 128 ([quote] @ ''ns='' @ dec (unat w) @ '';'' @ ''b='') = [quote] @ ''ns='' @ dec (unat w) @ '';'' @ ''b=''"
proof -
  have "length (dec (unat w)) \<le> 5" "length (dec (unat i)) \<le> 10"
    using length_dec [OF u16_small, of w] length_dec [OF u32_small, of i] by simp_all
  moreover have "length (guid_text g) = 36"
    by (simp add: guid_text_def length_hex_pad unat_less [simplified])
  ultimately show "snprintf_buf 128 (''i='' @ dec (unat i)) = ''i='' @ dec (unat i)"
    "snprintf_buf 128 (''ns='' @ dec (unat w) @ '';'' @ ''i='' @ dec (unat i)) = ''ns='' @ dec (unat w) @ '';'' @ ''i='' @ dec (unat i)"
    "snprintf_buf 128 (''ns='' @ dec (unat w) @ '';'' @ ''s='') = ''ns='' @ dec (unat w) @ '';'' @ ''s=''"
    "snprintf_buf 128 (''ns='' @ dec (unat w) @ '';'' @ ''g='' @ guid_text g) = ''ns='' @ dec (unat w) @ '';'' @ ''g='' @ guid_text g"
    "snprintf_buf 128 ([quote] @ ''ns='' @ dec (unat w) @ '';'' @ ''b='') = [quote] @ ''ns='' @ dec (unat w) @ '';'' @ ''b=''"
    by (simp_all add: snprintf_buf_def)
qed

definition canonical_text :: "nodeid \<Rightarrow> string" where
  "canonical_text n = ns_prefix n @ ident_text (nid n)"

text \<open>The inner builder of an opaque identifier, from its second character on.\<close>

lemma inner_b64:
  "2 \<le> jlen (p12j_b64 bs p12j_init)" "take (jlen (p12j_b64 bs p12j_init) - 1) (drop 1 (jbuf (p12j_b64 bs p12j_init))) = base64_of bs @ [quote]"
proof -
  let ?b = "p12j_b64 bs p12j_init"
  have t: "take (jlen ?b) (jbuf ?b) = quote # base64_of bs @ [quote]"
    using w_b64.from_scratch [of bs] by (simp add: json_text_def b64_quoted_def)
  have f: "jlen ?b \<le> length (jbuf ?b)" using w_b64.keeps_wf [OF wf_init(1)] by (rule wf_json_fill)
  from arg_cong [OF t, of length] f show "2 \<le> jlen ?b" by simp
  have "take (jlen ?b - 1) (drop 1 (jbuf ?b)) = drop 1 (take (jlen ?b) (jbuf ?b))" by (simp add: drop_take)
  then show "take (jlen ?b - 1) (drop 1 (jbuf ?b)) = base64_of bs @ [quote]" by (simp add: t)
qed

interpretation w_nodeid: json_writer "p12j_nodeid n" "\<lambda>_. print_json_string (Some (canonical_text n))" "\<lambda>f. f"
proof unfold_locales
  fix j :: P12Json
  assume w: "wf_json j"
  have ns: "plain_text (''ns='' @ dec (unat (namespaceIndex n)) @ '';'' @ ''b='')" by (simp add: plain_char_def)
  have b: "concat (map escape_char (base64_of bs)) = base64_of bs" for bs by (simp add: escape_plain)
  have "wf_json (p12j_nodeid n j) \<and> json_text (p12j_nodeid n j) = json_text j @ print_json_string (Some (canonical_text n))
      \<and> jfirst (p12j_nodeid n j) = jfirst j"
  proof (cases "nid n")
    case (ByteStringId bs)
    then show ?thesis using w escape_plain [OF ns] b [of bs]
      by (simp add: p12j_nodeid_def Let_def nodeid_pieces_fit [simplified] inner_b64 [simplified] canonical_text_def ns_prefix_def print_json_string_def)
  qed (use w in \<open>simp_all add: p12j_nodeid_def Let_def nodeid_pieces_fit [simplified] canonical_text_def ns_prefix_def\<close>)
  then show "wf_json (p12j_nodeid n j)" "json_text (p12j_nodeid n j) = json_text j @ print_json_string (Some (canonical_text n))"
    "jfirst (p12j_nodeid n j) = jfirst j" by simp_all
qed

text \<open>Status and time.\<close>

interpretation w_status: json_writer "p12j_status st sc" "\<lambda>_. print_status_obj st sc" "\<lambda>f. False"
  by unfold_locales (simp_all add: p12j_status_def print_status_obj_def jobj_def)

interpretation w_datetime: json_writer "p12j_datetime st dt" "\<lambda>_. if dt = 0 then ''null'' else print_json_string (Some (output_timestamp st dt 64))" "\<lambda>f. f"
  by unfold_locales (simp_all add: p12j_datetime_def)

text \<open>Arrays: a comma before every element but the first.\<close>

lemma join_comma_tail: "join_comma (x # xs) = x @ concat (map (\<lambda>y. '','' @ y) xs)"
  using join_comma_snoc [of "[x]" xs] by simp

lemma fold_elements:
  assumes "\<And>x. json_writer (pr x) (\<lambda>_. t x) (\<lambda>f. f)" and "wf_json j"
  shows "wf_json (fold (\<lambda>x j. pr x (p12j_sep j)) xs j) \<and>
    json_text (fold (\<lambda>x j. pr x (p12j_sep j)) xs j) =
      json_text j @ (if jfirst j then join_comma (map t xs) else concat (map (\<lambda>x. '','' @ t x) xs))"
  using assms(2)
proof (induction xs arbitrary: j)
  case (Cons x xs)
  from assms(1) [of x] have "wf_json (pr x (p12j_sep j)) \<and> jfirst (pr x (p12j_sep j)) = False \<and>
      json_text (pr x (p12j_sep j)) = json_text j @ (if jfirst j then [] else '','') @ t x"
    using Cons.prems by (simp add: json_writer_def)
  with Cons.IH [of "pr x (p12j_sep j)"] show ?case by (simp add: join_comma_tail comp_def)
qed simp

lemma array_writer:
  assumes "\<And>x. json_writer (pr x) (\<lambda>_. t x) (\<lambda>f. f)"
  shows "json_writer (\<lambda>j. p12j_close CHR '']'' (fold (\<lambda>x j. pr x (p12j_sep j)) xs (p12j_open CHR ''['' j)))
    (\<lambda>_. jarr (map t xs)) (\<lambda>_. False)"
  by unfold_locales (simp_all add: fold_elements [OF assms] jarr_def)

interpretation w_b64_list: json_writer "p12j_b64_list bs" "\<lambda>_. jarr (map b64_quoted bs)" "\<lambda>f. False"
  using array_writer [of p12j_b64 b64_quoted bs, OF w_b64.json_writer_axioms] by (simp add: p12j_b64_list_def [abs_def])

interpretation w_nodeid_list: json_writer
    "\<lambda>j. p12j_close CHR '']'' (fold (\<lambda>n j. p12j_nodeid n (p12j_sep j)) ids (p12j_open CHR ''['' j))"
    "\<lambda>_. jarr (map (\<lambda>n. print_json_string (Some (canonical_text n))) ids)" "\<lambda>_. False"
  by (rule array_writer) (rule w_nodeid.json_writer_axioms)

lemmas list_contract [simp] = w_b64_list.keeps_wf w_b64_list.writes w_b64_list.sets_first
  w_nodeid_list.keeps_wf w_nodeid_list.writes w_nodeid_list.sets_first w_status.keeps_wf w_status.writes w_status.sets_first

text \<open>Members: the key, then the value.\<close>

definition member :: "string \<Rightarrow> string \<Rightarrow> bool \<Rightarrow> string" where
  "member k v first = (if first then [] else '','') @ print_json_string (Some k) @ '':'' @ v"

interpretation w_status_field: json_writer "p12j_status_field st k sc" "member k (print_status_obj st sc)" "\<lambda>f. False"
  by unfold_locales (simp_all add: p12j_status_field_def member_def)

interpretation w_b64_field: json_writer "p12j_b64_field k bs"
    "member k (case bs of Some b \<Rightarrow> b64_quoted b | None \<Rightarrow> [quote, quote])" "\<lambda>f. False"
  by unfold_locales (simp_all add: p12j_b64_field_def Let_def member_def split: option.split)

definition variant_bytes :: "variant option \<Rightarrow> ua_bytes list" where
  "variant_bytes v = (case v of Some (Array TByteString vs _) \<Rightarrow> map as_bytestring vs
     | Some (Scalar (VByteString b)) \<Rightarrow> [b] | _ \<Rightarrow> [])"

lemma b64_array_field_list:
  assumes "wf_json j"
  shows "wf_json (p12j_b64_array_field k v j) \<and> \<not> jfirst (p12j_b64_array_field k v j) \<and>
    json_text (p12j_b64_array_field k v j) = json_text j @ member k (jarr (map b64_quoted (variant_bytes v))) (jfirst j)"
  using assms by (auto simp: p12j_b64_array_field_def Let_def member_def variant_bytes_def jarr_def
      split: option.split variant.split ua_type.split ua_val.split)

interpretation w_b64_array_field: json_writer "p12j_b64_array_field k v" "member k (jarr (map b64_quoted (variant_bytes v)))" "\<lambda>f. False"
  by unfold_locales (simp_all add: b64_array_field_list)

definition variant_nodeids :: "variant option \<Rightarrow> nodeid list" where
  "variant_nodeids v = (case v of Some (Array TNodeId vs _) \<Rightarrow> map as_nodeid vs
     | Some (Scalar (VNodeId n)) \<Rightarrow> [n] | _ \<Rightarrow> [])"

interpretation w_nodeid_array_field: json_writer "p12j_nodeid_array_field k v"
    "member k (jarr (map (\<lambda>n. print_json_string (Some (canonical_text n))) (variant_nodeids v)))" "\<lambda>f. False"
  by unfold_locales (simp_all add: p12j_nodeid_array_field_def Let_def member_def variant_nodeids_def)

section \<open>The result item and its envelope\<close>

lemma key_text: "plain_text k \<Longrightarrow> print_json_string (Some k) = jkey k"
  by (simp add: print_json_string_def jkey_def escape_plain)

definition trust_list_json :: "TrustListDataType \<Rightarrow> string" where
  "trust_list_json trust =
    jobj [(''specifiedLists'', dec (unat (specifiedLists trust))),
      (''trustedCertificates'', jarr (map b64_quoted (trustedCertificates trust))),
      (''trustedCrls'', jarr (map b64_quoted (trustedCrls trust))),
      (''issuerCertificates'', jarr (map b64_quoted (issuerCertificates trust))),
      (''issuerCrls'', jarr (map b64_quoted (issuerCrls trust)))]"

interpretation w_trust_list: json_writer "p12j_trust_list trust" "\<lambda>_. trust_list_json trust" "\<lambda>f. False"
proof -
  have k: "plain_text ''specifiedLists''" "plain_text ''trustedCertificates''" "plain_text ''trustedCrls''"
      "plain_text ''issuerCertificates''" "plain_text ''issuerCrls''"
    by (simp_all add: plain_char_def)
  show "json_writer (p12j_trust_list trust) (\<lambda>_. trust_list_json trust) (\<lambda>f. False)"
    by unfold_locales (simp_all add: p12j_trust_list_def Let_def trust_list_json_def jobj_def key_text [OF k(1)] key_text [OF k(2)]
      key_text [OF k(3)] key_text [OF k(4)] key_text [OF k(5)])
qed

lemma json_b64_quoted [json_intro]: "json_value (b64_quoted bs)"
  unfolding b64_quoted_def by (rule json_quoted) simp

lemma json_trust_list [json_intro]: "json_value (trust_list_json trust)"
  by (auto simp: trust_list_json_def intro!: jobj_value dec_value jarr_value json_b64_quoted)

text \<open>No JSON text has a NUL in it.\<close>

lemma json_chars_no_nul: "json_chars s \<Longrightarrow> CHR 0x00 \<notin> set s"
proof (induction s rule: json_chars.induct)
  case (2 c cs)
  have h: "\<not> is_hex_digit CHR 0x00" by (simp add: is_hex_digit_def digit_value_def)
  show ?case
  proof (cases "c = bslash")
    case c: True
    then obtain e r where cs: "cs = e # r" using 2(4) by (cases cs) auto
    show ?thesis
    proof (cases "e \<in> {quote, bslash, CHR ''/'', CHR ''b'', CHR ''f'', CHR ''n'', CHR ''r'', CHR ''t''}")
      case True
      then have "json_chars r" using 2(4) unfolding c cs json_chars.simps by (simp only: if_True list.case simp_thms)
      with 2(1) [OF c cs True] True show ?thesis unfolding c cs by auto
    next
      case False
      with 2(4) have "e = CHR ''u''" and u: "case r of a # b # c' # d # r' \<Rightarrow>
          is_hex_digit a \<and> is_hex_digit b \<and> is_hex_digit c' \<and> is_hex_digit d \<and> json_chars r' | _ \<Rightarrow> False"
        unfolding c cs json_chars.simps by (simp_all only: if_False list.case if_True simp_thms split: if_splits)
      from u obtain x y z w r' where r: "r = x # y # z # w # r'" by (auto split: list.splits)
      with u have "is_hex_digit x" "is_hex_digit y" "is_hex_digit z" "is_hex_digit w" "json_chars r'" by simp_all
      with 2(2) [OF c cs False \<open>e = _\<close> r refl refl refl] h show ?thesis unfolding c cs r \<open>e = _\<close> by auto
    qed
  next
    case False
    with 2(3,4) show ?thesis by auto
  qed
qed simp

lemma json_string_no_nul: "json_string s \<Longrightarrow> CHR 0x00 \<notin> set s"
  by (auto simp: json_string_def dest: json_chars_no_nul)

lemma digit_run_no_nul: "digit_run s \<Longrightarrow> CHR 0x00 \<notin> set s"
  by (auto simp: digit_run_def list_all_iff isdigit_def)

lemma json_number_no_nul: "json_number s \<Longrightarrow> CHR 0x00 \<notin> set s"
  by (auto elim!: json_number.cases json_frac.cases json_exp.cases simp: json_int_def dest: digit_run_no_nul)

lemma join_comma_no_nul: "\<forall>x\<in>set xs. CHR 0x00 \<notin> set x \<Longrightarrow> CHR 0x00 \<notin> set (join_comma xs)"
  by (induction xs rule: join_comma.induct) auto

lemma json_value_no_nul: "json_value s \<Longrightarrow> CHR 0x00 \<notin> set s"
proof (induction rule: json_value.induct)
  case (number s)
  then show ?case by (rule json_number_no_nul)
next
  case (str s)
  then show ?case by (rule json_string_no_nul)
next
  case (arr vs)
  then show ?case using join_comma_no_nul [of vs] by auto
next
  case (obj ms)
  then have "\<forall>x\<in>set (map (\<lambda>m. fst m @ '':'' @ snd m) ms). CHR 0x00 \<notin> set x"
    using json_string_no_nul by fastforce
  then show ?case using join_comma_no_nul by auto
qed auto

text \<open>The envelope around an item is the envelope of output.c.\<close>

definition error_json :: "cstr \<Rightarrow> cstr \<Rightarrow> string" where
  "error_json category message = (case category of None \<Rightarrow> ''null''
     | Some cat \<Rightarrow> jobj [(''category'', print_json_string (Some cat)),
         (''message'', print_json_string (Some (case message of Some m \<Rightarrow> m | None \<Rightarrow> [])))])"

lemma json_error: "json_value (error_json category message)"
  by (auto simp: error_json_def split: option.split intro!: jobj_value json_value_print_string json_null)

lemma p12_emit_block:
  assumes "\<forall>j. result = Some j \<longrightarrow> wf_json j \<and> json_value (json_text j)"
  shows "p12_emit st op ok sc category message result = output_begin (Some ''open62541'') (Some op) @ output_success ok @ output_service_result st sc
    @ (piece (''results'', jarr (case result of Some j \<Rightarrow> [json_text j] | None \<Rightarrow> [])) @ piece (''error'', error_json category message)) @ output_end"
proof -
  have r: "(case result of Some j \<Rightarrow> fputs_text j | None \<Rightarrow> []) = (case result of Some j \<Rightarrow> json_text j | None \<Rightarrow> [])"
    using assms by (auto split: option.split intro: fputs_json_text dest: json_value_no_nul)
  have e: "fputs_text j = piece (''error'', error_json (Some cat) message)"
    if "wf_json j" "json_text j = piece (''error'', error_json (Some cat) message)" for j cat
  proof -
    have "CHR 0x00 \<notin> set (json_text j)"
      using json_value_no_nul [OF json_error [of "Some cat" message]] that(2) by (simp add: piece_def jkey_def)
    from fputs_json_text [OF that(1) this] that(2) show ?thesis by simp
  qed
  have "fputs_text (p12j_raw ''}'' (p12j_cstr (Some (case message of Some m \<Rightarrow> m | None \<Rightarrow> []))
      (p12j_raw ('','' @ jkey ''message'' @ '':'')
        (p12j_cstr (Some cat) (p12j_raw ('','' @ jkey ''error'' @ '':{'' @ jkey ''category'' @ '':'') p12j_init)))))
      = piece (''error'', error_json (Some cat) message)" for cat
    by (rule e) (simp_all add: piece_def error_json_def jobj_def jkey_def)
  then have c: "(case category of Some cat \<Rightarrow> fputs_text (p12j_raw ''}'' (p12j_cstr (Some (case message of Some m \<Rightarrow> m | None \<Rightarrow> []))
      (p12j_raw ('','' @ jkey ''message'' @ '':'')
        (p12j_cstr (Some cat) (p12j_raw ('','' @ jkey ''error'' @ '':{'' @ jkey ''category'' @ '':'') p12j_init)))))
      | None \<Rightarrow> output_null_error) = piece (''error'', error_json category message)"
    by (cases category) (simp_all add: output_null_error_def piece_def error_json_def)
  show ?thesis
    unfolding p12_emit_def r c by (cases result) (simp_all add: piece_def jarr_def)
qed

lemma p12_emit_json:
  assumes "names_ok st" and "\<forall>j. result = Some j \<longrightarrow> wf_json j \<and> json_value (json_text j)"
  shows "\<exists>d. p12_emit st op ok sc category message result = d @ [CHR 0x0A] \<and> json_value d"
  unfolding p12_emit_block [OF assms(2)] using assms(2)
  by (intro json_envelope_block [OF assms(1)] result_blockI [OF refl _ json_error]) (auto split: option.split)

lemma unquote_plain: "plain_text s \<Longrightarrow> unquote ([quote] @ s @ [quote]) = Some s"
  using json_unescape_plain [of s "[]"] by (simp add: unquote_def butlast_append)

text \<open>C21 A trust list that was read is reported faithfully: the document printed around the item is
  JSON, its only result is the object with the five members of the trust list in order, and a
  Base64 decoder reads every certificate and revocation list of it back to its bytes. This
  includes that the growing buffer holds all of the text and is terminated right after it.\<close>

theorem trust_list_reported:
  assumes "names_ok st" and "blob \<in> set (trustedCertificates trust @ trustedCrls trust @ issuerCertificates trust @ issuerCrls trust)"
    and "blob = Some bytes"
  shows "\<exists>d before after. p12_emit st op ok sc None None (Some (p12j_trust_list trust p12j_init)) = d @ [CHR 0x0A] \<and> json_value d
    \<and> d = before @ '','' @ jkey ''results'' @ '':['' @ trust_list_json trust @ '']'' @ after
    \<and> (\<exists>text. unquote (b64_quoted blob) = Some text \<and> value_b64_decode (Some text) = Some bytes)"
proof -
  let ?j = "p12j_trust_list trust p12j_init"
  have j: "wf_json ?j" "json_text ?j = trust_list_json trust"
    by (simp_all add: w_trust_list.keeps_wf w_trust_list.from_scratch)
  then have v: "\<forall>j. Some ?j = Some j \<longrightarrow> wf_json j \<and> json_value (json_text j)" by (simp add: json_trust_list)
  from p12_emit_json [OF assms(1) v] obtain d
    where d: "p12_emit st op ok sc None None (Some ?j) = d @ [CHR 0x0A]" "json_value d" by blast
  have "\<exists>after. output_end = after @ [CHR 0x0A]" by (auto simp: output_end_def)
  then obtain after where "output_end = after @ [CHR 0x0A]" ..
  then have "d @ [CHR 0x0A] = ((output_begin (Some ''open62541'') (Some op) @ output_success ok @ output_service_result st sc)
      @ '','' @ jkey ''results'' @ '':['' @ trust_list_json trust @ '']'' @ piece (''error'', error_json None None) @ after) @ [CHR 0x0A]"
    unfolding d(1) [symmetric] p12_emit_block [OF v] by (simp add: j(2) piece_def jarr_def)
  then have "d = (output_begin (Some ''open62541'') (Some op) @ output_success ok @ output_service_result st sc)
      @ '','' @ jkey ''results'' @ '':['' @ trust_list_json trust @ '']'' @ piece (''error'', error_json None None) @ after"
    by (simp only: append_same_eq)
  moreover have "\<exists>text. unquote (b64_quoted blob) = Some text \<and> value_b64_decode (Some text) = Some bytes"
    using unquote_plain [of "base64_of blob"] assms(3)
    by (auto simp: b64_quoted_def base64_of_def print_base64_Nil decode_encode)
  ultimately show ?thesis using d by blast
qed

theorem trust_list_reported_witness:
  "\<exists>d. p12_emit plain_stack ''push-trust-list'' True 0 None None
      (Some (p12j_trust_list \<lparr>specifiedLists = 15, trustedCertificates = [Some [48, 130, 1]], trustedCrls = [], issuerCertificates = [], issuerCrls = []\<rparr> p12j_init))
      = d @ [CHR 0x0A] \<and> json_value d"
  using trust_list_reported [OF names_ok_plain_stack, of "Some [48, 130, 1]"
      "\<lparr>specifiedLists = 15, trustedCertificates = [Some [48, 130, 1]], trustedCrls = [], issuerCertificates = [], issuerCrls = []\<rparr>" "[48, 130, 1]" "''push-trust-list''" True 0]
  by auto

text \<open>The NodeId strings of the two printers agree: what the builder writes for a NodeId is always
  a JSON string, whatever bytes the identifier holds; it reads back to the canonical text of the
  NodeId and, when the identifier is one a text can denote, to the NodeId itself; and for
  identifiers without control characters it is what print_ua_nodeid of output.c prints.\<close>

lemma nodeid_printers_agree:
  fixes n :: nodeid
  defines "t \<equiv> fputs_text (p12j_nodeid n p12j_init)"
  shows "json_value t \<and> unquote t = Some (canonical_text n) \<and> (readable_nid (nid n) \<longrightarrow> parse_nodeid (canonical_text n) = Some n)
    \<and> (clean_nodeid n \<longrightarrow> t = print_ua_nodeid n)"
proof -
  have t: "t = print_json_string (Some (canonical_text n))"
    unfolding t_def by (rule w_nodeid.fputs_writer) (rule json_value_no_nul [OF json_value_print_string])
  have "t = print_ua_nodeid n" if "clean_nodeid n"
  proof -
    have "concat (map escape_char (ident_text (nid n))) = print_nodeid_ident_raw n"
      using that by (cases "nid n") (simp_all add: print_nodeid_ident_raw_def clean_nodeid_def clean_nid_string escape_printable escape_plain
        escape_char_def del: clean_nid.simps)
    then show ?thesis by (simp add: t print_json_string_def canonical_text_def print_ua_nodeid_parts escape_plain)
  qed
  moreover have "unquote t = Some (canonical_text n)"
    by (simp add: t unquote_def print_json_string_def butlast_append json_unescape_escapes)
  ultimately show ?thesis using parse_nodeid_text [of n] by (simp add: t json_value_print_string canonical_text_def)
qed

lemma nodeid_printers_agree_witness:
  "fputs_text (p12j_nodeid \<lparr>namespaceIndex = 2, nid = StringId (Some ''Pump'')\<rparr> p12j_init)
    = print_ua_nodeid \<lparr>namespaceIndex = 2, nid = StringId (Some ''Pump'')\<rparr>"
  using nodeid_printers_agree [of "\<lparr>namespaceIndex = 2, nid = StringId (Some ''Pump'')\<rparr>"]
  by (simp add: clean_nodeid_def printable_def)

end
