(* ===== verification/Client_Nodeid.thy ===== *)
theory Client_Nodeid
  imports Part12_Json
begin

text \<open>
  The argument helpers of client.c: flags, security names, NodeId texts, time stamps and the
  Variant of a literal. A NodeId text is checked before any network traffic, parsed locally when
  it names a namespace index, and resolved on the connected server when it names a namespace
  URI. \<open>UA_Client_NamespaceGetIndex\<close> belongs to the stack and is the parameter \<open>nsindex\<close>.
\<close>

section \<open>Flags\<close>

fun find_arg :: "string list \<Rightarrow> string \<Rightarrow> cstr" where
  "find_arg (a # v # rest) flag = (if a = flag then Some v else find_arg (v # rest) flag)"
| "find_arg _ flag = None"

fun count_flag :: "string list \<Rightarrow> string \<Rightarrow> nat" where
  "count_flag [] flag = 0"
| "count_flag (a # rest) flag = (if a = flag then 1 else 0) + count_flag rest flag"

definition parse_int_flag :: "string list \<Rightarrow> string \<Rightarrow> int \<Rightarrow> int" where
  "parse_int_flag argv flag def = (case find_arg argv flag of None \<Rightarrow> def
     | Some v \<Rightarrow> (let r = atoi v in if 0 < r then r else def))"

text \<open>The loops that collect the values of a repeatable flag: a value is not skipped, it may be
  the flag again.\<close>

fun collect_flag :: "nat \<Rightarrow> string list \<Rightarrow> string \<Rightarrow> string list" where
  "collect_flag (Suc limit) (a # v # rest) flag =
     (if a = flag then v # collect_flag limit (v # rest) flag else collect_flag (Suc limit) (v # rest) flag)"
| "collect_flag limit _ flag = []"

section \<open>Security names\<close>

datatype message_security_mode = MODE_Invalid | MODE_None | MODE_Sign | MODE_SignAndEncrypt

definition security_mode_enum :: "cstr \<Rightarrow> message_security_mode" where
  "security_mode_enum s =
    (if s = None \<or> s = Some ''None'' then MODE_None
     else if s = Some ''Sign'' then MODE_Sign
     else if s = Some ''SignAndEncrypt'' then MODE_SignAndEncrypt
     else MODE_None)"

definition POLICY_PREFIX :: string where
  "POLICY_PREFIX = ''http://opcfoundation.org/UA/SecurityPolicy#''"

definition policy_names :: "string list" where
  "policy_names = [''None'', ''Basic128Rsa15'', ''Basic256'', ''Basic256Sha256'', ''Aes128_Sha256_RsaOaep'',
     ''Aes256_Sha256_RsaPss'', ''ECC_nistP256'', ''ECC_nistP384'', ''ECC_brainpoolP256r1'', ''ECC_brainpoolP384r1'',
     ''ECC_curve25519'', ''ECC_curve448'', ''ECC_nistP256_AesGcm'', ''ECC_nistP256_ChaChaPoly'']"

text \<open>The table from names to URIs; every URI of it is the common prefix and the name.\<close>

definition policy_table :: "(string \<times> string) list" where
  "policy_table = map (\<lambda>n. (n, POLICY_PREFIX @ n)) policy_names"

definition security_policy_uri :: "cstr \<Rightarrow> string" where
  "security_policy_uri name = (case name of None \<Rightarrow> snd (hd policy_table)
     | Some n \<Rightarrow> (case map_of policy_table n of Some uri \<Rightarrow> uri | None \<Rightarrow> snd (hd policy_table)))"

definition after_hash :: "string \<Rightarrow> cstr" where
  "after_hash uri = (if CHR ''#'' \<in> set uri then Some (rev (takeWhile (\<lambda>c. c \<noteq> CHR ''#'') (rev uri))) else None)"

definition security_policy_known :: "cstr \<Rightarrow> bool" where
  "security_policy_known name = (case name of None \<Rightarrow> True
     | Some n \<Rightarrow> after_hash (security_policy_uri name) = Some n)"

section \<open>NodeId texts\<close>

definition parse_guid_string :: "cstr \<Rightarrow> guid option" where
  "parse_guid_string s = (case s of None \<Rightarrow> None
     | Some s \<Rightarrow>
        (case sscanf_hexes guid_format s of
           d1 # d2 # d3 # b \<Rightarrow>
             (if length b = 8 then Some \<lparr>data1 = word_of_nat d1, data2 = word_of_nat d2, data3 = word_of_nat d3,
                                          data4 = map word_of_nat b\<rparr>
              else None)
         | _ \<Rightarrow> None))"

definition has_ident :: "string \<Rightarrow> bool" where
  "has_ident semi \<longleftrightarrow> starts_with ''s='' semi \<or> starts_with ''i='' semi \<or> starts_with ''g='' semi \<or> starts_with ''b='' semi"

definition validate_nodeid_structure :: "cstr \<Rightarrow> bool" where
  "validate_nodeid_structure s = (case s of None \<Rightarrow> False | Some [] \<Rightarrow> False
     | Some s \<Rightarrow>
        if starts_with ''i='' s then drop 2 s \<noteq> [] \<and> list_all isdigit (drop 2 s)
        else if starts_with ''ns='' s then
          (case strchr CHR '';'' (drop 3 s) of None \<Rightarrow> False | Some (_, semi) \<Rightarrow> has_ident (drop 1 semi))
        else if starts_with ''nsu='' s then
          (case strchr CHR '';'' (drop 4 s) of None \<Rightarrow> False | Some (_, semi) \<Rightarrow> has_ident (drop 1 semi))
        else False)"

text \<open>The identifier after the semicolon, the same code in both parsers.\<close>

definition parse_ident :: "string \<Rightarrow> u16 \<Rightarrow> nodeid option" where
  "parse_ident ident ns =
    (if starts_with ''s='' ident then Some (nodeid_string ns (drop 2 ident))
     else if starts_with ''i='' ident then Some (nodeid_numeric ns (word_of_int (atoi (drop 2 ident))))
     else if starts_with ''g='' ident then
       map_option (\<lambda>g. \<lparr>namespaceIndex = ns, nid = GuidId g\<rparr>) (parse_guid_string (Some (drop 2 ident)))
     else if starts_with ''b='' ident then
       map_option (\<lambda>b. \<lparr>namespaceIndex = ns, nid = ByteStringId (Some b)\<rparr>) (client_b64_decode (Some (drop 2 ident)))
     else None)"

definition parse_nodeid_local :: "cstr \<Rightarrow> nodeid" where
  "parse_nodeid_local s = (case s of None \<Rightarrow> nodeid_null
     | Some s \<Rightarrow>
        if starts_with ''i='' s then nodeid_numeric 0 (word_of_int (atoi (drop 2 s)))
        else if starts_with ''ns='' s then
          (let ns = word_of_int (atoi (drop 3 s)) in
           case strchr CHR '';'' (drop 3 s) of None \<Rightarrow> nodeid_null
           | Some (_, semi) \<Rightarrow> (case parse_ident (drop 1 semi) ns of Some n \<Rightarrow> n | None \<Rightarrow> nodeid_null))
        else nodeid_null)"

text \<open>The result of resolving a namespace URI: the NodeId, -1 for an unknown URI, -2 for any other
  failure.\<close>

type_synonym 's namespace_get_index = "'s \<Rightarrow> string \<Rightarrow> (u32 \<times> u16) \<times> 's"

definition resolve_nsu_nodeid :: "'s namespace_get_index \<Rightarrow> 's \<Rightarrow> cstr \<Rightarrow> (int + nodeid) \<times> 's" where
  "resolve_nsu_nodeid nsindex cl s = (case s of None \<Rightarrow> (Inl (-2), cl)
     | Some s \<Rightarrow>
        if \<not> starts_with ''nsu='' s then (Inl (-2), cl)
        else (case strchr CHR '';'' (drop 4 s) of None \<Rightarrow> (Inl (-2), cl)
          | Some (uri, semi) \<Rightarrow>
             (case nsindex cl uri of ((sc, idx), cl') \<Rightarrow>
                if sc \<noteq> GOOD then (Inl (-1), cl')
                else (case parse_ident (drop 1 semi) idx of Some n \<Rightarrow> (Inr n, cl') | None \<Rightarrow> (Inl (-2), cl')))))"

section \<open>Type names, time stamps and literals\<close>

text \<open>The last branch returns the name the stack's type table has for a type.\<close>

fun type_name :: "stack \<Rightarrow> ua_type option \<Rightarrow> string" where
  "type_name st None = ''Unknown''"
| "type_name st (Some TBoolean) = ''Boolean''"
| "type_name st (Some TSByte) = ''SByte''"
| "type_name st (Some TByte) = ''Byte''"
| "type_name st (Some TInt16) = ''Int16''"
| "type_name st (Some TUInt16) = ''UInt16''"
| "type_name st (Some TInt32) = ''Int32''"
| "type_name st (Some TUInt32) = ''UInt32''"
| "type_name st (Some TInt64) = ''Int64''"
| "type_name st (Some TUInt64) = ''UInt64''"
| "type_name st (Some TFloat) = ''Float''"
| "type_name st (Some TDouble) = ''Double''"
| "type_name st (Some TString) = ''String''"
| "type_name st (Some TDateTime) = ''DateTime''"
| "type_name st (Some TGuid) = ''Guid''"
| "type_name st (Some TByteString) = ''ByteString''"
| "type_name st (Some TXmlElement) = ''XmlElement''"
| "type_name st (Some TNodeId) = ''NodeId''"
| "type_name st (Some TQualifiedName) = ''QualifiedName''"
| "type_name st (Some TLocalizedText) = ''LocalizedText''"
| "type_name st (Some TStatusCode) = ''StatusCode''"
| "type_name st (Some t) = (case typeName st t of Some n \<Rightarrow> n | None \<Rightarrow> ''Unknown'')"

text \<open>The second \<open>sscanf\<close> of the source reads a prefix of what the first reads and fails whenever the
  first yields fewer than six fields.\<close>

abbreviation UA_DATETIME_MSEC :: int where
  "UA_DATETIME_MSEC \<equiv> 10000"

definition parse_rfc3339_utc :: "cstr \<Rightarrow> u64" where
  "parse_rfc3339_utc s = (case s of None \<Rightarrow> 0 | Some [] \<Rightarrow> 0
     | Some s \<Rightarrow>
        (case sscanf_ints ''--T::'' s of (f, rest) \<Rightarrow>
           if length f < 6 then 0
           else
             let millis = (if starts_with ''.'' rest then unat (ucast (fst (strtoul 10 (drop 1 rest))) :: u32) else 0);
                 t = timegm \<lparr>tm_year = f ! 0 - 1900, tm_mon = f ! 1 - 1, tm_mday = f ! 2,
                             tm_hour = f ! 3, tm_min = f ! 4, tm_sec = f ! 5\<rparr>
             in if t = -1 then 0
                else word_of_int ((t + 11644473600) * UA_DATETIME_SEC + int millis * UA_DATETIME_MSEC)))"

definition build_write_variant :: "cjson_lib \<Rightarrow> stack \<Rightarrow> cstr \<Rightarrow> cstr \<Rightarrow> variant" where
  "build_write_variant J st typeStr valStr =
    (if typeStr = None \<or> valStr = None then EmptyVariant
     else case value_parse J st typeStr valStr None of Some (Inr v) \<Rightarrow> v | _ \<Rightarrow> EmptyVariant)"

section \<open>NodeIds read back\<close>

lemma word_of_atoi:
  fixes w :: "'a :: len word"
  assumes "LENGTH('a) \<le> 32" and "no_digit 10 r"
  shows "(word_of_int (atoi (dec (unat w) @ r)) :: 'a word) = w"
proof -
  have "unat w < 2 ^ LENGTH('a)" by (rule unsigned_less)
  also have "(2 :: nat) ^ LENGTH('a) \<le> 2 ^ 32" using assms(1) by (intro power_increasing) auto
  finally have "strtoll (dec (unat w) @ r) = int (unat w)" using assms(2) by (intro strtoll_dec) auto
  moreover have "(word_of_int (signed_take_bit 31 k) :: 'a word) = word_of_int k" for k
    using assms(1) by (simp add: word_of_int_eq_iff take_bit_signed_take_bit)
  ultimately show ?thesis by (simp add: atoi_def)
qed

lemma parse_guid_string_text: "wf_guid g \<Longrightarrow> parse_guid_string (Some (guid_text g)) = Some g"
  using sscanf_guid_text [of g] by (simp add: parse_guid_string_def wf_guid_def comp_def)

text \<open>The two parsers of the Guid text differ only in that the one of values.c also checks the
  length.\<close>

interpretation client_guid: text_codec guid_text "\<lambda>s. parse_guid_string (Some s)" wf_guid
  by unfold_locales (rule parse_guid_string_text)

lemma client_decode_base64: "client_b64_decode (Some (value_b64_encode b)) = Some b"
  by (simp add: client_decode decode_encode)

lemma parse_ident_back:
  assumes "readable_nid i"
  shows "parse_ident (ident_text i) ns = Some \<lparr>namespaceIndex = ns, nid = i\<rparr>"
proof (cases i)
  case (Numeric n)
  then show ?thesis using word_of_atoi [of "[]" n] by (simp add: parse_ident_def nodeid_numeric_def)
next
  case (StringId s)
  with assms show ?thesis by (auto simp: parse_ident_def nodeid_string_def)
next
  case (GuidId g)
  with assms client_guid.dec_enc [of g] show ?thesis by (simp add: parse_ident_def)
next
  case (ByteStringId b)
  with assms show ?thesis by (auto simp: parse_ident_def base64_of_def print_base64_Nil client_decode_base64)
qed

lemma has_ident_text: "has_ident (ident_text i)"
  by (cases i) (simp_all add: has_ident_def)

lemma digits_dec: "dec n \<noteq> [] \<and> list_all isdigit (dec n)"
  using json_int_dec [of n] by (auto simp: json_int_def digit_run_def isdigit_def)

lemma no_semi_dec: "CHR '';'' \<notin> set (dec n)"
  using digits_dec [of n] by (auto simp: list_all_iff isdigit_def)

lemma canonical_ns:
  "ns_prefix n \<noteq> [] \<Longrightarrow> canonical_text n = ''ns='' @ dec (unat (namespaceIndex n)) @ '';'' @ ident_text (nid n)"
  by (auto simp: canonical_text_def ns_prefix_def split: if_splits)

lemma canonical_numeric: "ns_prefix n = [] \<Longrightarrow> \<exists>i. n = nodeid_numeric 0 i \<and> canonical_text n = ''i='' @ dec (unat i)"
  by (cases n) (auto simp: canonical_text_def ns_prefix_def nodeid_numeric_def split: if_splits)

lemma local_of_canonical:
  assumes "readable_nid (nid n)"
  shows "validate_nodeid_structure (Some (canonical_text n)) \<and> parse_nodeid_local (Some (canonical_text n)) = n"
proof (cases "ns_prefix n = []")
  case True
  then obtain i where n: "n = nodeid_numeric 0 i" and c: "canonical_text n = ''i='' @ dec (unat i)"
    using canonical_numeric by blast
  have "atoi (dec (unat i)) = atoi (dec (unat i) @ [])" by simp
  then show ?thesis using digits_dec [of "unat i"] word_of_atoi [of "[]" i] unfolding c
    by (simp add: validate_nodeid_structure_def parse_nodeid_local_def n)
next
  case False
  then have c: "canonical_text n = ''ns='' @ dec (unat (namespaceIndex n)) @ '';'' @ ident_text (nid n)"
    by (rule canonical_ns)
  have s: "strchr CHR '';'' (dec (unat (namespaceIndex n)) @ '';'' @ ident_text (nid n)) = Some (dec (unat (namespaceIndex n)), CHR '';'' # ident_text (nid n))"
    using no_semi_dec by simp
  have w: "word_of_int (atoi (dec (unat (namespaceIndex n)) @ '';'' @ ident_text (nid n))) = namespaceIndex n"
    by (rule word_of_atoi) (simp_all add: digit_value_seps)
  show ?thesis unfolding c using s w parse_ident_back [OF assms, of "namespaceIndex n"] has_ident_text [of "nid n"]
    by (simp add: validate_nodeid_structure_def parse_nodeid_local_def)
qed

lemma resolve_of_canonical:
  assumes "readable_nid (nid n)" and "CHR '';'' \<notin> set uri" and "nsindex cl uri = ((GOOD, namespaceIndex n), cl')"
  shows "resolve_nsu_nodeid nsindex cl (Some (''nsu='' @ uri @ '';'' @ ident_text (nid n))) = (Inr n, cl')"
    and "validate_nodeid_structure (Some (''nsu='' @ uri @ '';'' @ ident_text (nid n)))"
  using assms parse_ident_back [OF assms(1), of "namespaceIndex n"] has_ident_text [of "nid n"]
  by (simp_all add: resolve_nsu_nodeid_def validate_nodeid_structure_def)

text \<open>C23 NodeIds travel between commands: the NodeId string a command prints is accepted by the
  structural check of every command and is parsed to the same NodeId again, and so is the form
  that names the namespace by its URI, once the server has resolved the URI to the index of
  the NodeId.\<close>

theorem client_nodeid_roundtrip:
  assumes "readable_nid (nid n)" and "CHR '';'' \<notin> set uri" and "nsindex cl uri = ((GOOD, namespaceIndex n), cl')"
  shows "\<exists>t. unquote (fputs_text (p12j_nodeid n p12j_init)) = Some t \<and> validate_nodeid_structure (Some t) \<and> parse_nodeid_local (Some t) = n
    \<and> (let u = ''nsu='' @ uri @ '';'' @ ident_text (nid n) in
       validate_nodeid_structure (Some u) \<and> resolve_nsu_nodeid nsindex cl (Some u) = (Inr n, cl'))"
proof -
  have "fputs_text (p12j_nodeid n p12j_init) = print_json_string (Some (canonical_text n))"
    by (rule w_nodeid.fputs_writer) (rule json_value_no_nul [OF json_value_print_string])
  then have "unquote (fputs_text (p12j_nodeid n p12j_init)) = Some (canonical_text n)"
    by (simp add: unquote_def print_json_string_def butlast_append json_unescape_escapes)
  with local_of_canonical [OF assms(1)] resolve_of_canonical [of n uri nsindex cl cl', OF assms] show ?thesis by (simp add: Let_def)
qed

theorem client_nodeid_roundtrip_witness:
  "\<exists>t. unquote (fputs_text (p12j_nodeid \<lparr>namespaceIndex = 2, nid = StringId (Some ''a;b'')\<rparr> p12j_init)) = Some t
    \<and> parse_nodeid_local (Some t) = \<lparr>namespaceIndex = 2, nid = StringId (Some ''a;b'')\<rparr>"
  using client_nodeid_roundtrip [of "\<lparr>namespaceIndex = 2, nid = StringId (Some ''a;b'')\<rparr>" "''urn:x''" "\<lambda>cl uri. ((GOOD, 2), cl)" "()" "()"]
  by auto

section \<open>Security policies\<close>

lemma after_hash_prefix: "CHR ''#'' \<notin> set n \<Longrightarrow> after_hash (POLICY_PREFIX @ n) = Some n"
proof -
  assume n: "CHR ''#'' \<notin> set n"
  have "takeWhile (\<lambda>c. c \<noteq> CHR ''#'') (rev n @ CHR ''#'' # r) = rev n" for r
    using n by (subst takeWhile_append2) auto
  then show ?thesis by (simp add: after_hash_def POLICY_PREFIX_def)
qed

lemma policy_names_plain: "\<forall>n\<in>set policy_names. CHR ''#'' \<notin> set n"
  by (simp add: policy_names_def)

lemma map_of_map_pair: "map_of (map (\<lambda>n. (n, f n)) ns) n = (if n \<in> set ns then Some (f n) else None)"
  by (induction ns) auto

lemma policy_table_lookup: "map_of policy_table n = (if n \<in> set policy_names then Some (POLICY_PREFIX @ n) else None)"
  by (simp add: policy_table_def map_of_map_pair)

text \<open>A policy the table does not have is never taken for one it has.\<close>

lemma security_policy_known_iff: "security_policy_known (Some n) \<longleftrightarrow> n \<in> set policy_names"
proof (cases "n \<in> set policy_names")
  case True
  then show ?thesis using policy_names_plain after_hash_prefix [of n]
    by (simp add: security_policy_known_def security_policy_uri_def policy_table_lookup)
next
  case False
  have "snd (hd policy_table) = POLICY_PREFIX @ ''None''" by (simp add: policy_table_def policy_names_def)
  moreover have "n \<noteq> ''None''" using False by (auto simp: policy_names_def)
  ultimately show ?thesis using False after_hash_prefix [of "''None''"]
    by (simp add: security_policy_known_def security_policy_uri_def policy_table_lookup)
qed

lemma security_policy_uri_known: "n \<in> set policy_names \<Longrightarrow> security_policy_uri (Some n) = POLICY_PREFIX @ n"
  by (simp add: security_policy_uri_def policy_table_lookup)

section \<open>Time stamps\<close>

definition rfc3339_text :: "tm \<Rightarrow> string" where
  "rfc3339_text t = dec_pad 4 (nat (1900 + tm_year t)) @ ''-'' @ dec_pad 2 (nat (tm_mon t + 1)) @ ''-'' @ dec_pad 2 (nat (tm_mday t)) @ ''T''
    @ dec_pad 2 (nat (tm_hour t)) @ '':'' @ dec_pad 2 (nat (tm_min t)) @ '':'' @ dec_pad 2 (nat (tm_sec t))"

definition printable_tm :: "tm \<Rightarrow> bool" where
  "printable_tm t \<longleftrightarrow> 0 \<le> 1900 + tm_year t \<and> 1900 + tm_year t < 2 ^ 31 \<and> 0 \<le> tm_mon t + 1 \<and> tm_mon t + 1 < 2 ^ 31
    \<and> 0 \<le> tm_mday t \<and> tm_mday t < 2 ^ 31 \<and> 0 \<le> tm_hour t \<and> tm_hour t < 2 ^ 31 \<and> 0 \<le> tm_min t \<and> tm_min t < 2 ^ 31
    \<and> 0 \<le> tm_sec t \<and> tm_sec t < 2 ^ 31"

lemma rfc3339_fields:
  assumes "printable_tm t" and "no_digit 10 r"
  shows "sscanf_ints ''--T::'' (rfc3339_text t @ r) = ([1900 + tm_year t, tm_mon t + 1, tm_mday t, tm_hour t, tm_min t, tm_sec t], r)"
  using assms by (simp add: printable_tm_def rfc3339_text_def sscanf_d_pad digit_value_seps nat_less_iff)

lemma parse_rfc3339_text:
  assumes "printable_tm t" and "no_digit 10 r"
  shows "parse_rfc3339_utc (Some (rfc3339_text t @ r)) =
    (if timegm t = -1 then 0 else word_of_int ((timegm t + 11644473600) * UA_DATETIME_SEC
       + int (if starts_with ''.'' r then unat (ucast (fst (strtoul 10 (drop 1 r))) :: u32) else 0) * UA_DATETIME_MSEC))"
proof -
  have "rfc3339_text t @ r \<noteq> []" by (simp add: rfc3339_text_def)
  then obtain c cs where c: "rfc3339_text t @ r = c # cs" by (cases "rfc3339_text t @ r") auto
  have t: "\<lparr>tm_year = tm_year t, tm_mon = tm_mon t, tm_mday = tm_mday t,
      tm_hour = tm_hour t, tm_min = tm_min t, tm_sec = tm_sec t\<rparr> = t" by simp
  show ?thesis using rfc3339_fields [OF assms] unfolding c
    by (simp add: parse_rfc3339_utc_def Let_def t del: sscanf_ints.simps)
qed

text \<open>The digits after the point are taken as a number of milliseconds, however many they are: a
  fraction of \<open>.5\<close> adds five milliseconds, not half a second.\<close>

lemma rfc3339_fraction:
  assumes "printable_tm t" and "timegm t \<noteq> -1" and "n < 2 ^ 32"
  shows "parse_rfc3339_utc (Some (rfc3339_text t @ ''.'' @ dec n @ ''Z'')) =
    word_of_int ((timegm t + 11644473600) * UA_DATETIME_SEC + int n * UA_DATETIME_MSEC)"
proof -
  have u: "fst (strtoul 10 (dec n @ ''Z'')) = word_of_nat n"
    using assms(3) strtoul_dec [of n "''Z''"] by (simp add: digit_value_seps)
  have "unat (ucast (word_of_nat n :: u64) :: u32) = n"
    using assms(3) by (simp add: unsigned_ucast_eq take_bit_nat_eq_self unat_of_nat)
  with assms u parse_rfc3339_text [OF assms(1), of "''.'' @ dec n @ ''Z''"] show ?thesis
    by (simp add: digit_value_seps)
qed

text \<open>The value -1 of \<open>timegm\<close> is taken for a failure, but is also the second before 1970.\<close>

lemma rfc3339_last_second_of_1969:
  assumes "t = \<lparr>tm_year = 69, tm_mon = 11, tm_mday = 31, tm_hour = 23, tm_min = 59, tm_sec = 59\<rparr>"
  shows "parse_rfc3339_utc (Some (rfc3339_text t @ ''Z'')) = 0"
proof -
  have "timegm t = -1" unfolding assms
    by (simp add: timegm_def days_since_epoch_def days_before_month_def leap_year_def leaps_before_def month_lengths_def)
  moreover have "printable_tm t" by (simp add: assms printable_tm_def)
  ultimately show ?thesis using parse_rfc3339_text [of t "''Z''"]
    by (simp add: digit_value_seps)
qed

end
