(* ===== verification/Client_Services.thy ===== *)
theory Client_Services
  imports Client_Nodeid Fixture Traces
begin

text \<open>
  What the client commands ask of the OPC UA stack, and what it answers: the requests and responses
  of the services as records of the members the sources set and read. The answer to a call is one
  record; a call sets the members that belong to it. The client object, its configuration arrays
  and its connection are part of the stack's state, the configuration the adapter chooses is an
  argument of the call that connects.
\<close>

section \<open>Requests and responses\<close>

record path_element =
  pe_referenceTypeId :: nodeid
  pe_isInverse :: bool
  pe_includeSubtypes :: bool
  pe_targetName :: qname

record browse_path =
  bp_startingNode :: nodeid
  bp_elements :: "path_element list"

record browse_path_result =
  bpr_statusCode :: u32
  bpr_targets :: "nodeid list" \<comment> \<open>targets[i].targetId.nodeId\<close>

datatype timestamps_to_return = TS_Source | TS_Server | TS_Both | TS_Neither

record read_value_id =
  rv_nodeId :: nodeid
  rv_attributeId :: u32
  rv_indexRange :: ua_string

record write_value =
  wv_nodeId :: nodeid
  wv_attributeId :: u32
  wv_indexRange :: ua_string
  wv_value :: variant

record browse_description =
  bd_nodeId :: nodeid
  bd_forward :: bool
  bd_referenceTypeId :: nodeid
  bd_includeSubtypes :: bool
  bd_nodeClassMask :: u32
  bd_resultMask :: u32

record browse_result =
  brs_statusCode :: u32
  brs_references :: "reference_description list"
  brs_continuationPoint :: ua_bytes

record endpoint_description =
  ep_securityMode :: message_security_mode
  ep_securityPolicyUri :: ua_string
  ep_endpointUrl :: ua_string

record application_description =
  ad_applicationUri :: ua_string
  ad_productUri :: ua_string
  ad_applicationName :: ltext
  ad_discoveryUrls :: "ua_string list"

record server_on_network =
  sn_recordId :: u32
  sn_serverName :: ua_string
  sn_discoveryUrl :: ua_string
  sn_serverCapabilities :: "ua_string list"

datatype application_type = AT_Server | AT_Client | AT_ClientAndServer | AT_DiscoveryServer

record registered_server =
  rs_serverUri :: string
  rs_productUri :: string
  rs_serverName :: ltext
  rs_serverType :: application_type
  rs_gatewayServerUri :: ua_string
  rs_semaphoreFilePath :: ua_string
  rs_discoveryUrls :: "string list"
  rs_isOnline :: bool

record mdns_configuration =
  md_serverName :: string
  md_serverCapabilities :: "string list"

record new_variable =
  nv_displayName :: ltext
  nv_dataType :: nodeid
  nv_valueRank :: int
  nv_accessLevel :: nat
  nv_userAccessLevel :: nat
  nv_value :: variant

record history_request =
  hq_startTime :: u64
  hq_endTime :: u64
  hq_numValuesPerNode :: u32
  hq_returnBounds :: bool
  hq_timestamps :: timestamps_to_return
  hq_releaseContinuationPoints :: bool
  hq_nodeId :: nodeid
  hq_continuationPoint :: ua_bytes

record history_result =
  hs_statusCode :: u32
  hs_continuationPoint :: ua_bytes
  hs_data :: "datavalue list option" \<comment> \<open>a decoded HistoryData\<close>

record republish_result =
  rp_sequenceNumber :: u32
  rp_publishTime :: u64
  rp_notificationDataSize :: nat

text \<open>A request for a subscription; a member that is None keeps the value of the stack's default request,
  or 0 when the request was only initialised.\<close>

record subscription_request =
  sr_default :: bool
  sr_publishingInterval :: double
  sr_lifetimeCount :: "u32 option"
  sr_maxKeepAliveCount :: "u32 option"
  sr_publishingEnabled :: "bool option"

record subscription_result =
  su_subscriptionId :: u32
  su_publishingInterval :: double
  su_lifetimeCount :: u32
  su_maxKeepAliveCount :: u32

datatype data_trigger = TriggerStatus | TriggerStatusValue | TriggerStatusValueTimestamp
datatype deadband_type = DeadbandNone | DeadbandAbsolute | DeadbandPercent
datatype monitoring_mode = MM_Disabled | MM_Sampling | MM_Reporting

record select_operand =
  so_typeDefinitionId :: nodeid
  so_attributeId :: u32
  so_browsePath :: "string list" \<comment> \<open>names in namespace 0\<close>

datatype filter_operand = LiteralOperand variant | AttributeOperand select_operand | ElementOperand u32
datatype filter_operator = FO_OfType | FO_GreaterThanOrEqual | FO_And

record filter_element =
  fe_operator :: filter_operator
  fe_operands :: "filter_operand list"

datatype item_filter =
    NoFilter
  | DataChangeFilter data_trigger deadband_type double
  | EventFilter "select_operand list" "filter_element list"

record item_request =
  ir_default :: bool
  ir_nodeId :: nodeid
  ir_attributeId :: u32
  ir_samplingInterval :: "double option"
  ir_queueSize :: "u32 option"
  ir_discardOldest :: "bool option"
  ir_filter :: item_filter

record item_result =
  it_monitoredItemId :: u32
  it_samplingInterval :: double
  it_queueSize :: u32
  it_filterResult :: extobj

text \<open>What the stack hands to the callbacks of a monitored item: a value, or the fields of an event with
  the names of their keys.\<close>

datatype notification = DataChange datavalue | EventFields "(ua_string \<times> variant) list"

datatype channel_state = CH_Closed | CH_ReverseListening | CH_Open | CH_Other

text \<open>The settings the adapter makes on the configuration before it connects.\<close>

record client_config =
  cc_securityPolicyUri :: string
  cc_securityMode :: message_security_mode
  cc_allowNonePolicyPassword :: bool
  cc_timeout :: "u32 option"
  cc_secureChannelLifeTime :: "u32 option"
  cc_applicationUri :: cstr
  cc_userName :: "(string \<times> string) option"

datatype policy_array = SecurityPolicies | AuthSecurityPolicies

datatype client_call =
    GetEndpoints string
  | ConfigSetDefault
  | ConfigSetDefaultEncryption ua_bytes ua_bytes "ua_bytes list"
  | DecryptPrivateKey ua_bytes
  | PolicyArrayHas policy_array string
  | EccPolicyConstruct policy_array string ua_bytes ua_bytes
  | Connect client_config string
  | ConnectSecureChannel client_config string
  | MonoMs
  | GetState
  | RunIterate nat
  | StartListeningForReverseConnect client_config u16 bool \<comment> \<open>the last: without a session\<close>
  | ReadValueAttribute nodeid
  | NamespaceGetIndex string
  | CallMethod nodeid nodeid "variant list"
  | TranslateBrowsePaths "browse_path list"
  | ServiceRead timestamps_to_return "read_value_id list"
  | ServiceWrite "write_value list"
  | ServiceBrowse u32 browse_description
  | ServiceBrowseNext ua_bytes
  | SleepMs nat
  | TimeSeconds
  | NowMonotonic
  | ClientNew "u32 option" \<comment> \<open>a client with the default configuration and this timeout\<close>
  | FindServers string
  | ServiceGetEndpoints string
  | ServiceFindServers
  | ServiceFindServersOnNetwork u32 u32 "string list"
  | ServiceRegisterServer registered_server
  | ServiceRegisterServer2 registered_server mdns_configuration
  | ServiceRegisterNodes "nodeid list"
  | ServiceUnregisterNodes "nodeid list"
  | AddVariableNode nodeid nodeid nodeid qname nodeid new_variable
  | DeleteNode nodeid bool
  | ServiceHistoryRead history_request
  | ServiceRepublish u32 u32
  | ServiceTransferSubscriptions "u32 list" bool
  | WriteValueAttribute nodeid variant
  | CreateSubscription subscription_request
  | DeleteSubscription u32
  | ServiceDeleteSubscriptions "u32 list"
  | ServiceSetPublishingMode bool "u32 list"
  | ServiceSetMonitoringMode u32 monitoring_mode "u32 list"
  | CreateDataChangeItem u32 timestamps_to_return item_request
  | CreateEventItem u32 timestamps_to_return item_request
  | ServiceDeleteMonitoredItems u32 "u32 list"
  | Disconnect
  | ClientDelete

record client_ret =
  cr_status :: u32 \<comment> \<open>the status, or the service result of a response\<close>
  cr_endpoints :: "endpoint_description list"
  cr_bytes :: ua_bytes
  cr_found :: bool
  cr_ms :: int \<comment> \<open>the reading of the clock that was asked, in its unit\<close>
  cr_channel :: channel_state
  cr_sessionActivated :: bool
  cr_connectStatus :: u32
  cr_value :: variant
  cr_index :: u16
  cr_outputs :: "variant list"
  cr_pathResults :: "browse_path_result list"
  cr_dataValues :: "datavalue list"
  cr_statuses :: "u32 list"
  cr_browseResults :: "browse_result list"
  cr_applications :: "application_description list"
  cr_servers :: "server_on_network list"
  cr_resetTime :: u64
  cr_nodeIds :: "nodeid list"
  cr_historyResults :: "history_result list"
  cr_republished :: republish_result
  cr_transferResults :: "(u32 \<times> u32 list) list" \<comment> \<open>status and available sequence numbers\<close>
  cr_subscription :: subscription_result
  cr_item :: item_result
  cr_notifications :: "notification list" \<comment> \<open>delivered to the callbacks while the call ran\<close>

type_synonym 's client = "('s, client_call, client_ret) stack_api"
type_synonym 's client_world = "('s, client_call, client_ret) traced"

definition world_nsindex :: "'s client \<Rightarrow> 's client_world namespace_get_index" where
  "world_nsindex api w uri = (case run_state (perform api (NamespaceGetIndex uri)) w of (r, w') \<Rightarrow> ((cr_status r, cr_index r), w'))"

definition resolve_nsu :: "'s client \<Rightarrow> cstr \<Rightarrow> ('s client_world, int + nodeid) state" where
  "resolve_nsu api s = State (\<lambda>w. resolve_nsu_nodeid (world_nsindex api) w s)"

abbreviation UA_NS0ID_HIERARCHICALREFERENCES :: u32 where "UA_NS0ID_HIERARCHICALREFERENCES \<equiv> 33"
abbreviation UA_ATTRIBUTEID_VALUE :: u32 where "UA_ATTRIBUTEID_VALUE \<equiv> 13"

section \<open>Failure envelopes\<close>

definition cli_emit_failure :: "stack \<Rightarrow> string \<Rightarrow> u32 \<Rightarrow> string \<Rightarrow> string \<Rightarrow> string" where
  "cli_emit_failure st op sc category message =
    output_begin (Some ''open62541'') (Some op) @ output_success False @ output_service_result st sc
    @ output_error (Some category) (Some message) @ output_end"

text \<open>Every document of a failure is JSON.\<close>

lemma emit_failure_json:
  "names_ok st \<Longrightarrow> \<exists>d. cli_emit_failure st op sc category message = d @ [CHR 0x0A] \<and> json_value d"
  unfolding cli_emit_failure_def by (rule json_envelope_block [OF _ result_block_error])

text \<open>A client whose stack answers every call alike.\<close>

definition client_ret_good :: client_ret where
  "client_ret_good = \<lparr>cr_status = GOOD, cr_endpoints = [], cr_bytes = None, cr_found = True, cr_ms = 0, cr_channel = CH_Closed,
     cr_sessionActivated = False, cr_connectStatus = GOOD, cr_value = EmptyVariant, cr_index = 0, cr_outputs = [], cr_pathResults = [],
     cr_dataValues = [], cr_statuses = [], cr_browseResults = [], cr_applications = [], cr_servers = [], cr_resetTime = 0, cr_nodeIds = [],
     cr_historyResults = [], cr_republished = \<lparr>rp_sequenceNumber = 0, rp_publishTime = 0, rp_notificationDataSize = 0\<rparr>, cr_transferResults = [],
     cr_subscription = \<lparr>su_subscriptionId = 1, su_publishingInterval = DFin False 500, su_lifetimeCount = 30, su_maxKeepAliveCount = 10\<rparr>,
     cr_item = \<lparr>it_monitoredItemId = 1, it_samplingInterval = DFin False 100, it_queueSize = 1, it_filterResult = NoBody\<rparr>, cr_notifications = []\<rparr>"

end
