(* ===== verification/Part12.thy ===== *)
theory Part12
  imports Client_Services
begin

text \<open>
  The rest of part12.c: arguments and files of the push and GDS commands, Variants, the translation
  of browse paths, reading a TrustList file object in chunks, and the length of a binary NodeId.
  OpenSSL's certificate functions and the binary decoder of the stack are parameters. How long a
  file is read depends on the server, so the reading loop has a bound on its rounds; a result None
  means that the bound was reached, and the statements give a bound that is enough.
\<close>

section \<open>Arguments and files\<close>

definition p12_has_flag :: "string list \<Rightarrow> string \<Rightarrow> bool" where
  "p12_has_flag argv flag = list_ex (\<lambda>a. a = flag) argv"

fun p12_all_values :: "string list \<Rightarrow> string \<Rightarrow> string list" where
  "p12_all_values (a # v # rest) flag = (if a = flag then v # p12_all_values rest flag else p12_all_values (v # rest) flag)"
| "p12_all_values _ flag = []"

definition p12_parse_uint :: "cstr \<Rightarrow> u64 \<Rightarrow> u64 option" where
  "p12_parse_uint s limit = (case s of None \<Rightarrow> None
     | Some s \<Rightarrow>
        if s = [] \<or> \<not> list_all isdigit s then None
        else (case strtoul 10 s of (v, rest, erange) \<Rightarrow>
          if erange \<or> rest \<noteq> [] \<or> limit < v then None else Some v))"

definition p12_read_file :: "file_system \<Rightarrow> string \<Rightarrow> byte list option" where
  "p12_read_file fs path = (case fs path of Inl strerror \<Rightarrow> None
     | Inr bytes \<Rightarrow> if length bytes = 0 then None else Some (map byte_of_char bytes))"

fun memmem :: "'a list \<Rightarrow> 'a list \<Rightarrow> bool" where
  "memmem needle [] = (needle = [])"
| "memmem needle (x # xs) = (take (length needle) (x # xs) = needle \<or> memmem needle xs)"

record 'x x509_lib =
  PEM_read_bio_X509 :: "byte list \<Rightarrow> 'x option"
  d2i_X509 :: "byte list \<Rightarrow> 'x option"
  i2d_X509 :: "'x \<Rightarrow> byte list"

definition p12_read_certificate :: "'x x509_lib \<Rightarrow> file_system \<Rightarrow> string \<Rightarrow> byte list option" where
  "p12_read_certificate ssl fs path = (case p12_read_file fs path of None \<Rightarrow> None
     | Some raw \<Rightarrow>
        (let x = (if 10 \<le> length raw \<and> memmem (map byte_of_char ''-----BEGIN'') raw then PEM_read_bio_X509 ssl raw
                  else d2i_X509 ssl raw)
         in case x of None \<Rightarrow> None
            | Some x \<Rightarrow> (let der = i2d_X509 ssl x in if 0 < length der then Some der else None)))"

definition p12_resolve_nodeid :: "'s client \<Rightarrow> string \<Rightarrow> ('s client_world, int + nodeid) state" where
  "p12_resolve_nodeid api s =
    (if starts_with ''nsu='' s then resolve_nsu api (Some s)
     else let out = parse_nodeid_local (Some s) in
       State_Monad.return (if isNull out \<and> s \<noteq> ''i=0'' then Inl (-1) else Inr out))"

section \<open>Variants\<close>

definition p12v_nodeid :: "nodeid \<Rightarrow> variant" where "p12v_nodeid n = Scalar (VNodeId n)"
definition p12v_string :: "cstr \<Rightarrow> variant" where "p12v_string s = Scalar (VString s)"
definition p12v_bool :: "bool \<Rightarrow> variant" where "p12v_bool b = Scalar (VBoolean b)"
definition p12v_byte :: "byte \<Rightarrow> variant" where "p12v_byte b = Scalar (VByte b)"
definition p12v_uint16 :: "u16 \<Rightarrow> variant" where "p12v_uint16 x = Scalar (VUInt16 x)"
definition p12v_uint32 :: "u32 \<Rightarrow> variant" where "p12v_uint32 x = Scalar (VUInt32 x)"
definition p12v_int32 :: "u32 \<Rightarrow> variant" where "p12v_int32 x = Scalar (VInt32 x)"

definition p12v_bytestring :: "ua_bytes option \<Rightarrow> variant" where
  "p12v_bytestring bs = Scalar (VByteString (case bs of Some b \<Rightarrow> b | None \<Rightarrow> None))"

definition p12v_string_array :: "string list \<Rightarrow> variant" where
  "p12v_string_array ss = Array TString (map (\<lambda>s. VString (Some s)) ss) []"

definition p12v_bytestring_array :: "ua_bytes list option \<Rightarrow> variant" where
  "p12v_bytestring_array bs = Array TByteString (case bs of Some b \<Rightarrow> map VByteString b | None \<Rightarrow> []) []"

text \<open>Output arguments: absent, or of another type, reads as NULL or false.\<close>

definition p12_out_nodeid :: "variant list \<Rightarrow> nat \<Rightarrow> nodeid option" where
  "p12_out_nodeid out i = (if length out \<le> i then None else case out ! i of Scalar (VNodeId n) \<Rightarrow> Some n | _ \<Rightarrow> None)"

definition p12_out_bytestring :: "variant list \<Rightarrow> nat \<Rightarrow> ua_bytes option" where
  "p12_out_bytestring out i = (if length out \<le> i then None else case out ! i of Scalar (VByteString b) \<Rightarrow> Some b | _ \<Rightarrow> None)"

definition p12_out_bool :: "variant list \<Rightarrow> nat \<Rightarrow> bool" where
  "p12_out_bool out i = (if length out \<le> i then False else case out ! i of Scalar (VBoolean b) \<Rightarrow> b | _ \<Rightarrow> False)"

section \<open>Services\<close>

definition p12_is_transport :: "u32 \<Rightarrow> bool" where
  "p12_is_transport sc \<longleftrightarrow> sc \<in> {BADTIMEOUT, BADCONNECTIONCLOSED, BADSECURECHANNELCLOSED, BADSECURECHANNELIDINVALID,
     BADCOMMUNICATIONERROR, BADCONNECTIONREJECTED, BADDISCONNECT, BADNOTCONNECTED, BADSERVERNOTCONNECTED,
     BADSESSIONCLOSED, BADSESSIONIDINVALID}"

definition p12_call :: "'s client \<Rightarrow> nodeid \<Rightarrow> nodeid \<Rightarrow> variant list \<Rightarrow> ('s client_world, u32 \<times> variant list) state" where
  "p12_call api object meth inputs = do {
     r \<leftarrow> perform api (CallMethod object meth inputs);
     State_Monad.return (cr_status r, cr_outputs r)
   }"

definition path_step :: "string \<Rightarrow> path_element" where
  "path_step name = \<lparr>pe_referenceTypeId = nodeid_numeric 0 UA_NS0ID_HIERARCHICALREFERENCES, pe_isInverse = False,
     pe_includeSubtypes = True, pe_targetName = \<lparr>qn_namespaceIndex = 0, qn_name = Some name\<rparr>\<rparr>"

fun first_targets :: "browse_path_result list \<Rightarrow> u32 + nodeid list" where
  "first_targets [] = Inr []"
| "first_targets (r # rs) =
    (if bpr_statusCode r \<noteq> GOOD then Inl (bpr_statusCode r)
     else case bpr_targets r of [] \<Rightarrow> Inl BADNOMATCH
       | t # _ \<Rightarrow> (case first_targets rs of Inl sc \<Rightarrow> Inl sc | Inr ts \<Rightarrow> Inr (t # ts)))"

definition p12_translate :: "'s client \<Rightarrow> nodeid \<Rightarrow> string list list \<Rightarrow> ('s client_world, u32 + nodeid list) state" where
  "p12_translate api start paths = do {
     r \<leftarrow> perform api (TranslateBrowsePaths
            (map (\<lambda>p. \<lparr>bp_startingNode = start, bp_elements = map path_step p\<rparr>) paths));
     State_Monad.return
       (if cr_status r \<noteq> GOOD then Inl (cr_status r)
        else if length (cr_pathResults r) \<noteq> length paths then Inl BADUNEXPECTEDERROR
        else first_targets (cr_pathResults r))
   }"

abbreviation P12_READ_CHUNK :: nat where "P12_READ_CHUNK \<equiv> 4096"

fun p12_read_chunks :: "nat \<Rightarrow> 's client \<Rightarrow> nodeid \<Rightarrow> nodeid \<Rightarrow> u32 \<Rightarrow> byte list \<Rightarrow> ('s client_world, (u32 \<times> byte list) option) state" where
  "p12_read_chunks 0 api trustList readId handle data = State_Monad.return None"
| "p12_read_chunks (Suc rounds) api trustList readId handle data = do {
     (readSc, out) \<leftarrow> p12_call api trustList readId [p12v_uint32 handle, p12v_int32 (word_of_nat P12_READ_CHUNK)];
     if readSc \<noteq> GOOD then State_Monad.return (Some (readSc, data))
     else
       let chunk = (case p12_out_bytestring out 0 of Some (Some b) \<Rightarrow> b | _ \<Rightarrow> []); data = data @ chunk in
       if length chunk < P12_READ_CHUNK then State_Monad.return (Some (GOOD, data))
       else p12_read_chunks rounds api trustList readId handle data
   }"

definition open_handle :: "u32 \<times> variant list \<Rightarrow> u32 + u32" where
  "open_handle r = (case r of (sc, out) \<Rightarrow>
     if sc \<noteq> GOOD then Inl sc
     else case out of Scalar (VUInt32 h) # _ \<Rightarrow> Inr h | _ \<Rightarrow> Inl BADUNEXPECTEDERROR)"

definition p12_read_trust_list ::
  "nat \<Rightarrow> (byte list \<Rightarrow> TrustListDataType option) \<Rightarrow> 's client \<Rightarrow> nodeid \<Rightarrow> bool \<Rightarrow> u32
    \<Rightarrow> ('s client_world, (u32 + TrustListDataType) option) state" where
  "p12_read_trust_list rounds decodeTL api trustList withMasks masks = do {
     tr \<leftarrow> p12_translate api trustList [[if withMasks then ''OpenWithMasks'' else ''Open''], [''Read''], [''Close'']];
     case tr of
       Inr [openId, readId, closeId] \<Rightarrow> do {
         opened \<leftarrow> p12_call api trustList openId [if withMasks then p12v_uint32 masks else p12v_byte 1];
         case open_handle opened of
           Inl sc \<Rightarrow> State_Monad.return (Some (Inl sc))
         | Inr handle \<Rightarrow> do {
             rd \<leftarrow> p12_read_chunks rounds api trustList readId handle [];
             case rd of
               None \<Rightarrow> State_Monad.return None
             | Some (readSc, data) \<Rightarrow> do {
                 (closeSc, _) \<leftarrow> p12_call api trustList closeId [p12v_uint32 handle];
                 State_Monad.return (Some
                   (if readSc \<noteq> GOOD then Inl readSc
                    else if closeSc \<noteq> GOOD then Inl closeSc
                    else case decodeTL data of None \<Rightarrow> Inl BADDECODINGERROR | Some trust \<Rightarrow> Inr trust))
               }
           }
       }
     | Inr _ \<Rightarrow> State_Monad.return (Some (Inl BADUNEXPECTEDERROR))
     | Inl sc \<Rightarrow> State_Monad.return (Some (Inl sc))
   }"

definition p12_extension_body :: "stack \<Rightarrow> extobj \<Rightarrow> ua_bytes option" where
  "p12_extension_body st eo = (case eo of
     EncodedBytes _ body \<Rightarrow> Some body
   | Decoded _ _ d \<Rightarrow> (case encodeBinary st d of Some bytes \<Rightarrow> Some (Some bytes) | None \<Rightarrow> None)
   | _ \<Rightarrow> None)"

section \<open>The length of a binary NodeId\<close>

definition p12_le_i32 :: "byte list \<Rightarrow> nat \<Rightarrow> u32 option" where
  "p12_le_i32 p off =
    (if length p < off + 4 then None
     else Some (ucast (p ! off) OR push_bit 8 (ucast (p ! (off + 1))) OR push_bit 16 (ucast (p ! (off + 2))) OR push_bit 24 (ucast (p ! (off + 3)))))"

definition p12_nodeid_encoded_length :: "byte list \<Rightarrow> nat" where
  "p12_nodeid_encoded_length buf =
    (if length buf < 1 then 0
     else
       let fits = (\<lambda>n. if n \<le> length buf then n else 0); tag = unat (buf ! 0 AND 0x3f) in
       if tag = 0 then fits 2
       else if tag = 1 then fits 4
       else if tag = 2 then fits 7
       else if tag = 3 \<or> tag = 5 then
         (case p12_le_i32 buf 3 of None \<Rightarrow> 0 | Some slen \<Rightarrow> fits (7 + (if 0 < sint slen then nat (sint slen) else 0)))
       else if tag = 4 then fits 19
       else 0)"

definition p12_exit_code :: "u32 \<Rightarrow> int" where
  "p12_exit_code sc = (if sc = BADTIMEOUT then 7 else if p12_is_transport sc then 3 else 4)"

section \<open>The encoded length is the length of the encoding\<close>

text \<open>The binary encoding of NodeIds (OPC UA Part 6, 5.2.2.9): the shortest form for numeric
  identifiers, little-endian numbers, and a length of -1 for a null string.\<close>

definition le16 :: "u16 \<Rightarrow> byte list" where
  "le16 w = [ucast w, ucast (drop_bit 8 w)]"

definition le32 :: "u32 \<Rightarrow> byte list" where
  "le32 w = [ucast w, ucast (drop_bit 8 w), ucast (drop_bit 16 w), ucast (drop_bit 24 w)]"

definition encode_bytes :: "ua_bytes \<Rightarrow> byte list" where
  "encode_bytes b = (case b of None \<Rightarrow> le32 (-1) | Some bs \<Rightarrow> le32 (word_of_nat (length bs)) @ bs)"

definition encode_nodeid :: "nodeid \<Rightarrow> byte list" where
  "encode_nodeid n =
    (let ns = namespaceIndex n in
     case nid n of
       Numeric i \<Rightarrow>
         (if ns = 0 \<and> unat i < 256 then [0, ucast i]
          else if unat ns < 256 \<and> unat i < 65536 then [1, ucast ns] @ le16 (ucast i)
          else [2] @ le16 ns @ le32 i)
     | StringId s \<Rightarrow> [3] @ le16 ns @ encode_bytes (map_option (map byte_of_char) s)
     | GuidId g \<Rightarrow> [4] @ le16 ns @ le32 (data1 g) @ le16 (data2 g) @ le16 (data3 g) @ data4 g
     | ByteStringId b \<Rightarrow> [5] @ le16 ns @ encode_bytes b)"

lemma length_le [simp]: "length (le16 x) = 2" "length (le32 y) = 4"
  by (simp_all add: le16_def le32_def)

lemma le32_back:
  "ucast (ucast w :: byte) OR push_bit 8 (ucast (ucast (drop_bit 8 w) :: byte)) OR push_bit 16 (ucast (ucast (drop_bit 16 w) :: byte))
    OR push_bit 24 (ucast (ucast (drop_bit 24 w) :: byte)) = (w :: u32)" (is "?l = _")
proof (rule bit_word_eqI)
  fix n :: nat assume "n < LENGTH(32)"
  then consider "n < 8" | "8 \<le> n \<and> n < 16" | "16 \<le> n \<and> n < 24" | "24 \<le> n \<and> n < 32" by fastforce
  then show "bit ?l n = bit w n"
    by cases (auto simp: bit_simps)
qed

lemma p12_le_i32_le32: "length pre = off \<Longrightarrow> p12_le_i32 (pre @ le32 w @ rest) off = Some w"
  by (simp add: p12_le_i32_def nth_append le32_def le32_back)

lemma encoded_string_length:
  assumes "tag = 3 \<or> tag = 5" and "length bytes < 2 ^ 31" and "b = Some bytes \<or> b = None \<and> bytes = []"
  shows "p12_nodeid_encoded_length ([tag] @ le16 ns @ encode_bytes b @ rest) = 7 + length bytes"
    and "length (encode_bytes b) = 4 + length bytes"
    and "k < 7 + length bytes \<Longrightarrow> p12_nodeid_encoded_length (take k ([tag] @ le16 ns @ encode_bytes b)) = 0"
proof -
  define slen where "slen = ((case b of None \<Rightarrow> -1 | Some bs \<Rightarrow> word_of_nat (length bs)) :: u32)"
  have e: "encode_bytes b = le32 slen @ bytes"
    using assms(3) by (auto simp: encode_bytes_def slen_def)
  have s: "(if 0 < sint slen then nat (sint slen) else 0) = length bytes"
  proof (cases b)
    case (Some bs)
    then show ?thesis using assms(2,3) by (simp add: slen_def signed_of_nat signed_take_bit_int_eq_self)
  qed (use assms(3) in \<open>simp add: slen_def\<close>)
  have l: "p12_le_i32 ([tag] @ le16 ns @ le32 slen @ r) 3 = Some slen" for r
    using p12_le_i32_le32 [of "[tag] @ le16 ns" 3 slen r] by simp
  have t: "unat (tag AND 0x3f) = 3 \<or> unat (tag AND 0x3f) = 5" using assms(1) by auto
  then show "p12_nodeid_encoded_length ([tag] @ le16 ns @ encode_bytes b @ rest) = 7 + length bytes"
    using l [of "bytes @ rest"] s by (auto simp: p12_nodeid_encoded_length_def e Let_def)
  show "length (encode_bytes b) = 4 + length bytes" by (simp add: e)
  show "p12_nodeid_encoded_length (take k ([tag] @ le16 ns @ encode_bytes b)) = 0" if k: "k < 7 + length bytes"
  proof (cases "k < 7")
    case True
    then have "p12_le_i32 (take k ([tag] @ le16 ns @ encode_bytes b)) 3 = None"
      by (simp add: p12_le_i32_def e)
    then show ?thesis using t k by (cases k) (auto simp: p12_nodeid_encoded_length_def Let_def e)
  next
    case False
    have "take k (([tag] @ le16 ns @ le32 slen) @ bytes) = ([tag] @ le16 ns @ le32 slen) @ take (k - 7) bytes"
      using False by (subst take_append) simp
    then have "take k ([tag] @ le16 ns @ encode_bytes b) = [tag] @ le16 ns @ le32 slen @ take (k - 7) bytes"
      by (simp add: e)
    then show ?thesis using l [of "take (k - 7) bytes"] s t k False
      by (auto simp: p12_nodeid_encoded_length_def Let_def min_def)
  qed
qed

lemma encoded_string_parts:
  assumes "enc = [tag] @ le16 ns @ encode_bytes b" and "tag = 3 \<or> tag = 5" and "length bytes < 2 ^ 31" and "b = Some bytes \<or> b = None \<and> bytes = []"
  shows "p12_nodeid_encoded_length (enc @ rest) = length enc \<and> (k < length enc \<longrightarrow> p12_nodeid_encoded_length (take k enc) = 0)"
  using encoded_string_length(1) [OF assms(2-4), of ns rest] encoded_string_length(2) [OF assms(2-4)] encoded_string_length(3) [OF assms(2-4), of k ns]
  unfolding assms(1) by simp

lemma encoded_fixed_length:
  assumes "(tag, n) \<in> {(0, 2), (1, 4), (2, 7), (4, 19)}"
  shows "p12_nodeid_encoded_length (tag # r) = (if n \<le> Suc (length r) then n else 0)"
  using assms by (auto simp: p12_nodeid_encoded_length_def Let_def)

lemma encoded_fixed:
  assumes "(tag, n) \<in> {(0, 2), (1, 4), (2, 7), (4, 19)}" and "n = Suc (length r)"
  shows "p12_nodeid_encoded_length (tag # r @ rest) = n" "k < n \<Longrightarrow> p12_nodeid_encoded_length (take k (tag # r)) = 0"
proof -
  show "p12_nodeid_encoded_length (tag # r @ rest) = n"
    using encoded_fixed_length [OF assms(1), of "r @ rest"] assms(2) by simp
  show "p12_nodeid_encoded_length (take k (tag # r)) = 0" if "k < n"
  proof (cases k)
    case 0
    then show ?thesis by (simp add: p12_nodeid_encoded_length_def)
  next
    case (Suc j)
    then show ?thesis using encoded_fixed_length [OF assms(1), of "take j r"] assms(2) that by simp
  qed
qed

lemma encoded_fixed_parts:
  assumes "enc = tag # r" and "(tag, n) \<in> {(0, 2), (1, 4), (2, 7), (4, 19)}" and "n = Suc (length r)"
  shows "p12_nodeid_encoded_length (enc @ rest) = length enc \<and> (k < length enc \<longrightarrow> p12_nodeid_encoded_length (take k enc) = 0)"
  unfolding assms(1) using encoded_fixed [OF assms(2,3)] assms(3) by (simp only: append_Cons list.size) simp

definition encodable_nid :: "nid \<Rightarrow> bool" where
  "encodable_nid i = (case i of StringId (Some s) \<Rightarrow> length s < 2 ^ 31 | ByteStringId (Some b) \<Rightarrow> length b < 2 ^ 31 | GuidId g \<Rightarrow> wf_guid g | _ \<Rightarrow> True)"

lemma encoded_length:
  assumes "encodable_nid (nid n)"
  shows "p12_nodeid_encoded_length (encode_nodeid n @ rest) = length (encode_nodeid n)
    \<and> (k < length (encode_nodeid n) \<longrightarrow> p12_nodeid_encoded_length (take k (encode_nodeid n)) = 0)"
proof (cases "nid n")
  case (Numeric i)
  show ?thesis
  proof (cases "namespaceIndex n = 0 \<and> unat i < 256")
    case True
    then have "encode_nodeid n = 0 # [ucast i]" by (simp add: encode_nodeid_def Numeric)
    then show ?thesis by (rule encoded_fixed_parts [where n = 2]) simp_all
  next
    case big: False
    show ?thesis
    proof (cases "unat (namespaceIndex n) < 256 \<and> unat i < 65536")
      case True
      with big have "encode_nodeid n = 1 # ucast (namespaceIndex n) # le16 (ucast i)"
        unfolding encode_nodeid_def Numeric Let_def by (simp only: nid.case if_False if_True) simp
      then show ?thesis by (rule encoded_fixed_parts [where n = 4]) simp_all
    next
      case False
      with big have "encode_nodeid n = 2 # le16 (namespaceIndex n) @ le32 i"
        unfolding encode_nodeid_def Numeric Let_def by (simp only: nid.case if_False) simp
      then show ?thesis by (rule encoded_fixed_parts [where n = 7]) simp_all
    qed
  qed
next
  case (StringId s)
  let ?b = "map_option (map byte_of_char) s" and ?bytes = "case s of None \<Rightarrow> [] | Some s \<Rightarrow> map byte_of_char s"
  have "length ?bytes < 2 ^ 31" "?b = Some ?bytes \<or> ?b = None \<and> ?bytes = []"
    using assms StringId by (auto simp: encodable_nid_def split: option.splits)
  moreover have "encode_nodeid n = [3] @ le16 (namespaceIndex n) @ encode_bytes ?b" by (simp add: encode_nodeid_def StringId)
  ultimately show ?thesis by (intro encoded_string_parts) auto
next
  case (GuidId g)
  then have "length (data4 g) = 8" using assms by (simp add: encodable_nid_def wf_guid_def)
  then have l: "19 = Suc (length (le16 (namespaceIndex n) @ le32 (data1 g) @ le16 (data2 g) @ le16 (data3 g) @ data4 g))"
    by (simp only: length_append length_le)
  have e: "encode_nodeid n = 4 # le16 (namespaceIndex n) @ le32 (data1 g) @ le16 (data2 g) @ le16 (data3 g) @ data4 g"
    by (simp add: encode_nodeid_def GuidId)
  have "(4 :: byte, 19 :: nat) \<in> {(0, 2), (1, 4), (2, 7), (4, 19)}" by simp
  from encoded_fixed_parts [OF e this l] show ?thesis .
next
  case (ByteStringId b)
  let ?bytes = "case b of None \<Rightarrow> [] | Some b \<Rightarrow> b"
  have "length ?bytes < 2 ^ 31" "b = Some ?bytes \<or> b = None \<and> ?bytes = []"
    using assms ByteStringId by (auto simp: encodable_nid_def split: option.splits)
  moreover have "encode_nodeid n = [5] @ le16 (namespaceIndex n) @ encode_bytes b" by (simp add: encode_nodeid_def ByteStringId)
  ultimately show ?thesis by (intro encoded_string_parts) auto
qed

text \<open>C36 The length of a binary NodeId: at the start of a buffer that begins with the encoding of a
  NodeId, followed by anything, exactly the length of the encoding is found; a buffer that ends
  within the encoding is reported as malformed; and the length never exceeds the buffer.\<close>

theorem nodeid_encoded_length_exact:
  assumes "encodable_nid (nid n)"
  shows "p12_nodeid_encoded_length (encode_nodeid n @ rest) = length (encode_nodeid n)
    \<and> (\<forall>k<length (encode_nodeid n). p12_nodeid_encoded_length (take k (encode_nodeid n)) = 0)
    \<and> (\<forall>buf. p12_nodeid_encoded_length buf \<le> length buf)"
  using encoded_length [OF assms] by (auto simp: p12_nodeid_encoded_length_def Let_def split: option.split)

theorem nodeid_encoded_length_exact_witness:
  "p12_nodeid_encoded_length (encode_nodeid \<lparr>namespaceIndex = 2, nid = StringId (Some ''Pump'')\<rparr> @ [9, 9]) = 11"
  using nodeid_encoded_length_exact [of "\<lparr>namespaceIndex = 2, nid = StringId (Some ''Pump'')\<rparr>" "[9, 9]"]
  by (simp add: encodable_nid_def encode_nodeid_def encode_bytes_def)

section \<open>Reading a trust list\<close>

lemma run_call [simp]:
  "run_state (p12_call api ob m ins) (s, tr) =
    (case api s (CallMethod ob m ins) of (r, s') \<Rightarrow> ((cr_status r, cr_outputs r), s', tr @ [(CallMethod ob m ins, r)]))"
  by (simp add: p12_call_def perform_def split: prod.split)

lemma run_translate [simp]:
  "run_state (p12_translate api start paths) (s, tr) =
    (let c = TranslateBrowsePaths (map (\<lambda>p. \<lparr>bp_startingNode = start, bp_elements = map path_step p\<rparr>) paths) in
     case api s c of (r, s') \<Rightarrow>
       (if cr_status r \<noteq> GOOD then Inl (cr_status r)
        else if length (cr_pathResults r) \<noteq> length paths then Inl BADUNEXPECTEDERROR
        else first_targets (cr_pathResults r), s', tr @ [(c, r)]))"
  by (simp add: p12_translate_def perform_def split: prod.split)

text \<open>What is relied on of a server that has the file: while a property P of its state holds, the
  three methods are found, Open gives a handle and starts at the beginning, Read gives the next
  bytes, up to as many as asked for, and Close is accepted (OPC UA Part 20, FileType).\<close>

record file_methods =
  fm_open :: nodeid
  fm_read :: nodeid
  fm_close :: nodeid

definition trust_list_paths :: "nodeid \<Rightarrow> bool \<Rightarrow> browse_path list" where
  "trust_list_paths tl_id withMasks = map (\<lambda>p. \<lparr>bp_startingNode = tl_id, bp_elements = map path_step p\<rparr>)
     [[if withMasks then ''OpenWithMasks'' else ''Open''], [''Read''], [''Close'']]"

definition serves_file ::
  "'s client \<Rightarrow> ('s \<Rightarrow> bool) \<Rightarrow> ('s \<Rightarrow> nat) \<Rightarrow> nodeid \<Rightarrow> bool \<Rightarrow> u32 \<Rightarrow> file_methods \<Rightarrow> u32 \<Rightarrow> byte list \<Rightarrow> bool" where
  "serves_file api P pos tl_id withMasks masks fm handle content \<longleftrightarrow>
    (\<forall>s. P s \<longrightarrow>
      (case api s (TranslateBrowsePaths (trust_list_paths tl_id withMasks)) of (r, s') \<Rightarrow>
         P s' \<and> cr_status r = GOOD \<and> length (cr_pathResults r) = 3 \<and>
         first_targets (cr_pathResults r) = Inr [fm_open fm, fm_read fm, fm_close fm]) \<and>
      (case api s (CallMethod tl_id (fm_open fm) [if withMasks then p12v_uint32 masks else p12v_byte 1]) of (r, s') \<Rightarrow>
         P s' \<and> pos s' = 0 \<and> cr_status r = GOOD \<and> cr_outputs r = [Scalar (VUInt32 handle)]) \<and>
      (case api s (CallMethod tl_id (fm_read fm) [p12v_uint32 handle, p12v_int32 4096]) of (r, s') \<Rightarrow>
         P s' \<and> pos s' = pos s + length (take 4096 (drop (pos s) content)) \<and> cr_status r = GOOD \<and>
         cr_outputs r = [Scalar (VByteString (Some (take 4096 (drop (pos s) content))))]) \<and>
      (case api s (CallMethod tl_id (fm_close fm) [p12v_uint32 handle]) of (r, s') \<Rightarrow> P s' \<and> cr_status r = GOOD))"

lemma read_chunks_file:
  assumes "serves_file api P pos tl_id withMasks masks fm handle content"
  shows "P s \<Longrightarrow> (length content - pos s) div 4096 < rounds \<Longrightarrow> pos s \<le> length content \<Longrightarrow>
    \<exists>s' reads. run_state (p12_read_chunks rounds api tl_id (fm_read fm) handle (take (pos s) content)) (s, tr) = (Some (GOOD, content), s', tr @ reads)
      \<and> P s' \<and> length reads = (length content - pos s) div 4096 + 1"
proof (induction rounds arbitrary: s tr)
  case (Suc rounds)
  let ?c = "CallMethod tl_id (fm_read fm) [p12v_uint32 handle, p12v_int32 4096]"
  obtain r s1 where r: "api s ?c = (r, s1)" by (cases "api s ?c")
  define chunk where "chunk = take 4096 (drop (pos s) content)"
  have a: "P s1" "pos s1 = pos s + length chunk" "cr_status r = GOOD" "cr_outputs r = [Scalar (VByteString (Some chunk))]"
    using assms Suc.prems(1) r by (auto simp: serves_file_def chunk_def)
  have d: "take (pos s) content @ chunk = take (pos s1) content"
    using Suc.prems(3) by (simp add: a(2) chunk_def take_add min_def)
  show ?case
  proof (cases "length chunk < 4096")
    case True
    then have "pos s1 = length content" "(length content - pos s) div 4096 = 0"
      using Suc.prems(3) by (auto simp: a(2) chunk_def min_def split: if_splits)
    with True d a r show ?thesis by (simp add: p12_out_bytestring_def)
  next
    case False
    then have f: "length chunk = 4096" "4096 \<le> length content - pos s" "pos s1 = pos s + 4096" by (auto simp: chunk_def a(2))
    then have n: "(length content - pos s) div 4096 = Suc ((length content - pos s1) div 4096)" by (simp add: le_div_geq)
    have lt: "(length content - pos s1) div 4096 < rounds" and le: "pos s1 \<le> length content" using Suc.prems(2) n f by linarith+
    from Suc.IH [OF a(1) lt le, of "tr @ [(?c, r)]"] obtain s' reads where
      i: "run_state (p12_read_chunks rounds api tl_id (fm_read fm) handle (take (pos s1) content)) (s1, tr @ [(?c, r)]) = (Some (GOOD, content), s', (tr @ [(?c, r)]) @ reads)"
        "P s'" "length reads = (length content - pos s1) div 4096 + 1" by blast
    have "run_state (p12_read_chunks (Suc rounds) api tl_id (fm_read fm) handle (take (pos s) content)) (s, tr) = (Some (GOOD, content), s', tr @ ((?c, r) # reads))"
      using i(1) f(1) d a r by (simp add: p12_out_bytestring_def)
    then show ?thesis using i(2,3) n by (intro exI [of _ s'] exI [of _ "(?c, r) # reads"]) simp
  qed
qed simp

text \<open>C10 Reading a trust list file succeeds on every server that serves the file as FileType
  describes: the loop ends after one read more than there are whole chunks, all bytes are
  collected in order, the file is closed, and the result is what the bytes decode to.\<close>

theorem trust_list_read:
  assumes "serves_file api P pos tl_id withMasks masks fm handle content" and "P s" and "length content div 4096 < rounds"
  shows "\<exists>s' calls. run_state (p12_read_trust_list rounds decodeTL api tl_id withMasks masks) (s, []) =
      (Some (case decodeTL content of None \<Rightarrow> Inl BADDECODINGERROR | Some trust \<Rightarrow> Inr trust), s', calls)
    \<and> length calls = length content div 4096 + 4 \<and> fst (last calls) = CallMethod tl_id (fm_close fm) [p12v_uint32 handle]"
proof -
  let ?t = "TranslateBrowsePaths (trust_list_paths tl_id withMasks)"
    and ?o = "CallMethod tl_id (fm_open fm) [if withMasks then p12v_uint32 masks else p12v_byte 1]"
    and ?cl = "CallMethod tl_id (fm_close fm) [p12v_uint32 handle]"
  obtain r0 s0 where 0: "api s ?t = (r0, s0)" by (cases "api s ?t")
  then have a0: "P s0" "cr_status r0 = GOOD" "length (cr_pathResults r0) = 3" "first_targets (cr_pathResults r0) = Inr [fm_open fm, fm_read fm, fm_close fm]"
    using assms(1,2) unfolding serves_file_def by fastforce+
  obtain r1 s1 where 1: "api s0 ?o = (r1, s1)" by (cases "api s0 ?o")
  then have a1: "P s1" "pos s1 = 0" "cr_status r1 = GOOD" "cr_outputs r1 = [Scalar (VUInt32 handle)]"
    using assms(1) a0(1) unfolding serves_file_def by fastforce+
  obtain s2 reads where 2: "run_state (p12_read_chunks rounds api tl_id (fm_read fm) handle []) (s1, [(?t, r0), (?o, r1)]) = (Some (GOOD, content), s2, [(?t, r0), (?o, r1)] @ reads)"
      "P s2" "length reads = length content div 4096 + 1"
    using read_chunks_file [OF assms(1) a1(1), of rounds "[(?t, r0), (?o, r1)]"] assms(3) a1(2) by auto
  obtain r3 s3 where 3: "api s2 ?cl = (r3, s3)" by (cases "api s2 ?cl")
  then have a3: "cr_status r3 = GOOD" using assms(1) 2(2) unfolding serves_file_def by fastforce
  have "run_state (p12_read_trust_list rounds decodeTL api tl_id withMasks masks) (s, []) =
      (Some (case decodeTL content of None \<Rightarrow> Inl BADDECODINGERROR | Some trust \<Rightarrow> Inr trust), s3, [(?t, r0), (?o, r1)] @ reads @ [(?cl, r3)])"
    using 0 a0(2-4) 1 a1(3,4) 2(1) 3 a3 by (simp add: p12_read_trust_list_def trust_list_paths_def open_handle_def)
  then show ?thesis using 2(3) by (intro exI [of _ s3] exI [of _ "[(?t, r0), (?o, r1)] @ reads @ [(?cl, r3)]"]) simp
qed

text \<open>A server that holds one file: its state is the position.\<close>

definition one_file :: "byte list \<Rightarrow> nat client" where
  "one_file content pos c = (case c of
     TranslateBrowsePaths ps \<Rightarrow>
       (client_ret_good\<lparr>cr_pathResults := map (\<lambda>i. \<lparr>bpr_statusCode = GOOD, bpr_targets = [nodeid_numeric 1 i]\<rparr>) [1, 2, 3]\<rparr>, pos)
   | CallMethod ob m ins \<Rightarrow>
       (if m = nodeid_numeric 1 1 then (client_ret_good\<lparr>cr_outputs := [Scalar (VUInt32 7)]\<rparr>, 0)
        else if m = nodeid_numeric 1 2 then
          (let chunk = take 4096 (drop pos content) in (client_ret_good\<lparr>cr_outputs := [Scalar (VByteString (Some chunk))]\<rparr>, pos + length chunk))
        else (client_ret_good, pos))
   | _ \<Rightarrow> (client_ret_good, pos))"

lemma one_file_serves:
  "serves_file (one_file content) (\<lambda>_. True) (\<lambda>p. p) tl_id False 0
     \<lparr>fm_open = nodeid_numeric 1 1, fm_read = nodeid_numeric 1 2, fm_close = nodeid_numeric 1 3\<rparr> 7 content"
  by (simp add: serves_file_def one_file_def client_ret_good_def nodeid_numeric_def Let_def)

theorem trust_list_read_witness:
  "\<exists>s' calls. run_state (p12_read_trust_list 3 (\<lambda>b. Some \<lparr>specifiedLists = word_of_nat (length b), trustedCertificates = [], trustedCrls = [],
       issuerCertificates = [], issuerCrls = []\<rparr>) (one_file (replicate 5000 1)) (nodeid_numeric 0 12642) False 0) (0, []) =
      (Some (Inr \<lparr>specifiedLists = 5000, trustedCertificates = [], trustedCrls = [], issuerCertificates = [], issuerCrls = []\<rparr>), s', calls)
    \<and> length calls = 5"
  using trust_list_read [OF one_file_serves TrueI, of "replicate 5000 1" 3 "\<lambda>b. Some \<lparr>specifiedLists = word_of_nat (length b),
    trustedCertificates = [], trustedCrls = [], issuerCertificates = [], issuerCrls = []\<rparr>" "nodeid_numeric 0 12642" 0] by auto

text \<open>What a read of the file leaves behind, whatever the server answers.\<close>

lemma read_chunks_calls:
  "run_state (p12_read_chunks rounds api tl_id readId handle data) (s, tr) = (res, s', tr') \<Longrightarrow>
    \<exists>reads. tr' = tr @ reads \<and> (\<forall>e\<in>set reads. fst e = CallMethod tl_id readId [p12v_uint32 handle, p12v_int32 4096])"
proof (induction rounds arbitrary: data s tr)
  case (Suc rounds)
  let ?c = "CallMethod tl_id readId [p12v_uint32 handle, p12v_int32 4096]"
  obtain r s1 where r: "api s ?c = (r, s1)" by (cases "api s ?c")
  define chunk where "chunk = (case p12_out_bytestring (cr_outputs r) 0 of Some (Some b) \<Rightarrow> b | _ \<Rightarrow> [])"
  show ?case
  proof (cases "cr_status r \<noteq> GOOD \<or> length chunk < 4096")
    case True
    then have "tr' = tr @ [(?c, r)]" using Suc.prems r by (auto simp: chunk_def [symmetric] Let_def split: if_splits)
    then show ?thesis by simp
  next
    case False
    then have "run_state (p12_read_chunks rounds api tl_id readId handle (data @ chunk)) (s1, tr @ [(?c, r)]) = (res, s', tr')"
      using Suc.prems r by (simp add: chunk_def [symmetric])
    from Suc.IH [OF this] obtain reads where "tr' = (tr @ [(?c, r)]) @ reads" "\<forall>e\<in>set reads. fst e = ?c" by blast
    then show ?thesis by (intro exI [of _ "(?c, r) # reads"]) simp
  qed
qed simp

text \<open>What the translation asks for and what an answer gives, read off the protocol: one path of one
  element for each method of the file, three results that all have a target, an Open whose first
  output is a number.\<close>

definition method_path :: "nodeid \<Rightarrow> string \<Rightarrow> browse_path" where
  "method_path ob name = \<lparr>bp_startingNode = ob, bp_elements =
     [\<lparr>pe_referenceTypeId = nodeid_numeric 0 33, pe_isInverse = False, pe_includeSubtypes = True,
       pe_targetName = \<lparr>qn_namespaceIndex = 0, qn_name = Some name\<rparr>\<rparr>]\<rparr>"

definition file_methods_found :: "client_ret \<Rightarrow> nodeid \<Rightarrow> nodeid \<Rightarrow> nodeid \<Rightarrow> bool" where
  "file_methods_found r openId readId closeId \<longleftrightarrow> cr_status r = GOOD \<and>
    map bpr_statusCode (cr_pathResults r) = [GOOD, GOOD, GOOD] \<and>
    map (\<lambda>p. take 1 (bpr_targets p)) (cr_pathResults r) = [[openId], [readId], [closeId]]"

definition gave_handle :: "client_ret \<Rightarrow> u32 \<Rightarrow> bool" where
  "gave_handle r handle \<longleftrightarrow> cr_status r = GOOD \<and> take 1 (cr_outputs r) = [Scalar (VUInt32 handle)]"

lemma gave_handle_iff: "gave_handle r handle \<longleftrightarrow> open_handle (cr_status r, cr_outputs r) = Inr handle"
  by (cases "cr_outputs r") (auto simp: gave_handle_def open_handle_def split: variant.split ua_val.split)

lemma file_methods_found_iff:
  "(if cr_status r \<noteq> GOOD then Inl (cr_status r)
    else if length (cr_pathResults r) \<noteq> 3 then Inl BADUNEXPECTEDERROR else first_targets (cr_pathResults r)) = Inr [a, b, c]
   \<longleftrightarrow> file_methods_found r a b c"
proof -
  have three: "length xs = 3 \<longleftrightarrow> (\<exists>p q w. xs = [p, q, w])" for xs :: "browse_path_result list"
    by (auto simp: numeral_3_eq_3 length_Suc_conv)
  show ?thesis
  proof (cases "length (cr_pathResults r) = 3")
    case True
    then obtain p q w where "cr_pathResults r = [p, q, w]" using three by blast
    then show ?thesis
      by (auto simp: file_methods_found_def take_Suc split: list.splits if_splits)
  next
    case False
    then have "\<not> file_methods_found r a b c"
      by (metis (no_types, lifting) file_methods_found_def length_map list.size(3,4) numeral_3_eq_3 One_nat_def add.right_neutral add_Suc_right)
    with False show ?thesis by simp
  qed
qed

lemma trust_list_paths_asked:
  "trust_list_paths tl_id withMasks =
    [method_path tl_id (if withMasks then ''OpenWithMasks'' else ''Open''), method_path tl_id ''Read'', method_path tl_id ''Close'']"
  by (simp add: trust_list_paths_def method_path_def path_step_def)

lemma first_targets_length: "first_targets rs = Inr ts \<Longrightarrow> length ts = length rs"
  by (induction rs arbitrary: ts) (auto split: if_splits list.splits sum.splits)

lemma read_chunks_some:
  "run_state (p12_read_chunks rounds api tl_id readId handle data) (s, tr) = (Some r, s', tr') \<Longrightarrow> tr' \<noteq> tr"
proof (induction rounds arbitrary: data s tr)
  case (Suc rounds)
  let ?c = "CallMethod tl_id readId [p12v_uint32 handle, p12v_int32 4096]"
  obtain r1 s1 where "api s ?c = (r1, s1)" by (cases "api s ?c")
  then show ?case using Suc.prems
    by (auto simp: Let_def split: if_splits dest!: read_chunks_calls)
qed simp

text \<open>C22 Whatever a server answers, a file that was opened is closed. When the reading of the trust
  list ends, its first call was the translation of the paths to the methods Open (or OpenWithMasks), Read and
  Close of the list, and one of three things happened: the three methods were not all found, nothing more was called and
  the outcome is an error; they were found, Open was called and gave no handle, nothing more was
  called and the outcome is an error; or Open gave a handle, and the calls after it are one or more
  calls of Read with that handle and, as the last, one call of Close with it, Read and Close being the nodes the
  translation gave for those names.\<close>

theorem trust_list_closed:
  assumes "run_state (p12_read_trust_list rounds decodeTL api tl_id withMasks masks) (s, []) = (Some res, s', calls)"
  shows "\<exists>found. let asked = (TranslateBrowsePaths [method_path tl_id (if withMasks then ''OpenWithMasks'' else ''Open''),
        method_path tl_id ''Read'', method_path tl_id ''Close''], found) in
    ((\<forall>openId readId closeId. \<not> file_methods_found found openId readId closeId) \<and> calls = [asked] \<and> (\<exists>sc. res = Inl sc)) \<or>
    (\<exists>openId readId closeId opened. file_methods_found found openId readId closeId \<and>
      (let opening = (CallMethod tl_id openId [if withMasks then Scalar (VUInt32 masks) else Scalar (VByte 1)], opened) in
       ((\<forall>handle. \<not> gave_handle opened handle) \<and> calls = [asked, opening] \<and> (\<exists>sc. res = Inl sc)) \<or>
       (\<exists>handle reads closed. gave_handle opened handle \<and> reads \<noteq> [] \<and>
          (\<forall>e\<in>set reads. fst e = CallMethod tl_id readId [Scalar (VUInt32 handle), Scalar (VInt32 4096)]) \<and>
          calls = asked # opening # reads @ [(CallMethod tl_id closeId [Scalar (VUInt32 handle)], closed)])))"
proof -
  let ?t = "TranslateBrowsePaths [method_path tl_id (if withMasks then ''OpenWithMasks'' else ''Open''), method_path tl_id ''Read'', method_path tl_id ''Close'']"
  obtain r0 s0 where 0: "api s ?t = (r0, s0)" by (cases "api s ?t")
  define ids where "ids = (if cr_status r0 \<noteq> GOOD then Inl (cr_status r0)
    else if length (cr_pathResults r0) \<noteq> 3 then Inl BADUNEXPECTEDERROR else first_targets (cr_pathResults r0))"
  have found: "ids = Inr [a, b, c] \<longleftrightarrow> file_methods_found r0 a b c" for a b c
    unfolding ids_def by (rule file_methods_found_iff)
  have tr: "run_state (p12_translate api tl_id [[if withMasks then ''OpenWithMasks'' else ''Open''], [''Read''], [''Close'']]) (s, []) = (ids, s0, [(?t, r0)])"
    using 0 trust_list_paths_asked [of tl_id withMasks] by (simp add: ids_def trust_list_paths_def)
  note run = tr p12_read_trust_list_def
  note vals = p12v_uint32_def [symmetric] p12v_byte_def [symmetric] p12v_int32_def [symmetric]
  show ?thesis
  proof (cases "\<exists>a b c. ids = Inr [a, b, c]")
    case False
    then have "calls = [(?t, r0)] \<and> (\<exists>sc. res = Inl sc)"
      using assms 0 by (auto simp: run split: sum.splits list.splits simp del: run_translate)
    then show ?thesis using False found by (intro exI [of _ r0]) (simp add: Let_def)
  next
    case True
    then obtain a b c where ids: "ids = Inr [a, b, c]" by blast
    let ?o = "CallMethod tl_id a [if withMasks then p12v_uint32 masks else p12v_byte 1]"
    obtain r1 s1 where 1: "api s0 ?o = (r1, s1)" by (cases "api s0 ?o")
    show ?thesis
    proof (cases "open_handle (cr_status r1, cr_outputs r1)")
      case (Inl sc)
      then have "calls = [(?t, r0), (?o, r1)] \<and> (\<exists>sc. res = Inl sc)"
        using assms 0 ids 1 by (auto simp: run simp del: run_translate)
      then show ?thesis using ids Inl unfolding found Let_def gave_handle_iff vals
        by (intro exI [of _ r0] disjI2 exI [of _ a] exI [of _ b] exI [of _ c] exI [of _ r1]) simp
    next
      case (Inr handle)
      obtain rd s2 tr2 where 2: "run_state (p12_read_chunks rounds api tl_id b handle []) (s1, [(?t, r0), (?o, r1)]) = (rd, s2, tr2)"
        by (metis prod.exhaust)
      from read_chunks_calls [OF 2] obtain reads where reads: "tr2 = [(?t, r0), (?o, r1)] @ reads"
        "\<forall>e\<in>set reads. fst e = CallMethod tl_id b [p12v_uint32 handle, p12v_int32 4096]" by blast
      have "rd \<noteq> None" using assms 0 ids 1 Inr 2
        by (cases rd) (auto simp: run simp del: run_translate)
      then obtain sc d where rd: "rd = Some (sc, d)" by auto
      have "reads \<noteq> []" using 2 rd reads(1) read_chunks_some [OF 2 [unfolded rd]] by auto
      obtain r3 s3 where 3: "api s2 (CallMethod tl_id c [p12v_uint32 handle]) = (r3, s3)" by (metis prod.exhaust)
      have "calls = tr2 @ [(CallMethod tl_id c [p12v_uint32 handle], r3)]"
        using assms 0 ids 1 Inr 2 rd 3 by (auto simp: run simp del: run_translate)
      then show ?thesis using Inr reads ids \<open>reads \<noteq> []\<close> unfolding found Let_def gave_handle_iff vals
        by (intro exI [of _ r0] disjI2 exI [of _ a] exI [of _ b] exI [of _ c] exI [of _ r1] conjI exI [of _ handle] exI [of _ reads] exI [of _ r3]) auto
    qed
  qed
qed

theorem trust_list_closed_witness:
  "\<exists>res s' found openId readId closeId opened handle reads closed.
    run_state (p12_read_trust_list 1 (\<lambda>_. None) (one_file [1]) (nodeid_numeric 0 12642) False 0) (0, []) = (Some res, s',
      (TranslateBrowsePaths [method_path (nodeid_numeric 0 12642) ''Open'', method_path (nodeid_numeric 0 12642) ''Read'',
         method_path (nodeid_numeric 0 12642) ''Close''], found) #
      (CallMethod (nodeid_numeric 0 12642) openId [Scalar (VByte 1)], opened) # reads @
      [(CallMethod (nodeid_numeric 0 12642) closeId [Scalar (VUInt32 handle)], closed)]) \<and>
    file_methods_found found openId readId closeId \<and> gave_handle opened handle"
proof -
  have "\<exists>res s' calls. run_state (p12_read_trust_list 1 (\<lambda>_. None) (one_file [1]) (nodeid_numeric 0 12642) False 0) (0, []) = (Some res, s', calls)
      \<and> \<not> length calls \<le> 2"
    by (simp add: p12_read_trust_list_def one_file_def client_ret_good_def nodeid_numeric_def open_handle_def p12_out_bytestring_def)
  then obtain res s' calls where r: "run_state (p12_read_trust_list 1 (\<lambda>_. None) (one_file [1]) (nodeid_numeric 0 12642) False 0) (0, []) = (Some res, s', calls)"
    and l: "\<not> length calls \<le> 2" by blast
  from trust_list_closed [OF r] l show ?thesis unfolding Let_def using r by (auto; blast)
qed

section \<open>Numbers on the command line\<close>

lemma p12_parse_uint_dec:
  "n < 2 ^ 64 \<Longrightarrow> p12_parse_uint (Some (dec n)) limit = (if word_of_nat n \<le> limit then Some (word_of_nat n) else None)"
  using strtoul_dec [of n "[]"] digits_dec [of n] by (auto simp: p12_parse_uint_def)

lemma p12_parse_uint_le: "p12_parse_uint s limit = Some v \<Longrightarrow> v \<le> limit"
  by (auto simp: p12_parse_uint_def split: option.splits prod.splits if_splits)

end
