(* ===== verification/Client_Connect.thy ===== *)
theory Client_Connect
  imports Part12
begin

text \<open>
  client.c: the global security flags, the check of the server's endpoints, waiting for a reverse
  connection, and the client a command works with. A function that fails prints a complete
  envelope and sets the exit code; here it yields both. C arrays that are read beyond what was
  written to them give the outcome Undefined. The build has encryption and the ECC policies
  enabled, as the image builds it.
\<close>

section \<open>Security flags\<close>

datatype outcome = Undefined | Exit int string

record ClientSecurity =
  gs_policyName :: cstr
  gs_modeName :: cstr
  gs_certFile :: cstr
  gs_keyFile :: cstr
  gs_trustFiles :: "string list" \<comment> \<open>the slots that were written\<close>
  gs_trustCount :: nat
  gs_username :: cstr
  gs_password :: cstr
  gs_channelLifetimeMs :: int
  gs_applicationUri :: cstr
  gs_reverseListenPort :: int
  gs_reverseTimeoutMs :: int
  gs_reverseServerUri :: cstr

definition g_sec :: ClientSecurity where
  "g_sec = \<lparr>gs_policyName = Some ''None'', gs_modeName = Some ''None'', gs_certFile = None, gs_keyFile = None, gs_trustFiles = [],
     gs_trustCount = 0, gs_username = None, gs_password = None, gs_channelLifetimeMs = 0, gs_applicationUri = None,
     gs_reverseListenPort = 0, gs_reverseTimeoutMs = 30000, gs_reverseServerUri = None\<rparr>"

definition flag_or :: "string list \<Rightarrow> string \<Rightarrow> cstr \<Rightarrow> cstr" where
  "flag_or argv flag old = (case find_arg argv flag of Some v \<Rightarrow> Some v | None \<Rightarrow> old)"

definition int_flag_or :: "string list \<Rightarrow> string \<Rightarrow> int \<Rightarrow> int" where
  "int_flag_or argv flag old = (case find_arg argv flag of Some v \<Rightarrow> atoi v | None \<Rightarrow> old)"

definition security_flags :: "string list \<Rightarrow> ClientSecurity" where
  "security_flags argv =
    (let tc = count_flag argv ''--trust-list'' in
     g_sec\<lparr>gs_policyName := flag_or argv ''--security-policy'' (gs_policyName g_sec),
           gs_modeName := flag_or argv ''--security-mode'' (gs_modeName g_sec),
           gs_certFile := flag_or argv ''--certificate'' (gs_certFile g_sec),
           gs_keyFile := flag_or argv ''--private-key'' (gs_keyFile g_sec),
           gs_username := flag_or argv ''--username'' (gs_username g_sec),
           gs_password := flag_or argv ''--password'' (gs_password g_sec),
           gs_channelLifetimeMs := int_flag_or argv ''--channel-lifetime-ms'' (gs_channelLifetimeMs g_sec),
           gs_applicationUri := flag_or argv ''--application-uri'' (gs_applicationUri g_sec),
           gs_reverseListenPort := int_flag_or argv ''--reverse-listen'' (gs_reverseListenPort g_sec),
           gs_reverseTimeoutMs := int_flag_or argv ''--reverse-timeout-ms'' (gs_reverseTimeoutMs g_sec),
           gs_reverseServerUri := flag_or argv ''--reverse-server-uri'' (gs_reverseServerUri g_sec),
           gs_trustFiles := collect_flag tc argv ''--trust-list'',
           gs_trustCount := tc\<rparr>)"

definition security_is_none :: "ClientSecurity \<Rightarrow> bool" where
  "security_is_none sec \<longleftrightarrow> security_mode_enum (gs_modeName sec) = MODE_None"

definition ecc_policy_ctor :: "cstr \<Rightarrow> bool" where
  "ecc_policy_ctor name = (case name of None \<Rightarrow> False
     | Some n \<Rightarrow> n \<in> set [''ECC_nistP256'', ''ECC_nistP384'', ''ECC_brainpoolP256r1'', ''ECC_brainpoolP384r1'', ''ECC_curve25519'',
         ''ECC_curve448'', ''ECC_nistP256_AesGcm'', ''ECC_nistP256_ChaChaPoly''])"

definition policy_array_add_ecc :: "'s client \<Rightarrow> policy_array \<Rightarrow> cstr \<Rightarrow> ua_bytes \<Rightarrow> ua_bytes \<Rightarrow> ('s client_world, u32) state" where
  "policy_array_add_ecc api arr name cert key =
    (if \<not> ecc_policy_ctor name then State_Monad.return GOOD
     else do {
       has \<leftarrow> perform api (PolicyArrayHas arr (security_policy_uri name));
       if cr_found has then State_Monad.return GOOD
       else do {
         r \<leftarrow> perform api (EccPolicyConstruct arr (case name of Some n \<Rightarrow> n | None \<Rightarrow> []) cert key);
         State_Monad.return (cr_status r)
       }
     })"

definition client_load_cert_file :: "file_system \<Rightarrow> cstr \<Rightarrow> ua_bytes" where
  "client_load_cert_file fs path = (case path of None \<Rightarrow> None | Some [] \<Rightarrow> None
     | Some p \<Rightarrow> (case fs p of Inl strerror \<Rightarrow> None
        | Inr bytes \<Rightarrow> if length bytes = 0 then None else Some (map byte_of_char bytes)))"

text \<open>The subject alternative names of a certificate file, as OpenSSL lists them: whether a name is a
  URI, and its data; None when the file is no certificate.\<close>

type_synonym san_names = "string \<Rightarrow> (bool \<times> string) list option"

definition certificate_san_uri :: "file_system \<Rightarrow> san_names \<Rightarrow> cstr \<Rightarrow> cstr" where
  "certificate_san_uri fs names path = (case path of None \<Rightarrow> None | Some [] \<Rightarrow> None
     | Some p \<Rightarrow> (case fs p of Inl strerror \<Rightarrow> None
        | Inr bytes \<Rightarrow> (case names bytes of None \<Rightarrow> None
           | Some ns \<Rightarrow> map_option snd (find (\<lambda>(uri, data). uri \<and> data \<noteq> []) ns))))"

section \<open>Endpoints\<close>

definition endpoint_matches :: "ClientSecurity \<Rightarrow> endpoint_description \<Rightarrow> bool" where
  "endpoint_matches sec ep \<longleftrightarrow> ep_securityMode ep = security_mode_enum (gs_modeName sec) \<and>
     ep_securityPolicyUri ep = Some (security_policy_uri (gs_policyName sec))"

definition endpoint_check_security :: "'s client \<Rightarrow> ClientSecurity \<Rightarrow> string \<Rightarrow> ('s client_world, bool \<times> u32) state" where
  "endpoint_check_security api sec url = do {
     r1 \<leftarrow> perform api (GetEndpoints url);
     r \<leftarrow> (if cr_status r1 = BADSECURECHANNELCLOSED \<or> cr_status r1 = BADSECURECHANNELIDINVALID
          then perform api (GetEndpoints url) else State_Monad.return r1);
     State_Monad.return (cr_status r = GOOD \<and> list_ex (endpoint_matches sec) (cr_endpoints r), cr_status r)
   }"

section \<open>Reverse connections\<close>

text \<open>The loops run until the clock passes the deadline; a result None means that the bound on the
  rounds was reached.\<close>

fun close_wait :: "nat \<Rightarrow> 's client \<Rightarrow> int \<Rightarrow> channel_state \<Rightarrow> ('s client_world, channel_state option) state" where
  "close_wait 0 api deadline ch = State_Monad.return None"
| "close_wait (Suc rounds) api deadline ch =
    (if ch = CH_Closed then State_Monad.return (Some ch)
     else do {
       t \<leftarrow> perform api MonoMs;
       if \<not> cr_ms t < deadline then State_Monad.return (Some ch)
       else do {
         _ \<leftarrow> perform api (RunIterate 20);
         g \<leftarrow> perform api GetState;
         close_wait rounds api deadline (cr_channel g)
       }
     })"

text \<open>The listening loop: the status to return, or that the connection has to be awaited again.\<close>

datatype listen_result = Again | Return u32

fun listen_wait :: "nat \<Rightarrow> 's client \<Rightarrow> bool \<Rightarrow> int \<Rightarrow> bool \<Rightarrow> ('s client_world, listen_result option) state" where
  "listen_wait 0 api want_session deadline listening = State_Monad.return None"
| "listen_wait (Suc rounds) api want_session deadline listening = do {
     t \<leftarrow> perform api MonoMs;
     if \<not> cr_ms t < deadline then State_Monad.return (Some Again)
     else do {
       _ \<leftarrow> perform api (RunIterate 20);
       g \<leftarrow> perform api GetState;
       let listening = (listening \<or> cr_channel g = CH_ReverseListening) in
       if want_session \<and> cr_sessionActivated g then State_Monad.return (Some (Return GOOD))
       else if \<not> want_session \<and> cr_channel g = CH_Open then State_Monad.return (Some (Return GOOD))
       else if cr_connectStatus g \<noteq> GOOD then
         State_Monad.return (Some (if cr_connectStatus g \<noteq> BADNOTCONNECTED \<and> cr_connectStatus g \<noteq> BADCONNECTIONCLOSED
           then Return (cr_connectStatus g) else Again))
       else if cr_channel g = CH_Closed \<and> listening then State_Monad.return (Some Again)
       else listen_wait rounds api want_session deadline listening
     }
   }"

fun reverse_rounds :: "nat \<Rightarrow> 's client \<Rightarrow> client_config \<Rightarrow> u16 \<Rightarrow> bool \<Rightarrow> int \<Rightarrow> ('s client_world, u32 option) state" where
  "reverse_rounds 0 api cfg lport want_session deadline = State_Monad.return None"
| "reverse_rounds (Suc rounds) api cfg lport want_session deadline = do {
     t \<leftarrow> perform api MonoMs;
     if \<not> cr_ms t < deadline then State_Monad.return (Some BADTIMEOUT)
     else do {
       g \<leftarrow> perform api GetState;
       ch \<leftarrow> close_wait rounds api deadline (cr_channel g);
       case ch of
         None \<Rightarrow> State_Monad.return None
       | Some c \<Rightarrow>
           if c \<noteq> CH_Closed then State_Monad.return (Some BADTIMEOUT)
           else do {
             r \<leftarrow> perform api (StartListeningForReverseConnect cfg lport (\<not> want_session));
             if cr_status r \<noteq> GOOD then
               (if cr_status r \<noteq> BADCONNECTIONCLOSED then State_Monad.return (Some (cr_status r))
                else do {
                  _ \<leftarrow> perform api (RunIterate 100);
                  reverse_rounds rounds api cfg lport want_session deadline
                })
             else do {
               l \<leftarrow> listen_wait rounds api want_session deadline False;
               case l of
                 None \<Rightarrow> State_Monad.return None
               | Some (Return sc) \<Rightarrow> State_Monad.return (Some sc)
               | Some Again \<Rightarrow> reverse_rounds rounds api cfg lport want_session deadline
             }
           }
     }
   }"

definition reverse_connect :: "nat \<Rightarrow> 's client \<Rightarrow> ClientSecurity \<Rightarrow> client_config \<Rightarrow> bool \<Rightarrow> ('s client_world, u32 option) state" where
  "reverse_connect rounds api sec cfg want_session = do {
     t \<leftarrow> perform api MonoMs;
     let timeout_ms = (if 0 < gs_reverseTimeoutMs sec then gs_reverseTimeoutMs sec else 30000) in
     reverse_rounds rounds api cfg (word_of_int (gs_reverseListenPort sec)) want_session (cr_ms t + timeout_ms)
   }"

abbreviation UA_NS0ID_SERVER_SERVERARRAY :: u32 where "UA_NS0ID_SERVER_SERVERARRAY \<equiv> 2254"

definition reverse_check_server_uri :: "'s client \<Rightarrow> ClientSecurity \<Rightarrow> ('s client_world, u32) state" where
  "reverse_check_server_uri api sec = do {
     r \<leftarrow> perform api (ReadValueAttribute (nodeid_numeric 0 UA_NS0ID_SERVER_SERVERARRAY));
     State_Monad.return
       (if cr_status r \<noteq> GOOD then cr_status r
        else case cr_value r of
          Array TString (VString u # _) _ \<Rightarrow> (if bytes_of_string u = bytes_of_string (gs_reverseServerUri sec) then GOOD else BADSERVERURIINVALID)
        | _ \<Rightarrow> BADSERVERURIINVALID)
   }"

section \<open>The client of a command\<close>

text \<open>The loop that loads the trust list reads \<open>trustCount\<close> slots.\<close>

definition load_trust_list :: "file_system \<Rightarrow> ClientSecurity \<Rightarrow> ua_bytes list option" where
  "load_trust_list fs sec =
    (if length (gs_trustFiles sec) < gs_trustCount sec then None
     else Some (map (\<lambda>p. client_load_cert_file fs (Some p)) (take (gs_trustCount sec) (gs_trustFiles sec))))"

definition configure_encryption ::
  "file_system \<Rightarrow> 's client \<Rightarrow> ClientSecurity \<Rightarrow> ua_bytes list \<Rightarrow> ('s client_world, u32 \<times> string) state" where
  "configure_encryption fs api sec trust = do {
     let cert = client_load_cert_file fs (gs_certFile sec);
     let key = client_load_cert_file fs (gs_keyFile sec);
     r \<leftarrow> perform api (ConfigSetDefaultEncryption cert key trust);
     if cr_status r = GOOD \<and> ecc_policy_ctor (gs_policyName sec) then do {
       d \<leftarrow> perform api (DecryptPrivateKey key);
       sc1 \<leftarrow> (if cr_status d = GOOD then policy_array_add_ecc api SecurityPolicies (gs_policyName sec) cert (cr_bytes d)
              else State_Monad.return (cr_status d));
       sc2 \<leftarrow> (if sc1 = GOOD then policy_array_add_ecc api AuthSecurityPolicies (gs_policyName sec) cert (cr_bytes d)
              else State_Monad.return sc1);
       State_Monad.return (sc2, ''the certificate / private key cannot be used with the requested ECC security policy (curve mismatch?)'')
     }
     else State_Monad.return (cr_status r, ''UA_ClientConfig_setDefaultEncryption failed'')
   }"

definition user_identity :: "ClientSecurity \<Rightarrow> (string \<times> string) option" where
  "user_identity sec = (case gs_username sec of None \<Rightarrow> None
     | Some u \<Rightarrow> Some (u, case gs_password sec of Some p \<Rightarrow> p | None \<Rightarrow> []))"

definition application_uri :: "file_system \<Rightarrow> san_names \<Rightarrow> ClientSecurity \<Rightarrow> cstr" where
  "application_uri fs names sec =
    (let uri = (case gs_applicationUri sec of Some u \<Rightarrow> Some u
                | None \<Rightarrow> if \<not> security_is_none sec then certificate_san_uri fs names (gs_certFile sec) else None)
     in case uri of Some (c # cs) \<Rightarrow> Some (c # cs) | _ \<Rightarrow> None)"

definition client_settings :: "file_system \<Rightarrow> san_names \<Rightarrow> ClientSecurity \<Rightarrow> int \<Rightarrow> client_config" where
  "client_settings fs names sec request_ms =
    \<lparr>cc_securityPolicyUri = (if security_is_none sec then security_policy_uri (Some ''None'') else security_policy_uri (gs_policyName sec)),
     cc_securityMode = security_mode_enum (gs_modeName sec),
     cc_allowNonePolicyPassword = (security_is_none sec \<and> gs_username sec \<noteq> None),
     cc_timeout = (if 0 < request_ms then Some (word_of_int request_ms) else None),
     cc_secureChannelLifeTime = (if 0 < gs_channelLifetimeMs sec then Some (word_of_int (gs_channelLifetimeMs sec)) else None),
     cc_applicationUri = application_uri fs names sec,
     cc_userName = user_identity sec\<rparr>"

definition make_client_unconnected ::
  "stack \<Rightarrow> file_system \<Rightarrow> san_names \<Rightarrow> 's client \<Rightarrow> ClientSecurity \<Rightarrow> string \<Rightarrow> int \<Rightarrow> string \<Rightarrow> ('s client_world, outcome + client_config) state" where
  "make_client_unconnected st fs names api sec url request_ms op =
    (if \<not> security_policy_known (gs_policyName sec) then
       State_Monad.return (Inl (Exit 2 (cli_emit_failure st op BADINVALIDARGUMENT ''input''
         (snprintf_buf 256 (''unknown --security-policy '' @ [CHR 0x27] @ bytes_of_string (gs_policyName sec) @ [CHR 0x27])))))
     else do {
       (found, ep_sc) \<leftarrow> (if gs_reverseListenPort sec \<le> 0 then endpoint_check_security api sec url
                          else State_Monad.return (True, GOOD));
       if \<not> found then
         State_Monad.return (Inl (Exit 3
           (if ep_sc \<noteq> GOOD then cli_emit_failure st op ep_sc ''transport'' ''GetEndpoints request failed''
            else cli_emit_failure st op BADSECURITYPOLICYREJECTED ''transport''
              (snprintf_buf 256 (''no '' @ (case gs_policyName sec of Some p \<Rightarrow> p | None \<Rightarrow> ''None'') @ ''/''
                 @ (case gs_modeName sec of Some m \<Rightarrow> m | None \<Rightarrow> ''None'') @ '' endpoint available'')))))
       else if security_is_none sec then do {
         _ \<leftarrow> perform api ConfigSetDefault;
         State_Monad.return (Inr (client_settings fs names sec request_ms))
       }
       else (case load_trust_list fs sec of
           None \<Rightarrow> State_Monad.return (Inl Undefined)
         | Some trust \<Rightarrow> do {
             (sc, policy_err) \<leftarrow> configure_encryption fs api sec trust;
             if sc \<noteq> GOOD then do {
               _ \<leftarrow> perform api ClientDelete;
               State_Monad.return (Inl (Exit 6 (cli_emit_failure st op sc ''internal'' policy_err)))
             }
             else State_Monad.return (Inr (client_settings fs names sec request_ms))
           })
     })"

definition connect_message :: "ClientSecurity \<Rightarrow> u32 \<Rightarrow> cstr \<Rightarrow> int \<times> string \<times> string" where
  "connect_message sec sc reverse_msg =
    (if sc = BADTIMEOUT then (7, ''timeout'', if 0 < gs_reverseListenPort sec then ''timed out waiting for the reverse connection'' else ''connection timed out'')
     else (3, ''transport'', case reverse_msg of Some m \<Rightarrow> m | None \<Rightarrow> ''failed to connect''))"

definition make_client ::
  "nat \<Rightarrow> stack \<Rightarrow> file_system \<Rightarrow> san_names \<Rightarrow> 's client \<Rightarrow> ClientSecurity \<Rightarrow> string \<Rightarrow> int \<Rightarrow> string
    \<Rightarrow> ('s client_world, (outcome + client_config) option) state" where
  "make_client rounds st fs names api sec url request_ms op = do {
     m \<leftarrow> make_client_unconnected st fs names api sec url request_ms op;
     case m of
       Inl out \<Rightarrow> State_Monad.return (Some (Inl out))
     | Inr cfg \<Rightarrow> do {
         connected \<leftarrow>
           (if 0 < gs_reverseListenPort sec then do {
              rc \<leftarrow> reverse_connect rounds api sec cfg True;
              case rc of
                None \<Rightarrow> State_Monad.return None
              | Some sc \<Rightarrow>
                  if sc = GOOD \<and> gs_reverseServerUri sec \<noteq> None then do {
                    sc' \<leftarrow> reverse_check_server_uri api sec;
                    if sc' \<noteq> GOOD then do {
                      _ \<leftarrow> perform api Disconnect;
                      State_Monad.return (Some (sc', Some ''the reverse-connected server does not have the expected --reverse-server-uri''))
                    }
                    else State_Monad.return (Some (sc', None))
                  }
                  else State_Monad.return (Some (sc, None))
            }
            else do {
              r \<leftarrow> perform api (Connect cfg url);
              State_Monad.return (Some (cr_status r, None))
            });
         case connected of
           None \<Rightarrow> State_Monad.return None
         | Some (sc, reverse_msg) \<Rightarrow>
             if sc \<noteq> GOOD then do {
               _ \<leftarrow> perform api ClientDelete;
               State_Monad.return (Some (Inl (case connect_message sec sc reverse_msg of
                 (ec, category, msg) \<Rightarrow> Exit ec (cli_emit_failure st op sc category msg))))
             }
             else State_Monad.return (Some (Inr cfg))
       }
   }"

definition cli_make_channel_client ::
  "stack \<Rightarrow> file_system \<Rightarrow> san_names \<Rightarrow> 's client \<Rightarrow> ClientSecurity \<Rightarrow> string \<Rightarrow> int \<Rightarrow> string \<Rightarrow> ('s client_world, outcome + client_config) state" where
  "cli_make_channel_client st fs names api sec url request_ms op = do {
     m \<leftarrow> make_client_unconnected st fs names api sec url request_ms op;
     case m of
       Inl out \<Rightarrow> State_Monad.return (Inl out)
     | Inr cfg \<Rightarrow> do {
         r \<leftarrow> perform api (ConnectSecureChannel cfg url);
         if cr_status r \<noteq> GOOD then do {
           _ \<leftarrow> perform api ClientDelete;
           let late = (cr_status r = BADTIMEOUT);
           State_Monad.return (Inl (Exit (if late then 7 else 3) (cli_emit_failure st op (cr_status r) (if late then ''timeout'' else ''transport'')
             (if late then ''connection timed out'' else ''failed to connect''))))
         }
         else State_Monad.return (Inr cfg)
       }
   }"

section \<open>Waiting for a reverse connection ends\<close>

text \<open>What is relied on of the clock: it does not run backwards, and only so many calls fit in before
  it reaches the deadline. \<open>left\<close> bounds the calls that still fit in.\<close>

definition clock :: "'s client \<Rightarrow> ('s \<Rightarrow> int) \<Rightarrow> int \<Rightarrow> ('s \<Rightarrow> nat) \<Rightarrow> bool" where
  "clock api ms deadline left \<longleftrightarrow>
    (\<forall>s. cr_ms (fst (api s MonoMs)) = ms s) \<and>
    (\<forall>s c. ms s < deadline \<longrightarrow> left (snd (api s c)) < left s) \<and>
    (\<forall>s c. \<not> ms s < deadline \<longrightarrow> left s = 0 \<and> left (snd (api s c)) = 0 \<and> \<not> ms (snd (api s c)) < deadline)"

lemma clock_le: "clock api ms deadline left \<Longrightarrow> left (snd (api s c)) \<le> left s"
  by (cases "ms s < deadline") (auto simp: clock_def intro: less_imp_le)

lemma clock_keeps: "clock api ms deadline left \<Longrightarrow> keeps (\<lambda>s. left s \<le> k) api"
  using clock_le by (fastforce simp: keeps_def intro: order_trans)

lemma clock_read:
  assumes "clock api ms deadline left" "run_state (perform api MonoMs) (s, tr) = (t, s', tr')" "cr_ms t < deadline"
  shows "left s' < left s"
proof -
  from assms(2) have a: "api s MonoMs = (t, s')" by (auto simp: perform_def split: prod.splits)
  moreover have "cr_ms (fst (api s MonoMs)) = ms s" using assms(1) by (simp add: clock_def)
  ultimately have "ms s < deadline" using assms(3) by simp
  then have "left (snd (api s MonoMs)) < left s" using assms(1) by (simp add: clock_def)
  with a show ?thesis by simp
qed

lemma runs_le:
  assumes "runs (\<lambda>s. left s \<le> left s0) m (\<lambda>_ _. True)" "run_state m (s0, tr) = (x, s', tr')"
  shows "left s' \<le> (left s0 :: nat)"
  using runsD [OF assms(1) order_refl assms(2)] by simp

lemma runs_any:
  assumes "keeps P api"
  shows "runs P (perform api c) (\<lambda>_ _. True)"
  by (rule runs_mono [OF runs_call [OF assms]]) simp

lemma runs_then:
  assumes "runs P m (\<lambda>_ _. True)" "\<And>x. runs P (f x) (\<lambda>_ _. True)"
  shows "runs P (State_Monad.bind m f) (\<lambda>_ _. True)"
  by (rule runs_bind [OF assms(1)]) (rule assms(2))

lemma runs_return_any: "runs P (State_Monad.return x) (\<lambda>_ _. True)"
  by (rule runs_return) simp

lemmas runs_steps = runs_then runs_any runs_return_any

lemma runs_close_wait: "keeps P api \<Longrightarrow> runs P (close_wait rounds api deadline ch) (\<lambda>_ _. True)"
  by (induction rounds arbitrary: ch) (simp_all add: runs_steps)

lemma runs_listen_wait: "keeps P api \<Longrightarrow> runs P (listen_wait rounds api want_session deadline listening) (\<lambda>_ _. True)"
  by (induction rounds arbitrary: listening) (auto intro!: runs_steps simp: Let_def)

lemma close_wait_returns:
  assumes "clock api ms deadline left"
  shows "left s < rounds \<Longrightarrow> \<exists>c. fst (run_state (close_wait rounds api deadline ch) (s, tr)) = Some c"
proof (induction rounds arbitrary: s tr ch)
  case (Suc rounds)
  obtain t s1 tr1 where t: "run_state (perform api MonoMs) (s, tr) = (t, s1, tr1)" by (metis prod.exhaust)
  obtain r s2 tr2 where r: "run_state (perform api (RunIterate 20)) (s1, tr1) = (r, s2, tr2)" by (metis prod.exhaust)
  obtain g s3 tr3 where g: "run_state (perform api GetState) (s2, tr2) = (g, s3, tr3)" by (metis prod.exhaust)
  show ?case
  proof (cases "ch = CH_Closed \<or> \<not> cr_ms t < deadline")
    case False
    then have "left s1 < left s" using clock_read [OF assms t] by simp
    moreover have "left s2 \<le> left s1" by (rule runs_le [OF runs_any [OF clock_keeps [OF assms]] r])
    moreover have "left s3 \<le> left s2" by (rule runs_le [OF runs_any [OF clock_keeps [OF assms]] g])
    ultimately have "left s3 < rounds" using Suc.prems by simp
    from Suc.IH [OF this] t r g False show ?thesis by simp
  qed (use t in auto)
qed simp

lemma listen_wait_returns:
  assumes "clock api ms deadline left"
  shows "left s < rounds \<Longrightarrow> \<exists>l. fst (run_state (listen_wait rounds api want_session deadline listening) (s, tr)) = Some l"
proof (induction rounds arbitrary: s tr listening)
  case (Suc rounds)
  obtain t s1 tr1 where t: "run_state (perform api MonoMs) (s, tr) = (t, s1, tr1)" by (metis prod.exhaust)
  obtain r s2 tr2 where r: "run_state (perform api (RunIterate 20)) (s1, tr1) = (r, s2, tr2)" by (metis prod.exhaust)
  obtain g s3 tr3 where g: "run_state (perform api GetState) (s2, tr2) = (g, s3, tr3)" by (metis prod.exhaust)
  show ?case
  proof (cases "cr_ms t < deadline")
    case True
    then have "left s1 < left s" using clock_read [OF assms t] by simp
    moreover have "left s2 \<le> left s1" by (rule runs_le [OF runs_any [OF clock_keeps [OF assms]] r])
    moreover have "left s3 \<le> left s2" by (rule runs_le [OF runs_any [OF clock_keeps [OF assms]] g])
    ultimately have "left s3 < rounds" using Suc.prems by simp
    from Suc.IH [OF this, of "listening \<or> cr_channel g = CH_ReverseListening" tr3] t r g True show ?thesis
      by (cases want_session) (auto simp: Let_def)
  qed (use t in auto)
qed simp

lemma reverse_rounds_returns:
  assumes "clock api ms deadline left"
  shows "left s < rounds \<Longrightarrow> \<exists>sc. fst (run_state (reverse_rounds rounds api cfg lport want_session deadline) (s, tr)) = Some sc"
proof (induction rounds arbitrary: s tr)
  case (Suc rounds)
  note k = clock_keeps [OF assms]
  obtain t s1 tr1 where t: "run_state (perform api MonoMs) (s, tr) = (t, s1, tr1)" by (metis prod.exhaust)
  show ?case
  proof (cases "cr_ms t < deadline")
    case True
    then have l1: "left s1 < rounds" using clock_read [OF assms t] Suc.prems by simp
    obtain g s2 tr2 where g: "run_state (perform api GetState) (s1, tr1) = (g, s2, tr2)" by (metis prod.exhaust)
    have l2: "left s2 < rounds" using runs_le [OF runs_any [OF k] g] l1 by simp
    obtain co s3 tr3 where co: "run_state (close_wait rounds api deadline (cr_channel g)) (s2, tr2) = (co, s3, tr3)" by (metis prod.exhaust)
    have l3: "left s3 < rounds" using runs_le [OF runs_close_wait [OF k] co] l2 by simp
    from close_wait_returns [OF assms l2, of "cr_channel g" tr2] co obtain c where c: "co = Some c" by auto
    obtain r s4 tr4 where r: "run_state (perform api (StartListeningForReverseConnect cfg lport (\<not> want_session))) (s3, tr3) = (r, s4, tr4)" by (metis prod.exhaust)
    have l4: "left s4 < rounds" using runs_le [OF runs_any [OF k] r] l3 by simp
    obtain i s5 tr5 where i: "run_state (perform api (RunIterate 100)) (s4, tr4) = (i, s5, tr5)" by (metis prod.exhaust)
    have l5: "left s5 < rounds" using runs_le [OF runs_any [OF k] i] l4 by simp
    obtain lw s6 tr6 where lw: "run_state (listen_wait rounds api want_session deadline False) (s4, tr4) = (lw, s6, tr6)" by (metis prod.exhaust)
    have l6: "left s6 < rounds" using runs_le [OF runs_listen_wait [OF k] lw] l4 by simp
    from listen_wait_returns [OF assms l4, of want_session False tr4] lw obtain l where l: "lw = Some l" by auto
    show ?thesis using True t g co c r i lw l Suc.IH [OF l5, of tr5] Suc.IH [OF l6, of tr6] by (cases l) auto
  qed (use t in auto)
qed simp

text \<open>C14 Waiting for a reverse connection ends, whatever the server and the channel do: the deadline is
  set from the clock when the wait starts, every round of the three nested loops reads the
  clock, and with more rounds than calls fit in before the deadline a status is returned.\<close>

theorem reverse_connect_returns:
  assumes "run_state (perform api MonoMs) (s, tr) = (t, s1, tr1)"
    and "clock api ms (cr_ms t + (if 0 < gs_reverseTimeoutMs sec then gs_reverseTimeoutMs sec else 30000)) left" and "left s1 < rounds"
  shows "\<exists>sc. fst (run_state (reverse_connect rounds api sec cfg want_session) (s, tr)) = Some sc"
  using reverse_rounds_returns [OF assms(2,3), of cfg "word_of_int (gs_reverseListenPort sec)" want_session tr1] assms(1)
  by (simp add: reverse_connect_def Let_def)

text \<open>A silent network: nobody connects, and every call takes ten milliseconds.\<close>

definition silent_network :: "int client" where
  "silent_network now c = (client_ret_good\<lparr>cr_ms := now, cr_channel := (if c = GetState then CH_ReverseListening else CH_Closed)\<rparr>, now + 10)"

theorem reverse_connect_returns_witness:
  "\<exists>sc. fst (run_state (reverse_connect 101 silent_network (g_sec\<lparr>gs_reverseTimeoutMs := 1000, gs_reverseListenPort := 4841\<rparr>)
      (client_settings (\<lambda>_. Inl []) (\<lambda>_. None) g_sec 5000) True) (0, [])) = Some sc"
proof (rule reverse_connect_returns [where left = "\<lambda>now. if now < 1000 then nat (1000 - now) div 10 + 1 else 0" and ms = "\<lambda>now. now"])
  show "run_state (perform silent_network MonoMs) (0, []) = (fst (silent_network 0 MonoMs), 10, [(MonoMs, fst (silent_network 0 MonoMs))])"
    by (simp add: perform_def silent_network_def)
  show "clock silent_network (\<lambda>now. now) (cr_ms (fst (silent_network 0 MonoMs)) + (if 0 < gs_reverseTimeoutMs (g_sec\<lparr>gs_reverseTimeoutMs := 1000, gs_reverseListenPort := 4841\<rparr>)
      then gs_reverseTimeoutMs (g_sec\<lparr>gs_reverseTimeoutMs := 1000, gs_reverseListenPort := 4841\<rparr>) else 30000)) (\<lambda>now. if now < 1000 then nat (1000 - now) div 10 + 1 else 0)"
    by (auto simp: clock_def silent_network_def)
qed simp

section \<open>Connecting with the security that was asked for\<close>

definition document :: "string \<Rightarrow> bool" where
  "document text \<longleftrightarrow> (\<exists>d. text = d @ [CHR 0x0A] \<and> json_value d)"

lemma document_failure: "names_ok st \<Longrightarrow> document (cli_emit_failure st op sc category message)"
  using emit_failure_json by (simp add: document_def)

fun is_connect :: "client_call \<Rightarrow> bool" where
  "is_connect (Connect _ _) = True"
| "is_connect _ = False"

definition advertised :: "ClientSecurity \<Rightarrow> string \<Rightarrow> (client_call \<times> client_ret) list \<Rightarrow> bool" where
  "advertised sec url calls \<longleftrightarrow> (\<exists>r. (GetEndpoints url, r) \<in> set calls \<and> cr_status r = GOOD \<and> list_ex (endpoint_matches sec) (cr_endpoints r))"

lemma advertised_simps [simp]: "advertised sec url []  = False"
    "advertised sec url ((c, r) # b) = (c = GetEndpoints url \<and> cr_status r = GOOD \<and> list_ex (endpoint_matches sec) (cr_endpoints r) \<or> advertised sec url b)"
    "advertised sec url (a @ b) = (advertised sec url a \<or> advertised sec url b)"
  by (auto simp: advertised_def)

lemma runs_endpoint_check:
  "runs anything (endpoint_check_security api sec url) (\<lambda>p new. made is_connect new = [] \<and> (fst p \<longrightarrow> advertised sec url new))"
  by (auto simp: endpoint_check_security_def intro!: runs_calculus)

lemma runs_configure_encryption: "runs anything (configure_encryption fs api sec trust) (\<lambda>_ new. made is_connect new = [])"
  by (auto simp: configure_encryption_def policy_array_add_ecc_def Let_def intro!: runs_calculus)

definition unconnected_spec ::
  "stack \<Rightarrow> file_system \<Rightarrow> san_names \<Rightarrow> ClientSecurity \<Rightarrow> string \<Rightarrow> int \<Rightarrow> outcome + client_config \<Rightarrow> (client_call \<times> client_ret) list \<Rightarrow> bool" where
  "unconnected_spec st fs names sec url request_ms res new \<longleftrightarrow> made is_connect new = [] \<and>
    (case res of
       Inl Undefined \<Rightarrow> length (gs_trustFiles sec) < gs_trustCount sec
     | Inl (Exit ec text) \<Rightarrow> ec \<in> {2, 3, 6} \<and> (names_ok st \<longrightarrow> document text)
     | Inr cfg \<Rightarrow> cfg = client_settings fs names sec request_ms \<and> security_policy_known (gs_policyName sec)
         \<and> (gs_reverseListenPort sec \<le> 0 \<longrightarrow> advertised sec url new))"

lemma runs_unconnected:
  "runs anything (make_client_unconnected st fs names api sec url request_ms op) (unconnected_spec st fs names sec url request_ms)"
  unfolding make_client_unconnected_def
  by (auto simp: unconnected_spec_def document_failure load_trust_list_def split: if_splits
      intro!: runs_bindI runs_performI runs_return runs_mono [OF runs_endpoint_check] runs_mono [OF runs_configure_encryption])

definition dial_spec ::
  "stack \<Rightarrow> file_system \<Rightarrow> san_names \<Rightarrow> ClientSecurity \<Rightarrow> string \<Rightarrow> int \<Rightarrow> (outcome + client_config) option \<Rightarrow> (client_call \<times> client_ret) list \<Rightarrow> bool" where
  "dial_spec st fs names sec url request_ms res calls \<longleftrightarrow>
    (case res of
       None \<Rightarrow> False
     | Some (Inl Undefined) \<Rightarrow> length (gs_trustFiles sec) < gs_trustCount sec
     | Some (Inl (Exit ec text)) \<Rightarrow> ec \<in> {2, 3, 6, 7} \<and> (names_ok st \<longrightarrow> document text)
     | Some (Inr cfg) \<Rightarrow> made is_connect calls = [Connect cfg url]) \<and>
    (\<forall>c\<in>set (made is_connect calls). c = Connect (client_settings fs names sec request_ms) url \<and>
       security_policy_known (gs_policyName sec) \<and> advertised sec url calls)"

lemma runs_dial:
  assumes "gs_reverseListenPort sec \<le> 0"
  shows "runs anything (make_client rounds st fs names api sec url request_ms op) (dial_spec st fs names sec url request_ms)"
  unfolding make_client_def using assms
  by (auto simp: dial_spec_def unconnected_spec_def document_failure connect_message_def split: sum.splits outcome.splits
      intro!: runs_bindI runs_performI runs_return runs_mono [OF runs_unconnected])


text \<open>A server that offers one secured endpoint and accepts every connection.\<close>

definition secure_server :: "unit client" where
  "secure_server s c = (client_ret_good\<lparr>cr_endpoints :=
     [\<lparr>ep_securityMode = MODE_Sign, ep_securityPolicyUri = Some (security_policy_uri (Some ''Basic256Sha256'')), ep_endpointUrl = None\<rparr>]\<rparr>, ())"


text \<open>A client that listens for a reverse connection makes no endpoint check, and an unknown name of
  a security mode counts as None: it then waits without any security although a policy was
  requested.\<close>

lemma reverse_falls_back_to_None:
  assumes "gs_policyName sec = Some ''Basic256Sha256''" and "gs_modeName sec = Some ''SignAndEncrpt''" and "0 < gs_reverseListenPort sec"
  shows "\<exists>cfg. fst (run_state (make_client_unconnected st fs names api sec url request_ms op) (s, tr)) = Inr cfg
    \<and> cc_securityMode cfg = MODE_None \<and> cc_securityPolicyUri cfg = POLICY_PREFIX @ ''None''"
proof -
  have "security_policy_known (gs_policyName sec)" by (simp add: assms(1) security_policy_known_iff policy_names_def)
  moreover have "security_is_none sec" by (simp add: security_is_none_def security_mode_enum_def assms(2))
  ultimately show ?thesis using assms(3)
    by (simp add: make_client_unconnected_def perform_def client_settings_def security_mode_enum_def assms(2)
        security_policy_uri_known policy_names_def split: prod.split)
qed

end
