(* ===== verification/Client_Commands.thy ===== *)
theory Client_Commands
  imports Client_Connect
begin

text \<open>
  client.c: the commands read, write, browse and call. A command parses its flags, checks the NodeId
  texts, connects, makes one service call (browse follows the continuation points), prints one
  envelope, closes the connection and returns an exit code. The result None means that the
  bound on the rounds of a loop was reached. The environment of a command is what it is given
  from outside: the stack's tables, the JSON library, the files and the security flags.
\<close>

record client_env =
  ce_rounds :: nat
  ce_stack :: stack
  ce_cjson :: cjson_lib
  ce_files :: file_system
  ce_names :: san_names
  ce_sec :: ClientSecurity

abbreviation MAX_NODES :: nat where "MAX_NODES \<equiv> 128"
abbreviation INT_MAX :: int where "INT_MAX \<equiv> 2147483647"

section \<open>Shared steps\<close>

text \<open>\<open>parse_int_flag(...) * 1000\<close>; None when the product does not fit in an int.\<close>

definition request_ms :: "string list \<Rightarrow> int option" where
  "request_ms argv = (let r = parse_int_flag argv ''--request-timeout'' 5 * 1000 in if r \<le> INT_MAX then Some r else None)"

definition give_up :: "client_env \<Rightarrow> string \<Rightarrow> u32 \<Rightarrow> string \<Rightarrow> outcome" where
  "give_up env op sc msg = Exit 2 (cli_emit_failure (ce_stack env) op sc ''input'' msg)"

definition quoted :: "string \<Rightarrow> string" where
  "quoted s = [CHR 0x27] @ s @ [CHR 0x27]"

definition malformed :: "client_env \<Rightarrow> string \<Rightarrow> string \<Rightarrow> outcome" where
  "malformed env op s = give_up env op BADINVALIDARGUMENT (snprintf_buf 512 (''malformed NodeId: '' @ quoted s))"

definition connect_command :: "client_env \<Rightarrow> 's client \<Rightarrow> string \<Rightarrow> int \<Rightarrow> string \<Rightarrow> ('s client_world, (outcome + client_config) option) state" where
  "connect_command env api url ms op = make_client (ce_rounds env) (ce_stack env) (ce_files env) (ce_names env) api (ce_sec env) url ms op"

definition close_client :: "'s client \<Rightarrow> ('s client_world, unit) state" where
  "close_client api = do { _ \<leftarrow> perform api Disconnect; _ \<leftarrow> perform api ClientDelete; State_Monad.return () }"

definition unknown_uri :: "string \<Rightarrow> string" where
  "unknown_uri s = snprintf_buf 512 (case strchr CHR '';'' (drop 4 s) of
     Some (uri, _) \<Rightarrow> ''unknown namespace URI: '' @ quoted uri
   | None \<Rightarrow> ''unknown namespace URI in '' @ quoted s)"

definition unresolved :: "string \<Rightarrow> string" where
  "unresolved s = snprintf_buf 512 (''failed to resolve NodeId: '' @ quoted s)"

section \<open>NodeId arguments\<close>

definition resolve_one :: "'s client \<Rightarrow> string \<Rightarrow> ('s client_world, int + nodeid) state" where
  "resolve_one api s = (if starts_with ''nsu='' s then resolve_nsu api (Some s) else State_Monad.return (Inr (parse_nodeid_local (Some s))))"

fun resolve_all :: "'s client \<Rightarrow> string list \<Rightarrow> ('s client_world, (string \<times> int) + nodeid list) state" where
  "resolve_all api [] = State_Monad.return (Inr [])"
| "resolve_all api (s # rest) = do {
     r \<leftarrow> resolve_one api s;
     case r of
       Inl e \<Rightarrow> State_Monad.return (Inl (s, e))
     | Inr n \<Rightarrow> do {
         q \<leftarrow> resolve_all api rest;
         State_Monad.return (map_sum id ((#) n) q)
       }
   }"

definition resolve_node_ids ::
  "client_env \<Rightarrow> 's client \<Rightarrow> string list \<Rightarrow> string \<Rightarrow> string \<Rightarrow> int \<Rightarrow> ('s client_world, (outcome + nodeid list) option) state" where
  "resolve_node_ids env api node_args op url ms =
    (case find (\<lambda>s. \<not> validate_nodeid_structure (Some s)) node_args of
       Some s \<Rightarrow> State_Monad.return (Some (Inl (malformed env op s)))
     | None \<Rightarrow> do {
         m \<leftarrow> connect_command env api url ms op;
         case m of
           None \<Rightarrow> State_Monad.return None
         | Some (Inl out) \<Rightarrow> State_Monad.return (Some (Inl out))
         | Some (Inr cfg) \<Rightarrow> do {
             r \<leftarrow> resolve_all api node_args;
             case r of
               Inr ids \<Rightarrow> State_Monad.return (Some (Inr ids))
             | Inl (s, e) \<Rightarrow> do {
                 _ \<leftarrow> close_client api;
                 State_Monad.return (Some (Inl
                   (if e = -1 then give_up env op BADNAMESPACEURIINVALID (unknown_uri s)
                    else give_up env op BADINVALIDARGUMENT (unresolved s))))
               }
           }
       })"

section \<open>Read and write\<close>

text \<open>Whether the service and every item are good, and the status that is reported.\<close>

definition all_good :: "stack \<Rightarrow> u32 \<Rightarrow> u32 list \<Rightarrow> bool" where
  "all_good st svc codes \<longleftrightarrow> StatusCode_isGood st svc \<and> list_all (StatusCode_isGood st) codes"

definition emit_sc :: "stack \<Rightarrow> u32 \<Rightarrow> u32 list \<Rightarrow> u32" where
  "emit_sc st svc codes =
    (if StatusCode_isGood st svc then (case find (\<lambda>c. \<not> StatusCode_isGood st c) codes of Some c \<Rightarrow> c | None \<Rightarrow> svc) else svc)"

definition service_exit :: "u32 \<Rightarrow> bool \<Rightarrow> int" where
  "service_exit svc good = (if svc = BADTIMEOUT then 7 else if \<not> good then 4 else 0)"

definition result_envelope :: "stack \<Rightarrow> string \<Rightarrow> bool \<Rightarrow> u32 \<Rightarrow> string list \<Rightarrow> string" where
  "result_envelope st op good sc items =
    output_begin (Some ''open62541'') (Some op) @ output_success good @ output_service_result st sc
    @ output_open_results @ join_comma items @ output_close_results @ output_null_error @ output_end"

definition dv_code :: "datavalue \<Rightarrow> u32" where
  "dv_code dv = (case dv_status dv of Some c \<Rightarrow> c | None \<Rightarrow> GOOD)"

definition dv_type :: "datavalue \<Rightarrow> ua_type option" where
  "dv_type dv = (if dv_hasValue dv then variant_type (dv_value dv) else None)"

definition read_item :: "stack \<Rightarrow> string \<Rightarrow> datavalue \<Rightarrow> string" where
  "read_item st node dv = output_read_result_item st (Some node) (dv_code dv)
     (Some (if dv_type dv = None then ''Unknown'' else type_name st (dv_type dv)))
     (if dv_type dv = None then 0 else int (ua_type_to_builtin_id (dv_type dv)))
     (if dv_hasValue dv then Some (dv_value dv) else None)
     (case dv_sourceTimestamp dv of Some t \<Rightarrow> t | None \<Rightarrow> 0)"

definition timestamps_flag :: "cstr \<Rightarrow> timestamps_to_return" where
  "timestamps_flag s = (if s = Some ''Server'' then TS_Server else if s = Some ''Both'' then TS_Both
     else if s = Some ''Neither'' then TS_Neither else TS_Source)"

definition index_range :: "string list \<Rightarrow> ua_string" where
  "index_range argv = (case find_arg argv ''--index-range'' of Some (c # cs) \<Rightarrow> Some (c # cs) | _ \<Rightarrow> None)"

definition cmd_read :: "client_env \<Rightarrow> 's client \<Rightarrow> string list \<Rightarrow> ('s client_world, outcome option) state" where
  "cmd_read env api argv =
    (let st = ce_stack env; node_args = collect_flag MAX_NODES argv ''--node'' in
     case find_arg argv ''--endpoint'' of
       None \<Rightarrow> State_Monad.return (Some (give_up env ''read'' BADINVALIDARGUMENT ''missing --endpoint''))
     | Some endpoint \<Rightarrow>
        (case request_ms argv of
           None \<Rightarrow> State_Monad.return (Some Undefined)
         | Some ms \<Rightarrow>
            if count_flag argv ''--node'' = 0 then State_Monad.return (Some (give_up env ''read'' BADINVALIDARGUMENT ''missing --node''))
            else do {
              m \<leftarrow> resolve_node_ids env api node_args ''read'' endpoint ms;
              case m of
                None \<Rightarrow> State_Monad.return None
              | Some (Inl out) \<Rightarrow> State_Monad.return (Some out)
              | Some (Inr ids) \<Rightarrow> do {
                  resp \<leftarrow> perform api (ServiceRead (timestamps_flag (find_arg argv ''--timestamps''))
                    (map (\<lambda>n. \<lparr>rv_nodeId = n, rv_attributeId = UA_ATTRIBUTEID_VALUE, rv_indexRange = index_range argv\<rparr>) ids));
                  let svc = cr_status resp; values = cr_dataValues resp; codes = map dv_code values; good = all_good st svc codes in
                  if StatusCode_isGood st svc \<and> length node_args < length values then State_Monad.return (Some Undefined)
                  else do {
                    _ \<leftarrow> close_client api;
                    State_Monad.return (Some (Exit (service_exit svc good)
                      (result_envelope st ''read'' good (emit_sc st svc codes)
                        (if StatusCode_isGood st svc then map2 (read_item st) node_args values else []))))
                  }
                }
            }))"

text \<open>The values of the flags are collected into arrays of their own; the loops then read \<open>node_count\<close> slots.\<close>

definition cmd_write :: "client_env \<Rightarrow> 's client \<Rightarrow> string list \<Rightarrow> ('s client_world, outcome option) state" where
  "cmd_write env api argv =
    (let st = ce_stack env; count = count_flag argv ''--node''; node_count = min count MAX_NODES;
         node_args = collect_flag MAX_NODES argv ''--node''; types = collect_flag MAX_NODES argv ''--type'';
         vals = collect_flag MAX_NODES argv ''--value'' in
     case find_arg argv ''--endpoint'' of
       None \<Rightarrow> State_Monad.return (Some (give_up env ''write'' BADINVALIDARGUMENT
         ''usage: write --endpoint <url> --node <id> --type <t> --value <v> [--node ... --type ... --value ...] (equal counts required)''))
     | Some endpoint \<Rightarrow>
        if count = 0 \<or> count \<noteq> count_flag argv ''--type'' \<or> count \<noteq> count_flag argv ''--value'' then
          State_Monad.return (Some (give_up env ''write'' BADINVALIDARGUMENT
            ''usage: write --endpoint <url> --node <id> --type <t> --value <v> [--node ... --type ... --value ...] (equal counts required)''))
        else (case find (\<lambda>s. \<not> validate_nodeid_structure (Some s)) node_args of
           Some s \<Rightarrow> State_Monad.return (Some (malformed env ''write'' s))
         | None \<Rightarrow>
            if length node_args < node_count then State_Monad.return (Some Undefined)
            else (case request_ms argv of
               None \<Rightarrow> State_Monad.return (Some Undefined)
             | Some ms \<Rightarrow> do {
                 m \<leftarrow> resolve_node_ids env api node_args ''write'' endpoint ms;
                 case m of
                   None \<Rightarrow> State_Monad.return None
                 | Some (Inl out) \<Rightarrow> State_Monad.return (Some out)
                 | Some (Inr ids) \<Rightarrow>
                     if length types < node_count \<or> length vals < node_count then State_Monad.return (Some Undefined)
                     else do {
                       resp \<leftarrow> perform api (ServiceWrite (map (\<lambda>(n, t, v). \<lparr>wv_nodeId = n, wv_attributeId = UA_ATTRIBUTEID_VALUE,
                         wv_indexRange = index_range argv, wv_value = build_write_variant (ce_cjson env) st (Some t) (Some v)\<rparr>)
                         (zip ids (zip types vals))));
                       let svc = cr_status resp; codes = cr_statuses resp; good = all_good st svc codes in
                       if StatusCode_isGood st svc \<and> length node_args < length codes then State_Monad.return (Some Undefined)
                       else do {
                         _ \<leftarrow> close_client api;
                         State_Monad.return (Some (Exit (service_exit svc good)
                           (result_envelope st ''write'' good (emit_sc st svc codes)
                             (if StatusCode_isGood st svc then map2 (\<lambda>n. output_write_result_item st (Some n)) node_args codes else []))))
                       }
                     }
               })))"

section \<open>Browse\<close>

text \<open>The loop over the continuation points.\<close>

definition has_more :: "ua_bytes \<Rightarrow> bool" where
  "has_more cp = (case cp of Some (_ # _) \<Rightarrow> True | _ \<Rightarrow> False)"

fun browse_rest :: "nat \<Rightarrow> 's client \<Rightarrow> ua_bytes \<Rightarrow> reference_description list \<Rightarrow> ('s client_world, reference_description list option) state" where
  "browse_rest 0 api cp refs = State_Monad.return None"
| "browse_rest (Suc rounds) api cp refs =
    (if \<not> has_more cp then State_Monad.return (Some refs)
     else do {
       r \<leftarrow> perform api (ServiceBrowseNext cp);
       (if cr_status r \<noteq> GOOD then State_Monad.return (Some refs)
        else (case cr_browseResults r of
            [] \<Rightarrow> State_Monad.return (Some refs)
          | b # _ \<Rightarrow> browse_rest rounds api (brs_continuationPoint b) (refs @ brs_references b)))
     })"

text \<open>The status of the first result counts when the service itself succeeded.\<close>

definition browse_status :: "stack \<Rightarrow> client_ret \<Rightarrow> u32" where
  "browse_status st resp = (case cr_browseResults resp of
     b # _ \<Rightarrow> (if StatusCode_isGood st (cr_status resp) \<and> \<not> StatusCode_isGood st (brs_statusCode b) then brs_statusCode b else cr_status resp)
   | [] \<Rightarrow> cr_status resp)"

definition mask_flag :: "string list \<Rightarrow> string \<Rightarrow> u32 \<Rightarrow> u32" where
  "mask_flag argv flag def = (case find_arg argv flag of Some v \<Rightarrow> ucast (fst (strtoul 0 v)) | None \<Rightarrow> def)"

abbreviation UA_BROWSERESULTMASK_ALL :: u32 where "UA_BROWSERESULTMASK_ALL \<equiv> 63"

definition browse_request :: "string list \<Rightarrow> nodeid \<Rightarrow> client_call" where
  "browse_request argv n = ServiceBrowse (word_of_int (parse_int_flag argv ''--max-refs'' 0))
    \<lparr>bd_nodeId = n, bd_forward = True, bd_referenceTypeId = nodeid_numeric 0 UA_NS0ID_HIERARCHICALREFERENCES,
     bd_includeSubtypes = (find_arg argv ''--include-subtypes'' \<notin> {Some ''false'', Some ''0''}),
     bd_nodeClassMask = mask_flag argv ''--node-class-mask'' 0,
     bd_resultMask = mask_flag argv ''--result-mask'' UA_BROWSERESULTMASK_ALL\<rparr>"

definition browse_outcome :: "stack \<Rightarrow> u32 \<Rightarrow> reference_description list \<Rightarrow> outcome" where
  "browse_outcome st sc refs =
    (let ok = StatusCode_isGood st sc in
     Exit (service_exit sc ok)
       (output_begin (Some ''open62541'') (Some ''browse'') @ output_success ok @ output_service_result st sc
        @ (if ok then output_browse_results refs else output_error (Some ''service'') (Some ''Browse service failed'')) @ output_end))"

definition cmd_browse :: "client_env \<Rightarrow> 's client \<Rightarrow> string list \<Rightarrow> ('s client_world, outcome option) state" where
  "cmd_browse env api argv =
    (let st = ce_stack env; nodeStr = (case find_arg argv ''--node'' of Some s \<Rightarrow> s | None \<Rightarrow> ''i=85'') in
     case find_arg argv ''--endpoint'' of
       None \<Rightarrow> State_Monad.return (Some (give_up env ''browse'' BADINVALIDARGUMENT ''missing --endpoint''))
     | Some endpoint \<Rightarrow>
        if \<not> validate_nodeid_structure (Some nodeStr) then State_Monad.return (Some (malformed env ''browse'' nodeStr))
        else (case request_ms argv of
           None \<Rightarrow> State_Monad.return (Some Undefined)
         | Some ms \<Rightarrow> do {
             m \<leftarrow> connect_command env api endpoint ms ''browse'';
             case m of
               None \<Rightarrow> State_Monad.return None
             | Some (Inl out) \<Rightarrow> State_Monad.return (Some out)
             | Some (Inr cfg) \<Rightarrow> do {
                 n \<leftarrow> resolve_one api nodeStr;
                 case n of
                   Inl e \<Rightarrow> do {
                     _ \<leftarrow> close_client api;
                     State_Monad.return (Some (give_up env ''browse'' BADNAMESPACEURIINVALID (if e = -1 then unknown_uri nodeStr else unresolved nodeStr)))
                   }
                 | Inr nodeId \<Rightarrow> do {
                     resp \<leftarrow> perform api (browse_request argv nodeId);
                     let sc = browse_status st resp;
                     more \<leftarrow> (if StatusCode_isGood st sc then
                         (case cr_browseResults resp of
                            b # _ \<Rightarrow> browse_rest (ce_rounds env) api (brs_continuationPoint b) (brs_references b)
                          | [] \<Rightarrow> State_Monad.return (Some []))
                       else State_Monad.return (Some []));
                     case more of
                       None \<Rightarrow> State_Monad.return None
                     | Some refs \<Rightarrow> do {
                         _ \<leftarrow> close_client api;
                         State_Monad.return (Some (browse_outcome st sc refs))
                       }
                   }
               }
           }))"

section \<open>Call\<close>

text \<open>An input: the text before the first colon, cut to the 63 bytes of its buffer, is the type.\<close>

definition call_input :: "client_env \<Rightarrow> string \<Rightarrow> variant" where
  "call_input env spec = (case strchr CHR '':'' spec of
     None \<Rightarrow> EmptyVariant
   | Some (t, rest) \<Rightarrow> build_write_variant (ce_cjson env) (ce_stack env) (Some (take 63 t)) (Some (drop 1 rest)))"

text \<open>The array of the inputs has a slot for every flag, also for one that is the last argument.\<close>

definition call_inputs :: "client_env \<Rightarrow> string list \<Rightarrow> variant list" where
  "call_inputs env argv =
    (let inCount = count_flag argv ''--input''; vs = map (call_input env) (collect_flag inCount argv ''--input'')
     in vs @ replicate (inCount - length vs) EmptyVariant)"

definition resolve_both :: "'s client \<Rightarrow> string \<Rightarrow> string \<Rightarrow> ('s client_world, string + nodeid \<times> nodeid) state" where
  "resolve_both api objStr methStr = do {
     obj \<leftarrow> resolve_one api objStr;
     case obj of
       Inl _ \<Rightarrow> State_Monad.return (Inl (snprintf_buf 512 (''unknown namespace URI in object NodeId: '' @ quoted objStr)))
     | Inr objectId \<Rightarrow> do {
         meth \<leftarrow> resolve_one api methStr;
         State_Monad.return (case meth of
           Inl _ \<Rightarrow> Inl (snprintf_buf 512 (''unknown namespace URI in method NodeId: '' @ quoted methStr))
         | Inr methodId \<Rightarrow> Inr (objectId, methodId))
       }
   }"

definition cmd_call :: "client_env \<Rightarrow> 's client \<Rightarrow> string list \<Rightarrow> ('s client_world, outcome option) state" where
  "cmd_call env api argv =
    (let st = ce_stack env in
     case (find_arg argv ''--endpoint'', find_arg argv ''--object'', find_arg argv ''--method'') of
       (Some endpoint, Some objStr, Some methStr) \<Rightarrow>
         if \<not> validate_nodeid_structure (Some objStr) then State_Monad.return (Some (malformed env ''call'' objStr))
         else if \<not> validate_nodeid_structure (Some methStr) then State_Monad.return (Some (malformed env ''call'' methStr))
         else (case request_ms argv of
            None \<Rightarrow> State_Monad.return (Some Undefined)
          | Some ms \<Rightarrow> do {
              m \<leftarrow> connect_command env api endpoint ms ''call'';
              case m of
                None \<Rightarrow> State_Monad.return None
              | Some (Inl out) \<Rightarrow> State_Monad.return (Some out)
              | Some (Inr cfg) \<Rightarrow> do {
                  ids \<leftarrow> resolve_both api objStr methStr;
                  case ids of
                    Inl msg \<Rightarrow> do {
                      _ \<leftarrow> close_client api;
                      State_Monad.return (Some (give_up env ''call'' BADNAMESPACEURIINVALID msg))
                    }
                  | Inr (objectId, methodId) \<Rightarrow> do {
                      r \<leftarrow> perform api (CallMethod objectId methodId (call_inputs env argv));
                      let sc = cr_status r;
                      let ok = StatusCode_isGood st sc;
                      _ \<leftarrow> close_client api;
                      State_Monad.return (Some (Exit (service_exit sc ok)
                        (result_envelope st ''call'' ok sc [output_call_result st (Some objStr) (Some methStr) sc (cr_outputs r)])))
                    }
                }
            })
     | _ \<Rightarrow> State_Monad.return (Some (give_up env ''call'' BADINVALIDARGUMENT
         ''usage: call --endpoint <url> --object <nodeId> --method <nodeId> [--input <type:val> ...]'')))"

section \<open>The session of a command\<close>

text \<open>The session as a state machine over the calls: a connection is made once, services are used only
  while it stands, and it is closed before the client object is deleted. A client that listens
  for a reverse connection may be deleted without a session. A channel without a session that the server opened
  may be lost and awaited again.\<close>

datatype session = Idle | Listening | Channel | Opened | Closed | Deleted | Broken

definition live :: "session \<Rightarrow> bool" where
  "live p \<longleftrightarrow> p = Opened \<or> p = Listening \<or> p = Channel"

lemma live_simps [simp]: "live Opened" "live Listening" "live Channel" "\<not> live Idle" "\<not> live Closed" "\<not> live Deleted" "\<not> live Broken"
  by (simp_all add: live_def)

fun is_service :: "client_call \<Rightarrow> bool" where
  "is_service (ReadValueAttribute _) = True"
| "is_service (NamespaceGetIndex _) = True"
| "is_service (CallMethod _ _ _) = True"
| "is_service (TranslateBrowsePaths _) = True"
| "is_service (ServiceRead _ _) = True"
| "is_service (ServiceWrite _) = True"
| "is_service (ServiceBrowse _ _) = True"
| "is_service (ServiceBrowseNext _) = True"
| "is_service ServiceFindServers = True"
| "is_service (ServiceGetEndpoints _) = True"
| "is_service (ServiceFindServersOnNetwork _ _ _) = True"
| "is_service (ServiceRegisterServer _) = True"
| "is_service (ServiceRegisterServer2 _ _) = True"
| "is_service (ServiceRegisterNodes _) = True"
| "is_service (ServiceUnregisterNodes _) = True"
| "is_service (AddVariableNode _ _ _ _ _ _) = True"
| "is_service (DeleteNode _ _) = True"
| "is_service (ServiceHistoryRead _) = True"
| "is_service (ServiceRepublish _ _) = True"
| "is_service (ServiceTransferSubscriptions _ _) = True"
| "is_service (WriteValueAttribute _ _) = True"
| "is_service (CreateSubscription _) = True"
| "is_service (DeleteSubscription _) = True"
| "is_service (ServiceDeleteSubscriptions _) = True"
| "is_service (ServiceSetPublishingMode _ _) = True"
| "is_service (ServiceSetMonitoringMode _ _ _) = True"
| "is_service (CreateDataChangeItem _ _ _) = True"
| "is_service (CreateEventItem _ _ _) = True"
| "is_service (ServiceDeleteMonitoredItems _ _) = True"
| "is_service _ = False"

fun session_step :: "session \<Rightarrow> client_call \<times> client_ret \<Rightarrow> session" where
  "session_step p (Connect _ _, r) = (if p = Idle then (if cr_status r = GOOD then Opened else Idle) else Broken)"
| "session_step p (StartListeningForReverseConnect _ _ noSession, r) =
     (let next = (if noSession then Channel else Listening) in if p = Idle \<or> p = next then (if cr_status r = GOOD then next else p) else Broken)"
| "session_step p (Disconnect, r) = (if live p \<or> p = Idle then Closed else Broken)"
| "session_step p (ConnectSecureChannel _ _, r) = (if p = Idle then (if cr_status r = GOOD then Opened else Idle) else Broken)"
| "session_step p (ClientNew _, r) = (if p = Idle \<or> p = Deleted then Idle else Broken)"
| "session_step p (ClientDelete, r) = (if p = Idle \<or> p = Listening \<or> p = Closed then Deleted else Broken)"
| "session_step p (c, r) = (if is_service c then (if p = Channel then Channel else if live p then Opened else Broken) else p)"

definition session_after :: "session \<Rightarrow> (client_call \<times> client_ret) list \<Rightarrow> session" where
  "session_after p calls = foldl session_step p calls"

lemma session_after_simps [simp]: "session_after p [] = p" "session_after p (e # calls) = session_after (session_step p e) calls"
    "session_after p (a @ b) = session_after (session_after p a) b"
  by (simp_all add: session_after_def)

lemma session_endpoint_check: "runs anything (endpoint_check_security api sec url) (\<lambda>_ new. \<forall>p. session_after p new = p)"
  by (auto simp: endpoint_check_security_def intro!: runs_calculus)

lemma session_encryption: "runs anything (configure_encryption fs api sec trust) (\<lambda>_ new. \<forall>p. session_after p new = p)"
  by (auto simp: configure_encryption_def policy_array_add_ecc_def Let_def intro!: runs_calculus)

lemma session_close_wait: "runs anything (close_wait rounds api deadline ch) (\<lambda>_ new. \<forall>p. session_after p new = p)"
  by (induction rounds arbitrary: ch) (auto intro!: runs_calculus)

lemma session_listen_wait: "runs anything (listen_wait rounds api want_session deadline listening) (\<lambda>_ new. \<forall>p. session_after p new = p)"
  by (induction rounds arbitrary: listening) (auto simp: Let_def intro!: runs_calculus)

definition awaited :: "bool \<Rightarrow> session" where
  "awaited want_session = (if want_session then Listening else Channel)"

lemma session_listen:
  "session_step p (StartListeningForReverseConnect cfg lport (\<not> want_session), r) =
    (if p = Idle \<or> p = awaited want_session then (if cr_status r = GOOD then awaited want_session else p) else Broken)"
  by (simp add: awaited_def)

declare session_step.simps(2) [simp del]

lemma session_reverse_rounds:
  "runs anything (reverse_rounds rounds api cfg lport want_session deadline)
    (\<lambda>res new. \<forall>p\<in>{Idle, awaited want_session}. session_after p new = awaited want_session \<or> session_after p new = Idle \<and> res \<noteq> Some GOOD)"
proof (induction rounds)
  case (Suc rounds)
  show ?case
    by (auto simp: session_listen split: option.splits listen_result.splits
        intro!: runs_calculus runs_mono [OF session_close_wait] runs_mono [OF session_listen_wait] runs_mono [OF Suc.IH])
qed (auto intro!: runs_calculus)

lemma session_awaiting:
  "runs anything (reverse_connect rounds api sec cfg want_session)
    (\<lambda>res new. \<forall>p\<in>{Idle, awaited want_session}. session_after p new = awaited want_session \<or> session_after p new = Idle \<and> res \<noteq> Some GOOD)"
  unfolding reverse_connect_def
  by (auto simp: Let_def intro!: runs_calculus runs_mono [OF session_reverse_rounds])

lemma session_reverse_connect:
  "runs anything (reverse_connect rounds api sec cfg True)
    (\<lambda>res new. session_after Idle new = Listening \<or> session_after Idle new = Idle \<and> res \<noteq> Some GOOD)"
  by (rule runs_mono [OF session_awaiting]) (auto simp: awaited_def)

text \<open>An envelope that reports success exactly when the exit code is 0.\<close>

definition reports :: "stack \<Rightarrow> string \<Rightarrow> int \<Rightarrow> string \<Rightarrow> bool" where
  "reports st op ec text \<longleftrightarrow> (\<exists>sc body. text = output_begin (Some ''open62541'') (Some op) @ output_success (ec = 0)
     @ output_service_result st sc @ body @ output_end \<and> result_block body)"

lemma reports_document: "names_ok st \<Longrightarrow> reports st op ec text \<Longrightarrow> document text"
  unfolding reports_def document_def using json_envelope_block by blast

lemma reports_failure: "ec \<noteq> 0 \<Longrightarrow> reports st op ec (cli_emit_failure st op sc category message)"
  unfolding reports_def cli_emit_failure_def using result_block_error by auto

text \<open>The outcome of a command that did not get a connection.\<close>

definition failed :: "stack \<Rightarrow> string \<Rightarrow> outcome \<Rightarrow> bool" where
  "failed st op out = (case out of Undefined \<Rightarrow> True | Exit ec text \<Rightarrow> ec \<in> {2, 3, 6, 7} \<and> reports st op ec text)"

lemma failed_simps [simp]: "failed st op Undefined"
    "ec \<in> {2, 3, 6, 7} \<Longrightarrow> failed st op (Exit ec (cli_emit_failure st op sc category message))"
    "failed st op (case connect_message sec sc rm of (ec, category, msg) \<Rightarrow> Exit ec (cli_emit_failure st op sc category msg))"
  by (auto simp: failed_def reports_failure connect_message_def)

fun client_spec :: "stack \<Rightarrow> string \<Rightarrow> (session \<Rightarrow> bool) \<Rightarrow> outcome + 'a \<Rightarrow> (client_call \<times> client_ret) list \<Rightarrow> bool" where
  "client_spec st op ready (Inr _) new = ready (session_after Idle new)"
| "client_spec st op ready (Inl out) new = (failed st op out \<and> (out = Undefined \<or> session_after Idle new = Idle \<or> session_after Idle new = Deleted))"

fun if_returned :: "('a \<Rightarrow> 'b \<Rightarrow> bool) \<Rightarrow> 'a option \<Rightarrow> 'b \<Rightarrow> bool" where
  "if_returned Q None new = True"
| "if_returned Q (Some x) new = Q x new"

lemma session_unconnected:
  "runs anything (make_client_unconnected st fs names api sec url ms op) (client_spec st op ((=) Idle))"
  unfolding make_client_unconnected_def
  by (auto split: option.split
      intro!: runs_calculus runs_mono [OF session_endpoint_check] runs_mono [OF session_encryption])

lemma session_make_client:
  "runs anything (make_client rounds st fs names api sec url ms op) (if_returned (client_spec st op live))"
  unfolding make_client_def reverse_check_server_uri_def
  apply (auto split: option.split sum.split
      intro!: runs_calculus runs_mono [OF session_unconnected] runs_mono [OF session_reverse_connect])
  apply (erule contrapos_np)
  apply (auto intro!: runs_calculus)
  done

lemma session_close: "runs anything (close_client api) (\<lambda>_ new. \<forall>p. live p \<longrightarrow> session_after p new = Deleted)"
  by (auto simp: close_client_def intro!: runs_calculus)

lemma session_resolve_one:
  "runs anything (resolve_one api s) (\<lambda>_ new. \<forall>p. live p \<longrightarrow> live (session_after p new))"
proof (rule runsI)
  fix w tr x w' tr' assume "run_state (resolve_one api s) (w, tr) = (x, w', tr')"
  then have "tr' = tr \<or> (\<exists>uri r. tr' = tr @ [(NamespaceGetIndex uri, r)])"
    by (auto simp: resolve_one_def resolve_nsu_def resolve_nsu_nodeid_def world_nsindex_def perform_def
        split: if_splits option.splits prod.splits)
  then show "anything w' \<and> (\<exists>new. tr' = tr @ new \<and> (\<forall>p. live p \<longrightarrow> live (session_after p new)))"
    by auto
qed

lemma session_resolve_all:
  "runs anything (resolve_all api node_args) (\<lambda>_ new. \<forall>p. live p \<longrightarrow> live (session_after p new))"
proof (induction node_args)
  case (Cons s rest)
  show ?case by (auto split: sum.split intro!: runs_calculus runs_mono [OF session_resolve_one] runs_mono [OF Cons.IH])
qed (auto intro!: runs_calculus)

lemma session_resolve_node_ids:
  "runs anything (resolve_node_ids env api node_args op url ms) (if_returned (client_spec (ce_stack env) op live))"
  unfolding resolve_node_ids_def connect_command_def
  by (auto simp: malformed_def give_up_def split: option.split sum.split
      intro!: runs_calculus runs_mono [OF session_make_client] runs_mono [OF session_resolve_all] runs_mono [OF session_close])

lemma runs_answer:
  assumes "\<forall>s c. A (fst (api s c))" and "\<And>r. A r \<Longrightarrow> Q r [(c, r)]"
  shows "runs anything (perform api c) Q"
  using assms by (intro runs_perform keeps_anything) auto

text \<open>What a server answers is taken to be free of control characters in identifiers, as for the printers.\<close>

definition plain_ua :: "ua_string \<Rightarrow> bool" where
  "plain_ua s \<longleftrightarrow> plain_text (bytes_of_string s)"

definition finite_double :: "double \<Rightarrow> bool" where
  "finite_double d \<longleftrightarrow> (case d of DFin _ _ \<Rightarrow> True | _ \<Rightarrow> False)"

definition plain_application :: "application_description \<Rightarrow> bool" where
  "plain_application d \<longleftrightarrow> plain_ua (ad_applicationUri d) \<and> plain_ua (ad_productUri d) \<and> plain_ua (lt_locale (ad_applicationName d))
     \<and> plain_ua (lt_text (ad_applicationName d)) \<and> (\<forall>u\<in>set (ad_discoveryUrls d). plain_ua u)"

fun clean_notification :: "notification \<Rightarrow> bool" where
  "clean_notification (DataChange dv) = clean_datavalue dv"
| "clean_notification (EventFields fs) = (\<forall>(k, v)\<in>set fs. clean_variant v)"

text \<open>What the services of the basic commands return.\<close>

definition clean_basic :: "client_ret \<Rightarrow> bool" where
  "clean_basic r \<longleftrightarrow> (\<forall>dv\<in>set (cr_dataValues r). clean_datavalue dv) \<and> (\<forall>v\<in>set (cr_outputs r). clean_variant v) \<and>
     (\<forall>b\<in>set (cr_browseResults r). \<forall>ref\<in>set (brs_references b). clean_reference ref) \<and> clean_variant (cr_value r) \<and>
     (\<forall>h\<in>set (cr_historyResults r). \<forall>dvs. hs_data h = Some dvs \<longrightarrow> (\<forall>dv\<in>set dvs. clean_datavalue dv))"

text \<open>What the discovery services, NodeIds and subscriptions return.\<close>

definition clean_further :: "client_ret \<Rightarrow> bool" where
  "clean_further r \<longleftrightarrow> (\<forall>ep\<in>set (cr_endpoints r). plain_ua (ep_endpointUrl ep) \<and> plain_ua (ep_securityPolicyUri ep)) \<and>
     (\<forall>d\<in>set (cr_applications r). plain_application d) \<and> (\<forall>b\<in>set (cr_pathResults r). \<forall>n\<in>set (bpr_targets b). clean_nodeid n) \<and>
     (\<forall>n\<in>set (cr_nodeIds r). clean_nodeid n) \<and> finite_double (su_publishingInterval (cr_subscription r)) \<and>
     finite_double (it_samplingInterval (cr_item r)) \<and> clean_extobj (it_filterResult (cr_item r)) \<and> (\<forall>n\<in>set (cr_notifications r). clean_notification n)"

definition clean_ret :: "client_ret \<Rightarrow> bool" where
  "clean_ret r \<longleftrightarrow> clean_basic r \<and> clean_further r"

fun command_spec :: "stack \<Rightarrow> string \<Rightarrow> outcome \<Rightarrow> (client_call \<times> client_ret) list \<Rightarrow> bool" where
  "command_spec st op Undefined calls = True"
| "command_spec st op (Exit ec text) calls = (ec \<in> {0, 2, 3, 4, 6, 7} \<and> reports st op ec text \<and> session_after Idle calls \<in> {Idle, Deleted})"

lemma command_failed: "failed st op out \<Longrightarrow> out = Undefined \<or> session_after Idle calls \<in> {Idle, Deleted} \<Longrightarrow> command_spec st op out calls"
  by (cases out) (auto simp: failed_def)

lemma result_block_items:
  "\<forall>r\<in>set items. json_value r \<Longrightarrow> result_block (output_open_results @ join_comma items @ output_close_results @ output_null_error)"
  by (rule result_blockI [of _ items "''null''", OF _ _ json_null]) (simp_all add: piece_defs)

lemma reports_result:
  assumes "\<forall>r\<in>set items. json_value r" and "ec = 0 \<longleftrightarrow> good"
  shows "reports st op ec (result_envelope st op good sc items)"
  unfolding reports_def result_envelope_def assms(2) using result_block_items [OF assms(1)] by (metis append.assoc)

lemma service_exit_cases: "service_exit svc good \<in> {0, 4, 7}"
  by (simp add: service_exit_def)

lemma service_exit_0: "good \<longrightarrow> svc \<noteq> BADTIMEOUT \<Longrightarrow> service_exit svc good = 0 \<longleftrightarrow> good"
  by (auto simp: service_exit_def)

lemma clean_item:
  assumes "names_ok st" and "clean_ret r"
  shows "(n, dv) \<in> set (zip node_args (cr_dataValues r)) \<Longrightarrow> json_value (read_item st n dv)"
    and "json_value (output_call_result st oid mid sc (cr_outputs r))"
proof -
  assume "(n, dv) \<in> set (zip node_args (cr_dataValues r))"
  then have "dv \<in> set (cr_dataValues r)" by (rule set_zip_rightD)
  with assms show "json_value (read_item st n dv)"
    by (cases dv) (auto simp: read_item_def clean_ret_def clean_basic_def intro!: json_read_item)
next
  show "json_value (output_call_result st oid mid sc (cr_outputs r))"
    using assms by (intro json_call_result) (simp_all add: clean_ret_def clean_basic_def)
qed

lemma finished:
  assumes "\<forall>r\<in>set items. json_value r" and "good \<longrightarrow> svc \<noteq> BADTIMEOUT" and "session_after Idle calls = Deleted"
  shows "command_spec st op (Exit (service_exit svc good) (result_envelope st op good sc items)) calls"
  using reports_result [OF assms(1) service_exit_0 [OF assms(2)]] service_exit_cases [of svc good] assms(3) by auto

lemma gave_up: "session_after Idle calls \<in> {Idle, Deleted} \<Longrightarrow> command_spec (ce_stack env) op (give_up env op sc msg) calls"
    "session_after Idle calls \<in> {Idle, Deleted} \<Longrightarrow> command_spec (ce_stack env) op (malformed env op s) calls"
  by (simp_all add: give_up_def malformed_def reports_failure)

text \<open>What the statements about whole commands rely on: names of status codes are identifiers, a timeout
  is not good, and the answers are clean.\<close>

definition usual :: "client_env \<Rightarrow> 's client \<Rightarrow> bool" where
  "usual env api \<longleftrightarrow> names_ok (ce_stack env) \<and> \<not> StatusCode_isGood (ce_stack env) BADTIMEOUT \<and> (\<forall>s c. clean_ret (fst (api s c)))"

lemma usualD:
  assumes "usual env api"
  shows "names_ok (ce_stack env)" and "\<not> StatusCode_isGood (ce_stack env) BADTIMEOUT" and "\<forall>s c. clean_ret (fst (api s c))"
  using assms by (simp_all add: usual_def)

lemmas command_calculus = runs_bindI runs_return runs_mono [OF session_resolve_node_ids] runs_mono [OF session_make_client]
  runs_mono [OF session_resolve_one] runs_mono [OF session_close] finished gave_up

declare command_spec.simps(2) [simp del]

lemma read_runs:
  assumes "usual env api"
  shows "runs anything (cmd_read env api argv) (if_returned (command_spec (ce_stack env) ''read''))"
  unfolding cmd_read_def Let_def
  by (auto simp: command_failed all_good_def usualD(2) [OF assms] clean_item [OF usualD(1) [OF assms]] split: option.split sum.split
      intro!: command_calculus runs_answer [OF usualD(3) [OF assms]])

lemma write_runs:
  assumes "usual env api"
  shows "runs anything (cmd_write env api argv) (if_returned (command_spec (ce_stack env) ''write''))"
  unfolding cmd_write_def Let_def
  by (auto simp: command_failed all_good_def usualD(2) [OF assms] json_write_item [OF usualD(1) [OF assms]] split: option.split sum.split
      intro!: command_calculus runs_answer [OF usualD(3) [OF assms]])

lemma browse_rest_runs:
  assumes "\<forall>s c. clean_ret (fst (api s c))"
  shows "\<forall>ref\<in>set refs. clean_reference ref \<Longrightarrow> runs anything (browse_rest rounds api cp refs)
    (\<lambda>res new. (\<forall>all. res = Some all \<longrightarrow> (\<forall>ref\<in>set all. clean_reference ref)) \<and> (\<forall>p. live p \<longrightarrow> live (session_after p new)))"
proof (induction rounds arbitrary: cp refs)
  case (Suc rounds)
  have "clean_ret r \<Longrightarrow> cr_browseResults r = b # bs \<Longrightarrow> \<forall>ref\<in>set (refs @ brs_references b). clean_reference ref" for r b bs
    using Suc.prems by (auto simp: clean_ret_def clean_basic_def)
  then show ?case using Suc.prems
    by (auto split: list.split intro!: runs_bindI runs_return runs_answer [OF assms] runs_mono [OF Suc.IH])
qed (auto intro!: runs_return)

lemma reportsI: "result_block body \<Longrightarrow> ec = 0 \<longleftrightarrow> ok \<Longrightarrow>
    reports st op ec (output_begin (Some ''open62541'') (Some op) @ output_success ok @ output_service_result st sc @ body @ output_end)"
  unfolding reports_def by blast

lemma browse_finished:
  assumes "\<forall>ref\<in>set refs. clean_reference ref" and "\<not> StatusCode_isGood st BADTIMEOUT" and "session_after Idle calls = Deleted"
  shows "command_spec st ''browse'' (browse_outcome st sc refs) calls"
proof -
  let ?ok = "StatusCode_isGood st sc"
  have "service_exit sc ?ok = 0 \<longleftrightarrow> ?ok" using assms(2) by (intro service_exit_0) auto
  moreover have "result_block (if ?ok then output_browse_results refs else output_error (Some ''service'') (Some ''Browse service failed''))"
    using assms(1) by (simp add: result_block_browse result_block_error)
  ultimately show ?thesis using reportsI service_exit_cases [of sc ?ok] assms(3)
    unfolding browse_outcome_def Let_def command_spec.simps by (intro conjI) auto
qed

lemma browse_runs:
  assumes "usual env api"
  shows "runs anything (cmd_browse env api argv) (if_returned (command_spec (ce_stack env) ''browse''))"
  unfolding cmd_browse_def Let_def connect_command_def
  by (auto simp: command_failed browse_request_def clean_ret_def clean_basic_def split: option.split sum.split list.split
      intro!: command_calculus browse_finished usualD(2) [OF assms] runs_answer [OF usualD(3) [OF assms]] runs_mono [OF browse_rest_runs [OF usualD(3) [OF assms]]])

lemma call_runs:
  assumes "usual env api"
  shows "runs anything (cmd_call env api argv) (if_returned (command_spec (ce_stack env) ''call''))"
  unfolding cmd_call_def Let_def connect_command_def resolve_both_def
  by (auto simp: command_failed usualD(2) [OF assms] clean_item [OF usualD(1) [OF assms]] split: option.split sum.split
      intro!: command_calculus runs_answer [OF usualD(3) [OF assms]])

definition commands :: "(string \<times> (client_env \<Rightarrow> 's client \<Rightarrow> string list \<Rightarrow> ('s client_world, outcome option) state)) list" where
  "commands = [(''read'', cmd_read), (''write'', cmd_write), (''browse'', cmd_browse), (''call'', cmd_call)]"

text \<open>C2 Every run of read, write, browse or call that returns has printed one JSON document, which reports
  success exactly when the exit code is 0; the exit code is one of 0, 2, 3, 4, 6 and 7. Services
  were used only in an open session, and at the end the session is closed and the client
  deleted, or none was ever made. The server's values are well formed and its NodeIds and names printable without
  control characters (clean_ret).\<close>

theorem commands_report_and_close:
  assumes "usual env api" and "(op, cmd) \<in> set commands"
    and "run_state (cmd env api argv) (s, []) = (Some (Exit ec text), s', calls)"
  shows "ec \<in> {0, 2, 3, 4, 6, 7} \<and> document text \<and> reports (ce_stack env) op ec text \<and> session_after Idle calls \<in> {Idle, Deleted}"
proof -
  have "runs anything (cmd env api argv) (if_returned (command_spec (ce_stack env) op))"
    using assms(2) read_runs [OF assms(1)] write_runs [OF assms(1)] browse_runs [OF assms(1)] call_runs [OF assms(1)]
    by (auto simp: commands_def)
  from runsD [OF this TrueI assms(3)] have "command_spec (ce_stack env) op (Exit ec text) calls" by simp
  with reports_document [OF usualD(1) [OF assms(1)]] show ?thesis by (auto simp: command_spec.simps)
qed

text \<open>A server without security that answers everything, each read with the value 5.\<close>

definition open_server :: "unit client" where
  "open_server s c = (client_ret_good\<lparr>cr_endpoints := [\<lparr>ep_securityMode = MODE_None, ep_securityPolicyUri = Some (security_policy_uri None), ep_endpointUrl = None\<rparr>],
     cr_dataValues := [DataValue True (Scalar (VInt32 5)) None None None None None], cr_statuses := [GOOD]\<rparr>, ())"

definition plain_env :: client_env where
  "plain_env = \<lparr>ce_rounds = 1, ce_stack = plain_stack, ce_cjson = plain_json, ce_files = (\<lambda>_. Inl []), ce_names = (\<lambda>_. None), ce_sec = g_sec\<rparr>"

lemma usual_open: "usual plain_env open_server"
  by (simp add: usual_def plain_env_def names_ok_plain_stack open_server_def clean_ret_def clean_basic_def clean_further_def plain_ua_def finite_double_def plain_char_def security_policy_uri_def policy_table_def policy_names_def POLICY_PREFIX_def client_ret_good_def)
    (simp add: plain_stack_def)

definition read_argv :: "string list" where
  "read_argv = [''--endpoint'', ''opc.tcp://h'', ''--node'', ''i=85'']"

lemma open_connects:
  "\<exists>calls. run_state (make_client 1 plain_stack (\<lambda>_. Inl []) (\<lambda>_. None) open_server g_sec url ms op) ((), tr) = (Some (Inr (client_settings (\<lambda>_. Inl []) (\<lambda>_. None) g_sec ms)), (), calls)"
  by (simp add: make_client_def make_client_unconnected_def endpoint_check_security_def perform_def open_server_def client_ret_good_def
      g_sec_def security_policy_known_iff policy_names_def security_is_none_def security_mode_enum_def endpoint_matches_def security_policy_uri_def policy_table_def)

lemma read_arguments:
  "find_arg read_argv ''--endpoint'' = Some ''opc.tcp://h''" "count_flag read_argv ''--node'' = 1"
  "collect_flag MAX_NODES read_argv ''--node'' = [''i=85'']" "request_ms read_argv = Some 5000"
  by (simp_all add: read_argv_def request_ms_def parse_int_flag_def eval_nat_numeral)

lemma plain_good: "StatusCode_isGood plain_stack GOOD"
  by (simp add: plain_stack_def)

lemma read_returns:
  "\<exists>text calls. run_state (cmd_read plain_env open_server read_argv) ((), []) = (Some (Exit 0 text), (), calls)"
proof -
  obtain calls where "run_state (make_client 1 plain_stack (\<lambda>_. Inl []) (\<lambda>_. None) open_server g_sec ''opc.tcp://h'' 5000 ''read'') ((), [])
      = (Some (Inr (client_settings (\<lambda>_. Inl []) (\<lambda>_. None) g_sec 5000)), (), calls)"
    using open_connects by blast
  then show ?thesis
    by (simp add: cmd_read_def read_arguments resolve_node_ids_def validate_nodeid_structure_def isdigit_def connect_command_def plain_env_def
        resolve_one_def perform_def open_server_def client_ret_good_def close_client_def all_good_def service_exit_def dv_code_def plain_good Let_def)
qed

theorem commands_report_and_close_witness:
  "\<exists>text calls. run_state (cmd_read plain_env open_server read_argv) ((), []) = (Some (Exit 0 text), (), calls) \<and>
    document text \<and> reports plain_stack ''read'' 0 text \<and> session_after Idle calls \<in> {Idle, Deleted}"
proof -
  obtain doc calls where r: "run_state (cmd_read plain_env open_server read_argv) ((), []) = (Some (Exit 0 doc), (), calls)"
    using read_returns by blast
  have "(''read'', cmd_read) \<in> set commands" by (simp add: commands_def)
  from commands_report_and_close [OF usual_open this r] r show ?thesis by (auto simp: plain_env_def)
qed

section \<open>No unwritten slot is read\<close>

lemma collect_flag_length:
  "argv = [] \<or> last argv \<noteq> flag \<Longrightarrow> length (collect_flag limit argv flag) = min limit (count_flag argv flag)"
  by (induction limit argv flag rule: collect_flag.induct) (auto split: if_splits)

text \<open>(A positive predicate: the classical reasoner swaps an inequality into the goal.)\<close>

fun defined :: "outcome \<Rightarrow> bool" where
  "defined Undefined = False"
| "defined (Exit ec doc) = True"

fun defined_client :: "outcome + 'a \<Rightarrow> bool" where
  "defined_client (Inl out) = defined out"
| "defined_client (Inr _) = True"

fun sized :: "nat \<Rightarrow> 'e + 'a list \<Rightarrow> bool" where
  "sized n (Inl _) = True"
| "sized n (Inr xs) = (length xs = n)"

lemma sized_Cons [simp]: "sized (Suc n) (map_sum id ((#) x) q) = sized n q"
  by (cases q) auto

lemma close_any: "runs anything (close_client api) (\<lambda>_ _. True)" and resolve_one_any: "runs anything (resolve_one api s) (\<lambda>_ _. True)"
  by (rule runs_mono [OF session_close], simp) (rule runs_mono [OF session_resolve_one], simp)

lemma resolve_all_length: "runs anything (resolve_all api node_args) (\<lambda>res _. sized (length node_args) res)"
proof (induction node_args)
  case (Cons s rest)
  show ?case by (auto split: sum.split intro!: runs_calculus runs_mono [OF resolve_one_any] runs_mono [OF Cons.IH])
qed (auto intro!: runs_calculus)

lemma make_client_defined:
  assumes "gs_trustCount sec \<le> length (gs_trustFiles sec)"
  shows "runs anything (make_client rounds st fs names api sec url ms op) (if_returned (\<lambda>res _. defined_client res))"
proof -
  have u: "defined out" if "unconnected_spec st fs names sec url ms (Inl out) new" for out new
    using that assms by (cases out) (simp_all add: unconnected_spec_def)
  have c: "defined (case connect_message sec sc rm of (ec, category, msg) \<Rightarrow> Exit ec (f sc category msg))" for sc rm f
    by (simp split: prod.split)
  have rev: "runs anything (reverse_connect rounds api sec cfg True) (\<lambda>_ _. True)" for cfg by (rule runs_mono [OF session_reverse_connect]) simp
  show ?thesis unfolding make_client_def reverse_check_server_uri_def
    apply (auto simp: c split: option.split sum.split
      intro!: runs_calculus runs_mono [OF runs_unconnected] runs_mono [OF rev])
    by (rule u)
qed

lemma resolve_node_ids_defined:
  assumes "gs_trustCount (ce_sec env) \<le> length (gs_trustFiles (ce_sec env))"
  shows "runs anything (resolve_node_ids env api node_args op url ms)
    (if_returned (\<lambda>res _. defined_client res \<and> sized (length node_args) res))"
  unfolding resolve_node_ids_def connect_command_def
  by (auto simp: malformed_def give_up_def split: option.split sum.split prod.split
      intro!: runs_calculus runs_mono [OF make_client_defined [OF assms]] runs_mono [OF resolve_all_length] runs_mono [OF close_any])

lemma give_up_defined [simp]: "defined (give_up env op sc msg)" "defined (malformed env op s)"
  by (simp_all add: give_up_def malformed_def)

lemma browse_rest_any: "runs anything (browse_rest rounds api cp refs) (\<lambda>_ _. True)"
  by (induction rounds arbitrary: cp refs) (auto split: list.split intro!: runs_calculus)

lemma browse_outcome_defined [simp]: "defined (browse_outcome st sc refs)"
  by (simp add: browse_outcome_def Let_def)

text \<open>A server that returns more results than it was asked for.\<close>

definition overfull :: "(client_call \<times> client_ret) list \<Rightarrow> bool" where
  "overfull tr \<longleftrightarrow> (\<exists>(c, r)\<in>set tr. case c of
     ServiceRead _ ids \<Rightarrow> length ids < length (cr_dataValues r)
   | ServiceWrite ws \<Rightarrow> length ws < length (cr_statuses r)
   | _ \<Rightarrow> False)"

lemma overfull_append [simp]: "overfull (tr @ tr') \<longleftrightarrow> overfull tr \<or> overfull tr'"
  by (auto simp: overfull_def)

lemma overfull_Cons [simp]: "overfull ((c, r) # tr) \<longleftrightarrow> (case c of
     ServiceRead _ ids \<Rightarrow> length ids < length (cr_dataValues r)
   | ServiceWrite ws \<Rightarrow> length ws < length (cr_statuses r)
   | _ \<Rightarrow> False) \<or> overfull tr"
  by (simp add: overfull_def)

lemma commands_defined_aux:
  assumes "(op, cmd) \<in> set commands" and "ce_sec env = security_flags argv" and "request_ms argv \<noteq> None"
    and "argv = [] \<or> last argv \<notin> {''--node'', ''--type'', ''--value'', ''--trust-list''}"
  shows "runs anything (cmd env api argv) (if_returned (\<lambda>res new. defined res \<or> overfull new))"
proof -
  have trust: "gs_trustCount (ce_sec env) \<le> length (gs_trustFiles (ce_sec env))"
    using assms(2,4) by (auto simp: security_flags_def Let_def collect_flag_length)
  have len: "length (collect_flag MAX_NODES argv f) = min MAX_NODES (count_flag argv f)" if "f \<in> {''--node'', ''--type'', ''--value''}" for f
    using that assms(4) by (intro collect_flag_length) auto
  note rules = runs_bindI runs_return runs_performI runs_mono [OF resolve_node_ids_defined [OF trust]]
    runs_mono [OF make_client_defined [OF trust]] runs_mono [OF close_any] runs_mono [OF resolve_one_any] runs_mono [OF browse_rest_any]
  have "runs anything (cmd_read env api argv) (if_returned (\<lambda>res new. defined res \<or> overfull new))"
    unfolding cmd_read_def Let_def using assms(3) by (auto simp: len min_less_iff_disj split: option.split sum.split prod.split intro!: rules)
  moreover have "runs anything (cmd_write env api argv) (if_returned (\<lambda>res new. defined res \<or> overfull new))"
    unfolding cmd_write_def Let_def using assms(3) by (auto simp: len min_less_iff_disj split: option.split sum.split prod.split intro!: rules)
  moreover have "runs anything (cmd_browse env api argv) (if_returned (\<lambda>res new. defined res \<or> overfull new))"
    unfolding cmd_browse_def Let_def connect_command_def using assms(3) by (auto split: option.split sum.split list.split intro!: rules)
  moreover have "runs anything (cmd_call env api argv) (if_returned (\<lambda>res new. defined res \<or> overfull new))"
    unfolding cmd_call_def Let_def connect_command_def resolve_both_def using assms(3) by (auto split: option.split sum.split prod.split intro!: rules)
  ultimately show ?thesis using assms(1) by (auto simp: commands_def)
qed

text \<open>C16 The only ways to an undefined outcome. A run of read, write, browse or call reads an array slot
  that was not written, or overflows an int, only if the timeout in milliseconds does not fit in an
  int, or a repeatable flag is the last argument (it is then counted although it has no value), or the server
  answered a Read or a Write with more results than were asked for. In every other run the outcome is defined,
  whatever the server answers.\<close>

theorem commands_defined:
  assumes "(op, cmd) \<in> set commands" and "ce_sec env = security_flags argv"
    and "run_state (cmd env api argv) (s, []) = (res, s', calls)"
  shows "res = Some Undefined \<longrightarrow> request_ms argv = None \<or>
    (argv \<noteq> [] \<and> last argv \<in> {''--node'', ''--type'', ''--value'', ''--trust-list''}) \<or> overfull calls"
proof (rule ccontr)
  assume n: "\<not> ?thesis"
  then have "request_ms argv \<noteq> None" "argv = [] \<or> last argv \<notin> {''--node'', ''--type'', ''--value'', ''--trust-list''}" by auto
  from runsD [OF commands_defined_aux [OF assms(1,2) this] TrueI assms(3)] n show False by (cases res) auto
qed

text \<open>Each of the three happens. A flag that is the last argument is counted, but has no slot.\<close>

definition last_flag_argv :: "string list" where
  "last_flag_argv = [''--endpoint'', ''opc.tcp://h'', ''--node'', ''i=85'', ''--type'', ''Int32'', ''--value'']"

lemma last_flag_sec: "security_flags last_flag_argv = g_sec"
  by (simp add: security_flags_def last_flag_argv_def g_sec_def Let_def eval_nat_numeral flag_or_def int_flag_or_def)

lemma write_reads_unwritten_slot:
  "\<exists>calls. run_state (cmd_write plain_env open_server last_flag_argv) ((), []) = (Some Undefined, (), calls)"
proof -
  obtain calls where "run_state (make_client 1 plain_stack (\<lambda>_. Inl []) (\<lambda>_. None) open_server g_sec ''opc.tcp://h'' 5000 ''write'') ((), [])
      = (Some (Inr (client_settings (\<lambda>_. Inl []) (\<lambda>_. None) g_sec 5000)), (), calls)"
    using open_connects by blast
  then show ?thesis
    by (simp add: last_flag_argv_def cmd_write_def request_ms_def parse_int_flag_def eval_nat_numeral resolve_node_ids_def validate_nodeid_structure_def isdigit_def
        connect_command_def plain_env_def resolve_one_def Let_def)
qed

theorem commands_defined_witness:
  "\<exists>calls. run_state (cmd_write plain_env open_server last_flag_argv) ((), []) = (Some Undefined, (), calls) \<and>
    (request_ms last_flag_argv = None \<or>
     (last_flag_argv \<noteq> [] \<and> last last_flag_argv \<in> {''--node'', ''--type'', ''--value'', ''--trust-list''}) \<or> overfull calls)"
proof -
  obtain calls where r: "run_state (cmd_write plain_env open_server last_flag_argv) ((), []) = (Some Undefined, (), calls)"
    using write_reads_unwritten_slot ..
  have "(''write'', cmd_write) \<in> set commands" "ce_sec plain_env = security_flags last_flag_argv"
    by (simp_all add: commands_def plain_env_def last_flag_sec)
  from commands_defined [OF this r] r show ?thesis by blast
qed

text \<open>A server that answers every Read with two values: the second has no node to be printed with.\<close>

definition generous_server :: "unit client" where
  "generous_server s c = ((fst (open_server s c))\<lparr>cr_dataValues := replicate 2 (DataValue False EmptyVariant None None None None None)\<rparr>, ())"

lemma read_prints_unwritten_slot:
  "\<exists>calls. run_state (cmd_read plain_env generous_server read_argv) ((), []) = (Some Undefined, (), calls) \<and> overfull calls"
proof -
  have "\<exists>calls. run_state (make_client 1 plain_stack (\<lambda>_. Inl []) (\<lambda>_. None) generous_server g_sec ''opc.tcp://h'' 5000 ''read'') ((), [])
      = (Some (Inr (client_settings (\<lambda>_. Inl []) (\<lambda>_. None) g_sec 5000)), (), calls)"
    by (simp add: make_client_def make_client_unconnected_def endpoint_check_security_def perform_def generous_server_def open_server_def client_ret_good_def
      g_sec_def security_policy_known_iff policy_names_def security_is_none_def security_mode_enum_def endpoint_matches_def security_policy_uri_def policy_table_def)
  then obtain calls where "run_state (make_client 1 plain_stack (\<lambda>_. Inl []) (\<lambda>_. None) generous_server g_sec ''opc.tcp://h'' 5000 ''read'') ((), [])
      = (Some (Inr (client_settings (\<lambda>_. Inl []) (\<lambda>_. None) g_sec 5000)), (), calls)" ..
  then show ?thesis
    by (simp add: cmd_read_def read_arguments resolve_node_ids_def validate_nodeid_structure_def isdigit_def connect_command_def plain_env_def
        resolve_one_def perform_def generous_server_def open_server_def client_ret_good_def plain_good Let_def)
qed

lemma timeout_overflows:
  assumes "find_arg argv ''--endpoint'' \<noteq> None" and "INT_MAX < parse_int_flag argv ''--request-timeout'' 5 * 1000"
  shows "run_state (cmd_read env api argv) (s, tr) = (Some Undefined, s, tr)"
  using assms by (auto simp: cmd_read_def request_ms_def Let_def)

section \<open>What write sends\<close>

lemma find_arg_skip: "a \<noteq> flag \<Longrightarrow> find_arg (a # argv) flag = find_arg argv flag"
  by (cases argv) auto

lemma collect_flag_skip: "a \<noteq> flag \<Longrightarrow> collect_flag limit (a # argv) flag = collect_flag limit argv flag"
  by (cases limit; cases argv) auto

lemma collect_flag_hit:
  "collect_flag limit (flag # v # argv) flag = (if limit = 0 then [] else v # collect_flag (limit - 1) (v # argv) flag)"
  by (cases limit) auto

definition write_flags :: "string list" where
  "write_flags = [''--endpoint'', ''--node'', ''--type'', ''--value'', ''--request-timeout'', ''--index-range'']"

fun write_args :: "(string \<times> string \<times> string) list \<Rightarrow> string list" where
  "write_args [] = []"
| "write_args ((n, t, v) # items) = ''--node'' # n # ''--type'' # t # ''--value'' # v # write_args items"

definition no_flags :: "(string \<times> string \<times> string) list \<Rightarrow> bool" where
  "no_flags items \<longleftrightarrow> (\<forall>(n, t, v)\<in>set items. n \<notin> set write_flags \<and> t \<notin> set write_flags \<and> v \<notin> set write_flags)"

lemma write_args_flags:
  assumes "no_flags items"
  shows "count_flag (write_args items) ''--node'' = length items" "count_flag (write_args items) ''--type'' = length items"
    "count_flag (write_args items) ''--value'' = length items"
    "collect_flag limit (write_args items) ''--node'' = take limit (map fst items)"
    "collect_flag limit (write_args items) ''--type'' = take limit (map (fst \<circ> snd) items)"
    "collect_flag limit (write_args items) ''--value'' = take limit (map (snd \<circ> snd) items)"
    "f \<in> {''--endpoint'', ''--request-timeout'', ''--index-range''} \<Longrightarrow> find_arg (write_args items) f = None"
  using assms
  by (induction items arbitrary: limit)
    (auto simp: no_flags_def write_flags_def find_arg_skip collect_flag_skip collect_flag_hit take_Cons')

definition write_argv :: "string \<Rightarrow> (nodeid \<times> string \<times> string) list \<Rightarrow> string list" where
  "write_argv url items = ''--endpoint'' # url # write_args (map (\<lambda>i. (canonical_text (fst i), snd i)) items)"

lemma canonical_head: "(\<exists>r. canonical_text n = CHR ''i'' # r) \<or> (\<exists>r. canonical_text n = CHR ''n'' # CHR ''s'' # CHR ''='' # r)"
  using canonical_ns [of n] canonical_numeric [of n] by (cases "ns_prefix n = []") auto

lemma canonical_plain: "canonical_text n \<notin> set write_flags" "\<not> starts_with ''nsu='' (canonical_text n)"
  using canonical_head [of n] by (auto simp: write_flags_def)

lemma write_argv_flags:
  assumes "url \<notin> set write_flags" and "\<forall>(n, t, v)\<in>set items. t \<notin> set write_flags \<and> v \<notin> set write_flags" and "length items \<le> MAX_NODES"
  shows "find_arg (write_argv url items) ''--endpoint'' = Some url" "request_ms (write_argv url items) = Some 5000" "index_range (write_argv url items) = None"
    "f \<in> {''--node'', ''--type'', ''--value''} \<Longrightarrow> count_flag (write_argv url items) f = length items"
    "collect_flag MAX_NODES (write_argv url items) ''--node'' = map (canonical_text \<circ> fst) items"
    "collect_flag MAX_NODES (write_argv url items) ''--type'' = map (fst \<circ> snd) items"
    "collect_flag MAX_NODES (write_argv url items) ''--value'' = map (snd \<circ> snd) items"
proof -
  let ?texts = "map (\<lambda>i. (canonical_text (fst i), snd i)) items"
  have n: "no_flags ?texts" using assms(2) canonical_plain(1) by (fastforce simp: no_flags_def)
  have u: "url \<noteq> f" if "f \<in> set write_flags" for f using that assms(1) by auto
  note a = write_args_flags [OF n] u [unfolded write_flags_def] find_arg_skip collect_flag_skip
  show "find_arg (write_argv url items) ''--endpoint'' = Some url" by (simp add: write_argv_def)
  show "request_ms (write_argv url items) = Some 5000" by (simp add: write_argv_def request_ms_def parse_int_flag_def a)
  show "index_range (write_argv url items) = None" by (simp add: write_argv_def index_range_def a)
  show "f \<in> {''--node'', ''--type'', ''--value''} \<Longrightarrow> count_flag (write_argv url items) f = length items"
    by (auto simp add: write_argv_def a)
  show "collect_flag MAX_NODES (write_argv url items) ''--node'' = map (canonical_text \<circ> fst) items"
    "collect_flag MAX_NODES (write_argv url items) ''--type'' = map (fst \<circ> snd) items"
    "collect_flag MAX_NODES (write_argv url items) ''--value'' = map (snd \<circ> snd) items"
    using assms(3) by (auto simp: write_argv_def a comp_def split_def)
qed

lemma resolve_all_local:
  "\<forall>n\<in>set ns. readable_nid (nid n) \<Longrightarrow> resolve_all api (map canonical_text ns) = State_Monad.return (Inr ns)"
  by (induction ns) (simp_all add: resolve_one_def canonical_plain local_of_canonical)

definition write_request :: "client_env \<Rightarrow> (nodeid \<times> string \<times> string) list \<Rightarrow> client_call" where
  "write_request env items = ServiceWrite (map (\<lambda>(n, t, v). \<lparr>wv_nodeId = n, wv_attributeId = UA_ATTRIBUTEID_VALUE, wv_indexRange = None,
     wv_value = build_write_variant (ce_cjson env) (ce_stack env) (Some t) (Some v)\<rparr>) items)"


lemma open_connects_env: "\<exists>cfg calls. run_state (connect_command plain_env open_server url ms op) ((), []) = (Some (Inr cfg), (), calls)"
  using open_connects [of url ms op "[]"] by (auto simp: connect_command_def plain_env_def)


section \<open>What browse collects\<close>

text \<open>A server that hands out the pages one by one, each under the continuation point of the one before.\<close>

fun serves_pages :: "'s client \<Rightarrow> 's \<Rightarrow> ua_bytes \<Rightarrow> reference_description list list \<Rightarrow> bool" where
  "serves_pages api s cp [] = (\<not> has_more cp)"
| "serves_pages api s cp (page # pages) = (has_more cp \<and> (case api s (ServiceBrowseNext cp) of (r, s') \<Rightarrow> cr_status r = GOOD \<and>
     (case cr_browseResults r of [] \<Rightarrow> False
      | b # _ \<Rightarrow> brs_references b = page \<and> serves_pages api s' (brs_continuationPoint b) pages)))"

lemma browse_rest_pages:
  "serves_pages api s cp pages \<Longrightarrow> length pages < rounds \<Longrightarrow>
    \<exists>s' calls. run_state (browse_rest rounds api cp refs) (s, tr) = (Some (refs @ concat pages), s', calls)"
proof (induction rounds arbitrary: s cp pages refs tr)
  case (Suc rounds)
  show ?case
  proof (cases pages)
    case (Cons page rest)
    with Suc.prems obtain r s1 b bs where "api s (ServiceBrowseNext cp) = (r, s1)" "cr_status r = GOOD" "cr_browseResults r = b # bs" "has_more cp"
      "brs_references b = page" "serves_pages api s1 (brs_continuationPoint b) rest" by (auto split: prod.splits list.splits)
    with Suc.IH [of s1 "brs_continuationPoint b" rest "refs @ page"] Suc.prems(2) Cons show ?thesis by (simp add: perform_def)
  qed (use Suc.prems in simp)
qed simp

text \<open>C11 Browse collects everything: against a server that answers Browse with a first page and hands out
  the other pages under continuation points, the command ends, with as many rounds as there are
  pages, and prints the references of all pages in their order, with exit code 0.\<close>

theorem browse_complete:
  assumes "find_arg argv ''--endpoint'' = Some url" and "find_arg argv ''--node'' = Some (canonical_text n)" and "readable_nid (nid n)"
    and "request_ms argv = Some ms" and "StatusCode_isGood (ce_stack env) GOOD"
    and "run_state (connect_command env api url ms ''browse'') (s, []) = (Some (Inr cfg), s1, before)"
    and "api s1 (browse_request argv n) = (r, s2)" and "cr_status r = GOOD" and "cr_browseResults r = b # bs" and "brs_statusCode b = GOOD"
    and "serves_pages api s2 (brs_continuationPoint b) pages" and "length pages < ce_rounds env"
  shows "fst (run_state (cmd_browse env api argv) (s, [])) = Some (Exit 0
    (output_begin (Some ''open62541'') (Some ''browse'') @ output_success True @ output_service_result (ce_stack env) GOOD
     @ output_browse_results (brs_references b @ concat pages) @ output_end))"
proof -
  have st: "browse_status (ce_stack env) r = GOOD" using assms(8,9,10) by (simp add: browse_status_def)
  obtain s3 calls where p: "run_state (browse_rest (ce_rounds env) api (brs_continuationPoint b) (brs_references b)) (s2, before @ [(browse_request argv n, r)])
      = (Some (brs_references b @ concat pages), s3, calls)"
    using browse_rest_pages [OF assms(11,12)] by blast
  show ?thesis using assms(1,2,4,5,6,7,9) st p local_of_canonical [OF assms(3)] canonical_plain(2) [of n]
    by (simp add: cmd_browse_def resolve_one_def perform_def close_client_def browse_outcome_def service_exit_def Let_def split: prod.split)
qed

text \<open>The open server with a node that has one reference, on a second page.\<close>

definition one_reference :: reference_description where
  "one_reference = \<lparr>rd_referenceTypeId = nodeid_numeric 0 35, rd_isForward = True,
     rd_nodeId = \<lparr>serverIndex = 0, namespaceUri = None, en_nodeId = nodeid_numeric 0 2253\<rparr>,
     rd_browseName = \<lparr>qn_namespaceIndex = 0, qn_name = Some ''Server''\<rparr>, rd_displayName = \<lparr>lt_locale = None, lt_text = Some ''Server''\<rparr>,
     rd_nodeClass = NC_Object\<rparr>"

definition paging_server :: "unit client" where
  "paging_server s c = (case c of
     ServiceBrowse _ _ \<Rightarrow> (client_ret_good\<lparr>cr_browseResults := [\<lparr>brs_statusCode = GOOD, brs_references = [], brs_continuationPoint = Some [1]\<rparr>]\<rparr>, s)
   | ServiceBrowseNext _ \<Rightarrow> (client_ret_good\<lparr>cr_browseResults := [\<lparr>brs_statusCode = GOOD, brs_references = [one_reference], brs_continuationPoint = None\<rparr>]\<rparr>, s)
   | _ \<Rightarrow> open_server s c)"

lemma paging_connects:
  "\<exists>cfg calls. run_state (connect_command (plain_env\<lparr>ce_rounds := 2\<rparr>) paging_server url ms op) ((), []) = (Some (Inr cfg), (), calls)"
  by (simp add: connect_command_def plain_env_def make_client_def make_client_unconnected_def endpoint_check_security_def perform_def paging_server_def
      open_server_def client_ret_good_def g_sec_def security_policy_known_iff policy_names_def security_is_none_def security_mode_enum_def
      endpoint_matches_def security_policy_uri_def policy_table_def)

theorem browse_complete_witness:
  "fst (run_state (cmd_browse (plain_env\<lparr>ce_rounds := 2\<rparr>) paging_server [''--endpoint'', ''opc.tcp://h'', ''--node'', canonical_text (nodeid_numeric 0 85)]) ((), []))
    = Some (Exit 0 (output_begin (Some ''open62541'') (Some ''browse'') @ output_success True @ output_service_result plain_stack GOOD
       @ output_browse_results [one_reference] @ output_end))"
proof -
  let ?argv = "[''--endpoint'', ''opc.tcp://h'', ''--node'', canonical_text (nodeid_numeric 0 85)]"
  let ?b = "\<lparr>brs_statusCode = GOOD, brs_references = [], brs_continuationPoint = Some [1]\<rparr>"
  obtain cfg calls where c: "run_state (connect_command (plain_env\<lparr>ce_rounds := 2\<rparr>) paging_server ''opc.tcp://h'' 5000 ''browse'') ((), []) = (Some (Inr cfg), (), calls)"
    using paging_connects by blast
  have a: "find_arg ?argv ''--endpoint'' = Some ''opc.tcp://h''" "find_arg ?argv ''--node'' = Some (canonical_text (nodeid_numeric 0 85))" "request_ms ?argv = Some 5000"
    using canonical_plain(1) [of "nodeid_numeric 0 85"] by (simp_all add: request_ms_def parse_int_flag_def write_flags_def)
  have g: "StatusCode_isGood (ce_stack (plain_env\<lparr>ce_rounds := 2\<rparr>)) GOOD" by (simp add: plain_env_def plain_good)
  have w: "paging_server () (browse_request ?argv (nodeid_numeric 0 85)) = (client_ret_good\<lparr>cr_browseResults := [?b]\<rparr>, ())"
    "serves_pages paging_server () (brs_continuationPoint ?b) [[one_reference]]"
    by (simp_all add: paging_server_def browse_request_def client_ret_good_def has_more_def)
  from browse_complete [OF a(1,2) _ a(3) g c w(1) _ _ _ w(2)] show ?thesis
    by (simp add: nodeid_numeric_def client_ret_good_def plain_env_def)
qed

text \<open>A page that cannot be fetched ends the loop like the last one: the command then reports success
  with the references it has.\<close>

lemma browse_rest_hides_failure:
  assumes "has_more cp" and "api s (ServiceBrowseNext cp) = (r, s')" and "cr_status r \<noteq> GOOD \<or> cr_browseResults r = []"
  shows "fst (run_state (browse_rest (Suc rounds) api cp refs) (s, tr)) = Some refs"
  using assms by (auto simp: perform_def split: list.split)

end
