(* ===== verification/Client_Sessions.thy ===== *)
theory Client_Sessions
  imports Client_Commands
begin

text \<open>
  What the statements about whole commands share: the calls that are made inside a session, those that
  call no method, and the parts of connecting and closing.
\<close>

section \<open>Calls inside a session\<close>

text \<open>The services, and the calls that touch no session: the clocks, waiting, and running the event loop.\<close>

fun in_session :: "client_call \<Rightarrow> bool" where
  "in_session MonoMs = True"
| "in_session (SleepMs _) = True"
| "in_session TimeSeconds = True"
| "in_session NowMonotonic = True"
| "in_session (RunIterate _) = True"
| "in_session c = is_service c"

definition inside :: "(client_call \<times> client_ret) list \<Rightarrow> bool" where
  "inside new \<longleftrightarrow> list_all (\<lambda>e. in_session (fst e)) new"

lemma inside_simps [simp]: "inside []" "inside (e # new) \<longleftrightarrow> in_session (fst e) \<and> inside new" "inside (a @ b) \<longleftrightarrow> inside a \<and> inside b"
  by (auto simp: inside_def)

lemma in_session_service: "is_service c \<Longrightarrow> in_session c"
  by (cases c) auto

lemma inside_live: "inside new \<Longrightarrow> live p \<Longrightarrow> live (session_after p new)"
proof (induction new arbitrary: p)
  case (Cons e new)
  then have "live (session_step p e)" by (cases e; cases "fst e") auto
  with Cons show ?case by simp
qed simp

lemma runs_both:
  assumes "runs P m Q" and "runs P m R"
  shows "runs P m (\<lambda>x new. Q x new \<and> R x new)"
proof (rule runsI)
  fix s tr x s' tr' assume "P s" "run_state m (s, tr) = (x, s', tr')"
  from runsD [OF assms(1) this] runsD [OF assms(2) this] show "P s' \<and> (\<exists>new. tr' = tr @ new \<and> Q x new \<and> R x new)" by auto
qed

section \<open>Methods\<close>

fun is_method :: "client_call \<Rightarrow> bool" where
  "is_method (CallMethod _ _ _) = True"
| "is_method _ = False"

definition silent :: "(client_call \<times> client_ret) list \<Rightarrow> bool" where
  "silent new \<longleftrightarrow> list_all (\<lambda>e. \<not> is_method (fst e)) new"

lemma silent_simps [simp]: "silent []" "silent (e # new) \<longleftrightarrow> \<not> is_method (fst e) \<and> silent new" "silent (a @ b) \<longleftrightarrow> silent a \<and> silent b"
  by (auto simp: silent_def)

section \<open>Connecting and closing\<close>

text \<open>The calls that connecting and closing are made of.\<close>

fun preparing :: "client_call \<Rightarrow> bool" where
  "preparing (GetEndpoints _) = True"
| "preparing ConfigSetDefault = True"
| "preparing (ConfigSetDefaultEncryption _ _ _) = True"
| "preparing (DecryptPrivateKey _) = True"
| "preparing (PolicyArrayHas _ _) = True"
| "preparing (EccPolicyConstruct _ _ _ _) = True"
| "preparing (Connect _ _) = True"
| "preparing (ConnectSecureChannel _ _) = True"
| "preparing MonoMs = True"
| "preparing GetState = True"
| "preparing (RunIterate _) = True"
| "preparing (StartListeningForReverseConnect _ _ _) = True"
| "preparing (ReadValueAttribute _) = True"
| "preparing Disconnect = True"
| "preparing ClientDelete = True"
| "preparing _ = False"

definition prepared :: "(client_call \<times> client_ret) list \<Rightarrow> bool" where
  "prepared new \<longleftrightarrow> list_all (\<lambda>e. preparing (fst e)) new"

lemma prepared_simps [simp]: "prepared []" "prepared (e # new) \<longleftrightarrow> preparing (fst e) \<and> prepared new" "prepared (a @ b) \<longleftrightarrow> prepared a \<and> prepared b"
  by (auto simp: prepared_def)

lemma prepared_endpoint_check: "runs anything (endpoint_check_security api sec url) (\<lambda>_. prepared)"
  by (auto simp: endpoint_check_security_def intro!: runs_calculus)

lemma prepared_encryption: "runs anything (configure_encryption fs api sec trust) (\<lambda>_. prepared)"
  by (auto simp: configure_encryption_def policy_array_add_ecc_def Let_def intro!: runs_calculus)

lemma prepared_close_wait: "runs anything (close_wait rounds api deadline ch) (\<lambda>_. prepared)"
  by (induction rounds arbitrary: ch) (auto intro!: runs_calculus)

lemma prepared_listen_wait: "runs anything (listen_wait rounds api want_session deadline listening) (\<lambda>_. prepared)"
  by (induction rounds arbitrary: listening) (auto simp: Let_def intro!: runs_calculus)

lemma prepared_reverse_rounds: "runs anything (reverse_rounds rounds api cfg lport want_session deadline) (\<lambda>_. prepared)"
proof (induction rounds)
  case (Suc rounds)
  show ?case
    by (auto split: option.splits listen_result.splits
        intro!: runs_calculus runs_mono [OF prepared_close_wait] runs_mono [OF prepared_listen_wait] runs_mono [OF Suc.IH])
qed (auto intro!: runs_calculus)

lemma prepared_reverse_connect: "runs anything (reverse_connect rounds api sec cfg want_session) (\<lambda>_. prepared)"
  unfolding reverse_connect_def by (auto simp: Let_def intro!: runs_calculus runs_mono [OF prepared_reverse_rounds])

lemma prepared_unconnected: "runs anything (make_client_unconnected st fs names api sec url ms op) (\<lambda>_. prepared)"
  unfolding make_client_unconnected_def
  by (auto split: option.split intro!: runs_calculus runs_mono [OF prepared_endpoint_check] runs_mono [OF prepared_encryption])

lemma prepared_make_client: "runs anything (make_client rounds st fs names api sec url ms op) (\<lambda>_. prepared)"
  unfolding make_client_def reverse_check_server_uri_def
  by (auto split: option.split sum.split intro!: runs_calculus runs_mono [OF prepared_unconnected] runs_mono [OF prepared_reverse_connect])

lemma prepared_channel_client: "runs anything (cli_make_channel_client st fs names api sec url ms op) (\<lambda>_. prepared)"
  unfolding cli_make_channel_client_def
  by (auto simp: Let_def split: sum.split intro!: runs_calculus runs_mono [OF prepared_unconnected])

lemma prepared_close: "runs anything (close_client api) (\<lambda>_. prepared)"
  by (auto simp: close_client_def intro!: runs_calculus)

text \<open>So they contain no call of another kind, a method for instance.\<close>

lemma prepared_none:
  assumes "\<And>c. preparing c \<Longrightarrow> \<not> kind c" and "prepared new"
  shows "filter (\<lambda>e. kind (fst e)) new = []"
  using assms by (auto simp: prepared_def list_all_iff filter_empty_conv)

lemma preparing_no_method: "preparing c \<Longrightarrow> \<not> is_method c"
  by (cases c) auto

lemma prepared_silent: "prepared new \<Longrightarrow> silent new"
  by (auto simp: prepared_def silent_def list_all_iff preparing_no_method)

lemma silent_make_client: "runs anything (make_client rounds st fs names api sec url ms op) (\<lambda>_. silent)"
  by (rule runs_mono [OF prepared_make_client prepared_silent])

lemma silent_close: "runs anything (close_client api) (\<lambda>_. silent)"
  by (rule runs_mono [OF prepared_close prepared_silent])

end
