(* ===== verification/Push.thy ===== *)
theory Push
  imports Client_Sessions
begin

text \<open>
  push.c: push certificate management. The command reads the TrustList of a certificate group, runs the
  methods its flags ask for on one session, stopping at the first one that fails, applies or
  cancels the transaction, and reports every status. Each method call of the source is a record
  of its object, method, inputs and the members it adds to the result; the command runs them in
  the order of the source.
\<close>

text \<open>What the command is given besides the environment of every command: OpenSSL's certificate
  functions and the binary encoder and decoders of the stack.\<close>

record 'x p12_env =
  pe_client :: client_env
  pe_x509 :: "'x x509_lib"
  pe_decodeTrustList :: "byte list \<Rightarrow> TrustListDataType option"
  pe_decodeNodeId :: "byte list \<Rightarrow> nodeid option"
  pe_decodeLocalizedText :: "byte list \<Rightarrow> ltext option"
  pe_encode :: "ua_val \<Rightarrow> byte list option"

abbreviation PUSH_SERVER_CONFIGURATION :: u32 where "PUSH_SERVER_CONFIGURATION \<equiv> 12637"
abbreviation PUSH_UPDATE_CERTIFICATE :: u32 where "PUSH_UPDATE_CERTIFICATE \<equiv> 13737"
abbreviation PUSH_CREATE_SIGNING_REQUEST :: u32 where "PUSH_CREATE_SIGNING_REQUEST \<equiv> 12737"
abbreviation PUSH_GET_REJECTED_LIST :: u32 where "PUSH_GET_REJECTED_LIST \<equiv> 12777"
abbreviation PUSH_APPLY_CHANGES :: u32 where "PUSH_APPLY_CHANGES \<equiv> 12740"
abbreviation PUSH_GET_CERTIFICATES :: u32 where "PUSH_GET_CERTIFICATES \<equiv> 32333"
abbreviation PUSH_CREATE_SELF_SIGNED :: u32 where "PUSH_CREATE_SELF_SIGNED \<equiv> 19342"
abbreviation PUSH_DELETE_CERTIFICATE :: u32 where "PUSH_DELETE_CERTIFICATE \<equiv> 19345"
abbreviation PUSH_CANCEL_CHANGES :: u32 where "PUSH_CANCEL_CHANGES \<equiv> 25708"
abbreviation PUSH_RESET_TO_SERVER_DEFAULTS :: u32 where "PUSH_RESET_TO_SERVER_DEFAULTS \<equiv> 25709"
abbreviation PUSH_TRUST_LIST_MASKS_ALL :: u32 where "PUSH_TRUST_LIST_MASKS_ALL \<equiv> 15"

definition kTxDiagnostics :: "u32 list" where
  "kTxDiagnostics = [32337, 32338, 32339, 32340, 32341, 32342]"

section \<open>Arguments\<close>

record PushArgs =
  pa_group :: u32
  pa_defaultType :: u32
  pa_certTypeStr :: cstr
  pa_add :: "byte list" \<comment> \<open>empty when absent\<close>
  pa_remove :: cstr
  pa_issuer :: bool
  pa_csr :: bool
  pa_apply :: bool
  pa_cancel :: bool
  pa_getCerts :: bool
  pa_selfSigned :: bool
  pa_reset :: bool
  pa_diagnostics :: bool
  pa_subject :: cstr
  pa_dns :: "string list"
  pa_ip :: "string list"
  pa_lifetimeDays :: u16
  pa_keySize :: u16
  pa_deleteType :: cstr
  pa_update :: "byte list option" \<comment> \<open>the certificate of --update-certificate\<close>
  pa_key :: "(string \<times> byte list) option" \<comment> \<open>format and bytes of --update-private-key\<close>
  pa_issuers :: "byte list list"

definition push_group :: "cstr \<Rightarrow> (u32 \<times> u32) res" where
  "push_group grp =
    (if grp = None \<or> grp = Some ''Application'' then Inr (14156, 12560)
     else if grp = Some ''Https'' then Inr (14088, 12558)
     else if grp = Some ''UserToken'' then Inr (14122, 15181)
     else Inl (''--group must be Application, Https or UserToken, got '' @ bytes_of_string grp))"

definition tolower :: "char \<Rightarrow> char" where
  "tolower c = (if 65 \<le> (of_char c :: nat) \<and> (of_char c :: nat) \<le> 90 then char_of ((of_char c :: nat) + 32) else c)"

definition ends_with_ci :: "string \<Rightarrow> string \<Rightarrow> bool" where
  "ends_with_ci s suffix \<longleftrightarrow> length suffix \<le> length s \<and>
     map tolower (drop (length s - length suffix) s) = map tolower suffix"

text \<open>A flag that is not given, or whose text passes the check.\<close>

definition nodeid_flag :: "cstr \<Rightarrow> cstr res" where
  "nodeid_flag s = (case s of None \<Rightarrow> Inr None
     | Some t \<Rightarrow> if validate_nodeid_structure (Some t) then Inr (Some t) else Inl (''malformed NodeId: '' @ quoted t))"

definition cert_flag :: "'x p12_env \<Rightarrow> string \<Rightarrow> cstr \<Rightarrow> byte list option res" where
  "cert_flag env flag f = (case f of None \<Rightarrow> Inr None
     | Some path \<Rightarrow> (case p12_read_certificate (pe_x509 env) (ce_files (pe_client env)) path of
          Some der \<Rightarrow> Inr (Some der)
        | None \<Rightarrow> Inl (flag @ '' '' @ path @ '': cannot read a PEM or DER certificate'')))"

definition uint16_flag :: "string list \<Rightarrow> string \<Rightarrow> u64 \<Rightarrow> u16 res" where
  "uint16_flag argv flag def = (case find_arg argv flag of None \<Rightarrow> Inr (ucast def)
     | Some s \<Rightarrow> (case p12_parse_uint (Some s) 65535 of
          Some v \<Rightarrow> Inr (ucast v)
        | None \<Rightarrow> Inl (flag @ '' must be a UInt16, got '' @ s)))"

definition key_flag :: "'x p12_env \<Rightarrow> string list \<Rightarrow> (string \<times> byte list) option res" where
  "key_flag env argv = (case find_arg argv ''--update-private-key'' of None \<Rightarrow> Inr None
     | Some keyFile \<Rightarrow>
        (let given = find_arg argv ''--private-key-format'' in
         if given \<noteq> None \<and> given \<noteq> Some ''PEM'' \<and> given \<noteq> Some ''PFX'' then
           Inl (''--private-key-format must be PEM or PFX, got '' @ bytes_of_string given)
         else
           let fmt = (case given of Some f \<Rightarrow> f
                      | None \<Rightarrow> if ends_with_ci keyFile ''.pfx'' \<or> ends_with_ci keyFile ''.p12'' then ''PFX'' else ''PEM'') in
           (case p12_read_file (ce_files (pe_client env)) keyFile of
              Some key \<Rightarrow> Inr (Some (fmt, key))
            | None \<Rightarrow> Inl (''--update-private-key '' @ keyFile @ '': cannot read the file''))))"

definition issuer_flag :: "'x p12_env \<Rightarrow> string \<Rightarrow> byte list res" where
  "issuer_flag env path = (case p12_read_certificate (pe_x509 env) (ce_files (pe_client env)) path of
     Some der \<Rightarrow> Inr der
   | None \<Rightarrow> Inl (''--issuer-certificate '' @ path @ '': cannot read a PEM or DER certificate''))"

definition and_then :: "'a res \<Rightarrow> ('a \<Rightarrow> 'b res) \<Rightarrow> 'b res" where
  "and_then r f = (case r of Inl e \<Rightarrow> Inl e | Inr x \<Rightarrow> f x)"

text \<open>The checks in the order of the source; the first one that fails gives the message.\<close>

definition push_parse :: "'x p12_env \<Rightarrow> string list \<Rightarrow> PushArgs res" where
  "push_parse env argv =
    (if find_arg argv ''--endpoint'' = None then Inl ''--endpoint is required''
     else and_then (push_group (find_arg argv ''--group'')) (\<lambda>(grp, defaultType).
       and_then (nodeid_flag (find_arg argv ''--certificate-type-id'')) (\<lambda>certType.
       and_then (nodeid_flag (find_arg argv ''--delete-certificate'')) (\<lambda>deleteType.
       and_then (cert_flag env ''--add-certificate'' (find_arg argv ''--add-certificate'')) (\<lambda>add.
       and_then (uint16_flag argv ''--lifetime-days'' 365) (\<lambda>lifetimeDays.
       and_then (uint16_flag argv ''--key-size'' 0) (\<lambda>keySize.
         if find_arg argv ''--update-private-key'' \<noteq> None \<and> find_arg argv ''--update-certificate'' = None
         then Inl ''--update-private-key needs --update-certificate''
         else and_then (cert_flag env ''--update-certificate'' (find_arg argv ''--update-certificate'')) (\<lambda>upd.
           and_then (key_flag env argv) (\<lambda>key.
           and_then (map_res (issuer_flag env) (p12_all_values argv ''--issuer-certificate'')) (\<lambda>issuers.
             let applying = p12_has_flag argv ''--apply''; selfSigned = p12_has_flag argv ''--create-self-signed'' in
             Inr \<lparr>pa_group = grp, pa_defaultType = defaultType, pa_certTypeStr = certType,
               pa_add = (case add of Some der \<Rightarrow> der | None \<Rightarrow> []), pa_remove = find_arg argv ''--remove-certificate'',
               pa_issuer = p12_has_flag argv ''--issuer'', pa_csr = p12_has_flag argv ''--csr'', pa_apply = applying,
               pa_cancel = (\<not> applying \<and> (p12_has_flag argv ''--cancel'' \<or> selfSigned \<or> deleteType \<noteq> None)),
               pa_getCerts = p12_has_flag argv ''--get-certificates'', pa_selfSigned = selfSigned,
               pa_reset = p12_has_flag argv ''--reset-to-defaults'', pa_diagnostics = p12_has_flag argv ''--transaction-diagnostics'',
               pa_subject = find_arg argv ''--subject'', pa_dns = p12_all_values argv ''--dns'', pa_ip = p12_all_values argv ''--ip'',
               pa_lifetimeDays = lifetimeDays, pa_keySize = keySize, pa_deleteType = deleteType, pa_update = upd, pa_key = key,
               pa_issuers = issuers\<rparr>))))))))))"

section \<open>The result\<close>

record PushOut =
  po_j :: P12Json
  po_failed :: bool
  po_inputErr :: bool
  po_failSc :: u32
  po_failMsg :: string

definition push_fail :: "PushOut \<Rightarrow> u32 \<Rightarrow> string \<Rightarrow> PushOut" where
  "push_fail out sc what =
    (if po_failed out then out
     else out\<lparr>po_failed := True, po_failSc := sc, po_failMsg := snprintf_buf 256 (what @ '' returned a non-Good status'')\<rparr>)"

definition push_step :: "stack \<Rightarrow> PushOut \<Rightarrow> string \<Rightarrow> u32 \<Rightarrow> bool \<times> PushOut" where
  "push_step st out name sc =
    (let out = out\<lparr>po_j := p12j_status_field st (snprintf_buf 64 (name @ ''Status'')) sc (po_j out)\<rparr> in
     if sc = GOOD then (True, out) else (False, push_fail out sc name))"

definition push_tx_error :: "'x p12_env \<Rightarrow> ua_bytes option \<Rightarrow> P12Json \<Rightarrow> P12Json" where
  "push_tx_error env body j =
    (let bytes = (case body of Some (Some b) \<Rightarrow> b | _ \<Rightarrow> []);
         off = p12_nodeid_encoded_length bytes;
         decoded = (if 0 < off \<and> off + 4 \<le> length bytes then pe_decodeNodeId env bytes else None);
         (target, err, msg) =
           (case decoded of
              Some n \<Rightarrow> (n, case p12_le_i32 bytes off of Some e \<Rightarrow> e | None \<Rightarrow> BADDECODINGERROR,
                case pe_decodeLocalizedText env (drop (off + 4) bytes) of Some t \<Rightarrow> lt_text t | None \<Rightarrow> None)
            | None \<Rightarrow> (nodeid_null, BADDECODINGERROR, None));
         j = p12j_open CHR ''{'' j;
         j = p12j_nodeid target (p12j_key ''targetId'' j);
         j = p12j_status (ce_stack (pe_client env)) err (p12j_key ''error'' j);
         j = p12j_uastr msg (p12j_key ''message'' j)
     in p12j_close CHR ''}'' j)"

definition tx_body :: "'x p12_env \<Rightarrow> ua_type \<Rightarrow> ua_val \<Rightarrow> ua_bytes option" where
  "tx_body env t elem = (case (t, elem) of
     (TExtensionObject, VExtensionObject eo) \<Rightarrow> p12_extension_body (ce_stack (pe_client env)) eo
   | _ \<Rightarrow> map_option Some (pe_encode env elem))"

definition push_tx_errors :: "'x p12_env \<Rightarrow> variant option \<Rightarrow> P12Json \<Rightarrow> P12Json" where
  "push_tx_errors env v j =
    (let j = p12j_open CHR ''['' (p12j_key ''errors'' j);
         j = (case v of
                Some (Array t vs _) \<Rightarrow> fold (\<lambda>elem j. push_tx_error env (tx_body env t elem) (p12j_sep j)) vs j
              | _ \<Rightarrow> j)
     in p12j_close CHR '']'' j)"

definition diag_value :: "datavalue list \<Rightarrow> nat \<Rightarrow> variant option" where
  "diag_value results i = (if dv_hasValue (results ! i) then Some (dv_value (results ! i)) else None)"

definition diag_datetime :: "variant option \<Rightarrow> u64" where
  "diag_datetime v = (case v of Some (Scalar (VDateTime t)) \<Rightarrow> t | _ \<Rightarrow> 0)"

definition diag_result :: "variant option \<Rightarrow> u32" where
  "diag_result v = (case v of Some (Scalar (VStatusCode c)) \<Rightarrow> c | _ \<Rightarrow> GOOD)"

definition diag_json :: "'x p12_env \<Rightarrow> datavalue list \<Rightarrow> P12Json \<Rightarrow> P12Json" where
  "diag_json env results j =
    (let st = ce_stack (pe_client env);
         j = p12j_open CHR ''{'' (p12j_key ''transactionDiagnostics'' j);
         j = p12j_datetime st (diag_datetime (diag_value results 0)) (p12j_key ''startTime'' j);
         j = p12j_datetime st (diag_datetime (diag_value results 1)) (p12j_key ''endTime'' j);
         j = p12j_status_field st ''result'' (diag_result (diag_value results 2)) j;
         j = p12j_nodeid_array_field ''affectedTrustLists'' (diag_value results 3) j;
         j = p12j_nodeid_array_field ''affectedCertificateGroups'' (diag_value results 4) j;
         j = push_tx_errors env (diag_value results 5) j
     in p12j_close CHR ''}'' j)"

text \<open>The first status of the six results that is set and not good.\<close>

definition diag_status :: "u32 \<Rightarrow> datavalue list \<Rightarrow> u32" where
  "diag_status sc results =
    (if sc \<noteq> GOOD then sc
     else if length results \<noteq> 6 then BADUNEXPECTEDERROR
     else case find (\<lambda>dv. dv_status dv \<noteq> None \<and> dv_status dv \<noteq> Some GOOD) results of
         Some dv \<Rightarrow> dv_code dv
       | None \<Rightarrow> GOOD)"

text \<open>The status, whether the connection failed, and the result after it.\<close>

definition push_tx_diagnostics :: "'x p12_env \<Rightarrow> 's client \<Rightarrow> PushOut \<Rightarrow> ('s client_world, u32 \<times> bool \<times> PushOut) state" where
  "push_tx_diagnostics env api out = do {
     resp \<leftarrow> perform api (ServiceRead TS_Neither
       (map (\<lambda>i. \<lparr>rv_nodeId = nodeid_numeric 0 i, rv_attributeId = UA_ATTRIBUTEID_VALUE, rv_indexRange = None\<rparr>) kTxDiagnostics));
     if p12_is_transport (cr_status resp) then State_Monad.return (cr_status resp, True, out)
     else
       let sc = diag_status (cr_status resp) (cr_dataValues resp);
           j = p12j_status_field (ce_stack (pe_client env)) ''transactionDiagnosticsStatus'' sc (po_j out)
       in State_Monad.return (sc, False, out\<lparr>po_j := if sc = GOOD then diag_json env (cr_dataValues resp) j else j\<rparr>)
   }"

section \<open>The steps\<close>

text \<open>A method call of a step: its name in the result, the call, and what a good answer adds to the
  result.\<close>

record push_method =
  pm_name :: string
  pm_object :: nodeid
  pm_method :: nodeid
  pm_inputs :: "variant list"
  pm_result :: "variant list \<Rightarrow> P12Json \<Rightarrow> P12Json"

text \<open>A step that runs a method: either the connection failed, with the status that ends the command,
  or the result after it.\<close>

definition push_call :: "stack \<Rightarrow> 's client \<Rightarrow> push_method \<Rightarrow> PushOut \<Rightarrow> ('s client_world, u32 \<times> PushOut + PushOut) state" where
  "push_call st api pm out = do {
     (sc, outputs) \<leftarrow> p12_call api (pm_object pm) (pm_method pm) (pm_inputs pm);
     State_Monad.return
       (if p12_is_transport sc then Inl (sc, out)
        else case push_step st out (pm_name pm) sc of
            (True, out') \<Rightarrow> Inr (out'\<lparr>po_j := pm_result pm outputs (po_j out')\<rparr>)
          | (False, out') \<Rightarrow> Inr out')
   }"

text \<open>Steps one after the other; none is run after a failure.\<close>

fun push_calls :: "stack \<Rightarrow> 's client \<Rightarrow> push_method list \<Rightarrow> PushOut \<Rightarrow> ('s client_world, u32 \<times> PushOut + PushOut) state" where
  "push_calls st api [] out = State_Monad.return (Inr out)"
| "push_calls st api (pm # pms) out =
    (if po_failed out then State_Monad.return (Inr out)
     else do {
       r \<leftarrow> push_call st api pm out;
       case r of Inl stop \<Rightarrow> State_Monad.return (Inl stop) | Inr out' \<Rightarrow> push_calls st api pms out'
     })"

definition server_method :: "string \<Rightarrow> u32 \<Rightarrow> variant list \<Rightarrow> (variant list \<Rightarrow> P12Json \<Rightarrow> P12Json) \<Rightarrow> push_method" where
  "server_method name m inputs result = \<lparr>pm_name = name, pm_object = nodeid_numeric 0 PUSH_SERVER_CONFIGURATION,
     pm_method = nodeid_numeric 0 m, pm_inputs = inputs, pm_result = result\<rparr>"

definition nothing_more :: "variant list \<Rightarrow> P12Json \<Rightarrow> P12Json" where
  "nothing_more outputs j = j"

definition out_arg :: "variant list \<Rightarrow> nat \<Rightarrow> variant option" where
  "out_arg outputs i = (if i < length outputs then Some (outputs ! i) else None)"

definition add_certificate :: "PushArgs \<Rightarrow> nodeid \<Rightarrow> nodeid \<Rightarrow> push_method" where
  "add_certificate a trustList m = \<lparr>pm_name = ''addCertificate'', pm_object = trustList, pm_method = m,
     pm_inputs = [p12v_bytestring (Some (Some (pa_add a))), p12v_bool (\<not> pa_issuer a)], pm_result = nothing_more\<rparr>"

definition remove_certificate :: "PushArgs \<Rightarrow> nodeid \<Rightarrow> nodeid \<Rightarrow> push_method" where
  "remove_certificate a trustList m = \<lparr>pm_name = ''removeCertificate'', pm_object = trustList, pm_method = m,
     pm_inputs = [p12v_string (pa_remove a), p12v_bool (\<not> pa_issuer a)], pm_result = nothing_more\<rparr>"

definition get_certificates :: "nodeid \<Rightarrow> push_method" where
  "get_certificates grp = server_method ''getCertificates'' PUSH_GET_CERTIFICATES [p12v_nodeid grp]
     (\<lambda>outputs j. p12j_b64_array_field ''certificates'' (out_arg outputs 1) (p12j_nodeid_array_field ''certificateTypeIds'' (out_arg outputs 0) j))"

definition create_self_signed :: "PushArgs \<Rightarrow> nodeid \<Rightarrow> nodeid \<Rightarrow> push_method" where
  "create_self_signed a grp certType = server_method ''createSelfSignedCertificate'' PUSH_CREATE_SELF_SIGNED
     [p12v_nodeid grp, p12v_nodeid certType, p12v_string (Some (bytes_of_string (pa_subject a))), p12v_string_array (pa_dns a),
      p12v_string_array (pa_ip a), p12v_uint16 (pa_lifetimeDays a), p12v_uint16 (pa_keySize a)]
     (\<lambda>outputs. p12j_b64_field ''selfSignedCertificate'' (p12_out_bytestring outputs 0))"

definition delete_certificate :: "nodeid \<Rightarrow> nodeid \<Rightarrow> push_method" where
  "delete_certificate grp typeId = server_method ''deleteCertificate'' PUSH_DELETE_CERTIFICATE [p12v_nodeid grp, p12v_nodeid typeId] nothing_more"

definition update_certificate :: "PushArgs \<Rightarrow> byte list \<Rightarrow> nodeid \<Rightarrow> nodeid \<Rightarrow> push_method" where
  "update_certificate a cert grp certType = server_method ''updateCertificate'' PUSH_UPDATE_CERTIFICATE
     [p12v_nodeid grp, p12v_nodeid certType, p12v_bytestring (Some (Some cert)),
      p12v_bytestring_array (if pa_issuers a = [] then None else Some (map Some (pa_issuers a))),
      p12v_string (Some (case pa_key a of Some (fmt, _) \<Rightarrow> fmt | None \<Rightarrow> [])),
      p12v_bytestring (case pa_key a of Some (_, key) \<Rightarrow> Some (Some key) | None \<Rightarrow> None)]
     (\<lambda>outputs j. p12j_raw (if p12_out_bool outputs 0 then ''true'' else ''false'') (p12j_key ''applyChangesRequired'' j))"

definition create_signing_request :: "nodeid \<Rightarrow> nodeid \<Rightarrow> push_method" where
  "create_signing_request grp certType = server_method ''createSigningRequest'' PUSH_CREATE_SIGNING_REQUEST
     [p12v_nodeid grp, p12v_nodeid certType, p12v_string None, p12v_bool False, p12v_bytestring None]
     (\<lambda>outputs. p12j_b64_field ''certificateSigningRequest'' (p12_out_bytestring outputs 0))"

definition get_rejected_list :: push_method where
  "get_rejected_list = server_method ''getRejectedList'' PUSH_GET_REJECTED_LIST []
     (\<lambda>outputs. p12j_b64_array_field ''rejectedCertificates'' (out_arg outputs 0))"

definition reset_to_defaults :: push_method where
  "reset_to_defaults = server_method ''resetToServerDefaults'' PUSH_RESET_TO_SERVER_DEFAULTS [] nothing_more"

definition apply_changes :: push_method where
  "apply_changes = server_method ''applyChanges'' PUSH_APPLY_CHANGES [] nothing_more"

definition cancel_changes :: push_method where
  "cancel_changes = server_method ''cancelChanges'' PUSH_CANCEL_CHANGES [] nothing_more"

definition optional :: "bool \<Rightarrow> 'a \<Rightarrow> 'a list" where
  "optional b x = (if b then [x] else [])"

definition first_methods :: "PushArgs \<Rightarrow> nodeid \<Rightarrow> nodeid \<Rightarrow> nodeid \<Rightarrow> nodeid \<Rightarrow> nodeid \<Rightarrow> push_method list" where
  "first_methods a grp certType trustList addId removeId =
    optional (pa_add a \<noteq> []) (add_certificate a trustList addId)
    @ optional (pa_remove a \<noteq> None) (remove_certificate a trustList removeId)
    @ optional (pa_getCerts a) (get_certificates grp)
    @ optional (pa_selfSigned a) (create_self_signed a grp certType)"

definition push_delete :: "stack \<Rightarrow> 's client \<Rightarrow> PushArgs \<Rightarrow> nodeid \<Rightarrow> PushOut \<Rightarrow> ('s client_world, u32 \<times> PushOut + PushOut) state" where
  "push_delete st api a grp out = (case pa_deleteType a of
     None \<Rightarrow> State_Monad.return (Inr out)
   | Some s \<Rightarrow>
      if po_failed out then State_Monad.return (Inr out)
      else do {
        typeId \<leftarrow> p12_resolve_nodeid api s;
        case typeId of
          Inl _ \<Rightarrow> State_Monad.return (Inl (BADNAMESPACEURIINVALID, out\<lparr>po_inputErr := True,
            po_failMsg := snprintf_buf 256 (''unknown namespace URI in --delete-certificate '' @ quoted s)\<rparr>))
        | Inr n \<Rightarrow> push_calls st api [delete_certificate grp n] out
      })"

definition later_methods :: "PushArgs \<Rightarrow> nodeid \<Rightarrow> nodeid \<Rightarrow> push_method list" where
  "later_methods a grp certType =
    (case pa_update a of Some cert \<Rightarrow> [update_certificate a cert grp certType] | None \<Rightarrow> [])
    @ optional (pa_csr a) (create_signing_request grp certType)
    @ [get_rejected_list]
    @ optional (pa_reset a) reset_to_defaults"

text \<open>Apply, cancel and diagnostics. The diagnostics are read also when ApplyChanges was called and
  failed.\<close>

definition push_diagnose :: "'x p12_env \<Rightarrow> 's client \<Rightarrow> PushArgs \<Rightarrow> bool \<Rightarrow> PushOut \<Rightarrow> ('s client_world, u32 \<times> PushOut + PushOut) state" where
  "push_diagnose env api a applied out =
    (if pa_diagnostics a \<and> (\<not> po_failed out \<or> applied) then do {
       (sc, transport, out) \<leftarrow> push_tx_diagnostics env api out;
       State_Monad.return
         (if transport then Inl (sc, out)
          else if \<not> po_failed out \<and> sc \<noteq> GOOD then Inr (out\<lparr>po_failed := True, po_failSc := sc,
            po_failMsg := snprintf_buf 256 ''reading TransactionDiagnostics returned a non-Good status''\<rparr>)
          else Inr out)
     }
     else State_Monad.return (Inr out))"

definition push_end :: "'x p12_env \<Rightarrow> 's client \<Rightarrow> PushArgs \<Rightarrow> PushOut \<Rightarrow> ('s client_world, u32 \<times> PushOut + PushOut) state" where
  "push_end env api a out = do {
     let st = ce_stack (pe_client env);
     let applied = (\<not> po_failed out \<and> pa_apply a);
     r1 \<leftarrow> push_calls st api (optional (pa_apply a) apply_changes) out;
     case r1 of Inl stop \<Rightarrow> State_Monad.return (Inl stop)
     | Inr out1 \<Rightarrow> do {
         r2 \<leftarrow> push_calls st api (optional (pa_cancel a) cancel_changes) out1;
         case r2 of Inl stop \<Rightarrow> State_Monad.return (Inl stop)
         | Inr out2 \<Rightarrow> push_diagnose env api a applied out2
       }
   }"

text \<open>Reading the TrustList into a member of the result; a failure ends the command.\<close>

definition push_trust_list ::
  "'x p12_env \<Rightarrow> 's client \<Rightarrow> nodeid \<Rightarrow> string \<Rightarrow> string \<Rightarrow> PushOut \<Rightarrow> ('s client_world, (u32 \<times> PushOut + PushOut) option) state" where
  "push_trust_list env api trustList key failMsg out = do {
     r \<leftarrow> p12_read_trust_list (ce_rounds (pe_client env)) (pe_decodeTrustList env) api trustList True PUSH_TRUST_LIST_MASKS_ALL;
     State_Monad.return (case r of
       None \<Rightarrow> None
     | Some (Inl sc) \<Rightarrow> Some (Inl (sc, out\<lparr>po_failMsg := snprintf_buf 256 failMsg\<rparr>))
     | Some (Inr trust) \<Rightarrow> Some (Inr (out\<lparr>po_j := p12j_trust_list trust (p12j_key key (po_j out))\<rparr>)))
   }"

text \<open>The steps between the two reads of the TrustList.\<close>

definition push_middle ::
  "'x p12_env \<Rightarrow> 's client \<Rightarrow> PushArgs \<Rightarrow> nodeid \<Rightarrow> nodeid \<Rightarrow> nodeid \<Rightarrow> nodeid \<Rightarrow> nodeid \<Rightarrow> PushOut \<Rightarrow> ('s client_world, u32 \<times> PushOut + PushOut) state" where
  "push_middle env api a grp certType trustList addId removeId out = do {
     let st = ce_stack (pe_client env);
     r1 \<leftarrow> push_calls st api (first_methods a grp certType trustList addId removeId) out;
     case r1 of Inl stop \<Rightarrow> State_Monad.return (Inl stop)
     | Inr out1 \<Rightarrow> do {
         r2 \<leftarrow> push_delete st api a grp out1;
         case r2 of Inl stop \<Rightarrow> State_Monad.return (Inl stop)
         | Inr out2 \<Rightarrow> do {
             r3 \<leftarrow> push_calls st api (later_methods a grp certType) out2;
             case r3 of Inl stop \<Rightarrow> State_Monad.return (Inl stop)
             | Inr out3 \<Rightarrow> push_end env api a out3
           }
       }
   }"

text \<open>From the first read of the TrustList on.\<close>

definition push_trusted ::
  "'x p12_env \<Rightarrow> 's client \<Rightarrow> PushArgs \<Rightarrow> nodeid \<Rightarrow> nodeid \<Rightarrow> nodeid \<Rightarrow> nodeid \<Rightarrow> nodeid \<Rightarrow> PushOut \<Rightarrow> ('s client_world, (u32 \<times> PushOut) option) state" where
  "push_trusted env api a grp certType trustList addId removeId out = do {
     before \<leftarrow> push_trust_list env api trustList ''trustList'' ''reading the TrustList returned a non-Good status'' out;
     case before of
       None \<Rightarrow> State_Monad.return None
     | Some (Inl stop) \<Rightarrow> State_Monad.return (Some stop)
     | Some (Inr out1) \<Rightarrow> do {
         r \<leftarrow> push_middle env api a grp certType trustList addId removeId out1;
         case r of
           Inl stop \<Rightarrow> State_Monad.return (Some stop)
         | Inr out2 \<Rightarrow>
             if po_failed out2 then State_Monad.return (Some (GOOD, out2))
             else do {
               after \<leftarrow> push_trust_list env api trustList ''trustListAfter'' ''reading the TrustList again returned a non-Good status'' out2;
               State_Monad.return (case after of
                 None \<Rightarrow> None
               | Some (Inl stop) \<Rightarrow> Some stop
               | Some (Inr out3) \<Rightarrow> Some (GOOD, out3))
             }
       }
   }"

text \<open>The status that ends the command as a whole (GOOD at the end of the steps) and the result; None
  when the bound on the rounds was reached.\<close>

definition push_steps :: "'x p12_env \<Rightarrow> 's client \<Rightarrow> PushArgs \<Rightarrow> PushOut \<Rightarrow> ('s client_world, (u32 \<times> PushOut) option) state" where
  "push_steps env api a out = do {
     let grp = nodeid_numeric 0 (pa_group a);
     let out = out\<lparr>po_j := p12j_nodeid grp (p12j_key ''certificateGroupId'' (po_j out))\<rparr>;
     resolved \<leftarrow> (case pa_certTypeStr a of
         None \<Rightarrow> State_Monad.return (Inr (nodeid_numeric 0 (pa_defaultType a)))
       | Some s \<Rightarrow> p12_resolve_nodeid api s);
     case resolved of
       Inl _ \<Rightarrow> State_Monad.return (Some (BADNAMESPACEURIINVALID, out\<lparr>po_inputErr := True,
         po_failMsg := snprintf_buf 256 (''unknown namespace URI in --certificate-type-id '' @ quoted (bytes_of_string (pa_certTypeStr a)))\<rparr>))
     | Inr certType \<Rightarrow> do {
         paths \<leftarrow> p12_translate api grp [[''TrustList''], [''TrustList'', ''AddCertificate''], [''TrustList'', ''RemoveCertificate'']];
         case paths of
           Inr [trustList, addId, removeId] \<Rightarrow> push_trusted env api a grp certType trustList addId removeId out
         | Inr _ \<Rightarrow> State_Monad.return (Some (BADUNEXPECTEDERROR, out))
         | Inl sc \<Rightarrow> State_Monad.return (Some (sc, out\<lparr>po_failMsg := snprintf_buf 256 ''the TrustList of the certificate group not found''\<rparr>))
       }
   }"

definition push_report :: "stack \<Rightarrow> u32 \<Rightarrow> PushOut \<Rightarrow> int \<times> string" where
  "push_report st ret out =
    (let j = p12j_close CHR ''}'' (po_j out) in
     if po_inputErr out then (2, p12_emit st ''push'' False ret (Some ''input'') (Some (po_failMsg out)) None)
     else if ret \<noteq> GOOD then
       (let ec = p12_exit_code ret in
        (ec, p12_emit st ''push'' False ret (Some (if ec = 7 then ''timeout'' else if ec = 3 then ''transport'' else ''service''))
          (Some (if po_failMsg out \<noteq> [] then po_failMsg out else ''the connection failed'')) (Some j)))
     else if po_failed out then (4, p12_emit st ''push'' False (po_failSc out) (Some ''service'') (Some (po_failMsg out)) (Some j))
     else (0, p12_emit st ''push'' True GOOD None None (Some j)))"

definition push_start :: PushOut where
  "push_start = \<lparr>po_j = p12j_open CHR ''{'' p12j_init, po_failed = False, po_inputErr = False, po_failSc = GOOD, po_failMsg = []\<rparr>"

definition cmd_push :: "'x p12_env \<Rightarrow> 's client \<Rightarrow> string list \<Rightarrow> ('s client_world, outcome option) state" where
  "cmd_push env api argv =
    (case push_parse env argv of
       Inl msg \<Rightarrow> State_Monad.return (Some (give_up (pe_client env) ''push'' BADINVALIDARGUMENT (snprintf_buf 512 msg)))
     | Inr a \<Rightarrow>
        (case request_ms argv of
           None \<Rightarrow> State_Monad.return (Some Undefined)
         | Some ms \<Rightarrow> do {
             m \<leftarrow> connect_command (pe_client env) api (bytes_of_string (find_arg argv ''--endpoint'')) ms ''push'';
             case m of
               None \<Rightarrow> State_Monad.return None
             | Some (Inl out) \<Rightarrow> State_Monad.return (Some out)
             | Some (Inr cfg) \<Rightarrow> do {
                 r \<leftarrow> push_steps env api a push_start;
                 case r of
                   None \<Rightarrow> State_Monad.return None
                 | Some (ret, out) \<Rightarrow> do {
                     _ \<leftarrow> close_client api;
                     State_Monad.return (Some (case push_report (ce_stack (pe_client env)) ret out of (code, doc) \<Rightarrow> Exit code doc))
                   }
               }
           }))"

section \<open>A JSON object built member by member\<close>

definition open_object :: "P12Json \<Rightarrow> bool" where
  "open_object j \<longleftrightarrow> wf_json j \<and> (\<exists>ms. json_text j = ''{'' @ join_comma (map (\<lambda>m. fst m @ '':'' @ snd m) ms) \<and> (jfirst j \<longleftrightarrow> ms = [])
     \<and> (\<forall>m\<in>set ms. json_string (fst m) \<and> json_value (snd m)))"

lemma print_json_string_is_string: "json_string (print_json_string (Some k))"
  using json_chars_escapes [of k "[]"] by (simp add: json_string_def print_json_string_def)

lemma open_object_start: "open_object (p12j_open CHR ''{'' p12j_init)"
  by (simp add: open_object_def w_open.keeps_wf w_open.writes w_open.sets_first)

lemma open_object_member:
  assumes "json_writer wr (member k v) (\<lambda>_. False)" and "json_value v" and "open_object j"
  shows "open_object (wr j)"
proof -
  obtain ms where j: "wf_json j" "json_text j = ''{'' @ join_comma (map (\<lambda>m. fst m @ '':'' @ snd m) ms)" "jfirst j \<longleftrightarrow> ms = []"
      "\<forall>m\<in>set ms. json_string (fst m) \<and> json_value (snd m)"
    using assms(3) by (auto simp: open_object_def)
  let ?ms = "ms @ [(print_json_string (Some k), v)]"
  have w: "wf_json (wr j)" "json_text (wr j) = json_text j @ member k v (jfirst j)" "\<not> jfirst (wr j)"
    using assms(1) j(1) by (simp_all add: json_writer_def)
  have "json_text (wr j) = ''{'' @ join_comma (map (\<lambda>m. fst m @ '':'' @ snd m) ?ms)"
  proof (cases "ms = []")
    case False
    then show ?thesis using join_comma_snoc [of "map (\<lambda>m. fst m @ '':'' @ snd m) ms"] by (simp add: w(2) j(2,3) member_def)
  qed (simp add: w(2) j(2,3) member_def)
  with w j(4) assms(2) print_json_string_is_string show ?thesis unfolding open_object_def
    by (intro conjI exI [of _ ?ms]) auto
qed

lemma open_object_close:
  assumes "open_object j"
  shows "wf_json (p12j_close CHR ''}'' j)" "json_value (json_text (p12j_close CHR ''}'' j))"
proof -
  obtain ms where j: "wf_json j" "json_text j = ''{'' @ join_comma (map (\<lambda>m. fst m @ '':'' @ snd m) ms)"
      "\<forall>m\<in>set ms. json_string (fst m) \<and> json_value (snd m)"
    using assms by (auto simp: open_object_def)
  then show "wf_json (p12j_close CHR ''}'' j)" "json_value (json_text (p12j_close CHR ''}'' j))"
    using json_value.obj [OF j(3)] by simp_all
qed

text \<open>A key followed by a value.\<close>

lemma key_value:
  assumes "json_writer wr (\<lambda>_. v) (\<lambda>f. f)" shows "json_writer (\<lambda>j. wr (p12j_key k j)) (member k v) (\<lambda>_. False)"
  using assms by unfold_locales (auto simp: json_writer_def member_def)

lemma key_block:
  assumes "json_writer wr (\<lambda>_. v) (\<lambda>_. False)" shows "json_writer (\<lambda>j. wr (p12j_key k j)) (member k v) (\<lambda>_. False)"
  using assms by unfold_locales (auto simp: json_writer_def member_def)

lemma fold_blocks:
  assumes "\<And>x. json_writer (pr x) (\<lambda>_. t x) (\<lambda>_. False)"
  shows "json_writer (\<lambda>j. p12j_close CHR '']'' (fold (\<lambda>x j. pr x (p12j_sep j)) xs (p12j_open CHR ''['' j))) (\<lambda>_. jarr (map t xs)) (\<lambda>_. False)"
proof -
  have f: "wf_json j \<Longrightarrow> wf_json (fold (\<lambda>x j. pr x (p12j_sep j)) xs j) \<and>
      json_text (fold (\<lambda>x j. pr x (p12j_sep j)) xs j) =
        json_text j @ (if jfirst j then join_comma (map t xs) else concat (map (\<lambda>x. '','' @ t x) xs))" for j
  proof (induction xs arbitrary: j)
    case (Cons x xs)
    from assms [of x] have "wf_json (pr x (p12j_sep j)) \<and> jfirst (pr x (p12j_sep j)) = False \<and>
        json_text (pr x (p12j_sep j)) = json_text j @ (if jfirst j then [] else '','') @ t x"
      using Cons.prems by (simp add: json_writer_def)
    with Cons.IH [of "pr x (p12j_sep j)"] show ?case by (simp add: join_comma_tail comp_def)
  qed simp
  show ?thesis by unfold_locales (simp_all add: f jarr_def)
qed

definition tx_error_parts :: "'x p12_env \<Rightarrow> ua_bytes option \<Rightarrow> nodeid \<times> u32 \<times> ua_string" where
  "tx_error_parts env body =
    (let bytes = (case body of Some (Some b) \<Rightarrow> b | _ \<Rightarrow> []); off = p12_nodeid_encoded_length bytes
     in case (if 0 < off \<and> off + 4 \<le> length bytes then pe_decodeNodeId env bytes else None) of
       Some n \<Rightarrow> (n, case p12_le_i32 bytes off of Some e \<Rightarrow> e | None \<Rightarrow> BADDECODINGERROR,
         case pe_decodeLocalizedText env (drop (off + 4) bytes) of Some t \<Rightarrow> lt_text t | None \<Rightarrow> None)
     | None \<Rightarrow> (nodeid_null, BADDECODINGERROR, None))"

definition tx_error_json :: "'x p12_env \<Rightarrow> ua_bytes option \<Rightarrow> string" where
  "tx_error_json env body = (case tx_error_parts env body of (target, err, msg) \<Rightarrow>
     jobj [(''targetId'', print_json_string (Some (canonical_text target))), (''error'', print_status_obj (ce_stack (pe_client env)) err),
       (''message'', print_json_string msg)])"

lemmas key_texts = key_text [of "''targetId''"] key_text [of "''error''"] key_text [of "''message''"]

interpretation w_tx_error: json_writer "push_tx_error env body" "\<lambda>_. tx_error_json env body" "\<lambda>_. False"
proof -
  obtain target err msg where p: "tx_error_parts env body = (target, err, msg)" by (metis prod.exhaust)
  have e: "push_tx_error env body j = p12j_close CHR ''}'' (p12j_uastr msg (p12j_key ''message'' (p12j_status (ce_stack (pe_client env)) err
      (p12j_key ''error'' (p12j_nodeid target (p12j_key ''targetId'' (p12j_open CHR ''{'' j)))))))" for j
    using p by (auto simp: push_tx_error_def tx_error_parts_def Let_def split: option.splits if_splits)
  show "json_writer (push_tx_error env body) (\<lambda>_. tx_error_json env body) (\<lambda>_. False)"
    by unfold_locales (simp_all add: e p tx_error_json_def jobj_def key_texts plain_char_def
      w_uastr.keeps_wf w_uastr.writes w_uastr.sets_first w_nodeid.keeps_wf w_nodeid.writes w_nodeid.sets_first)
qed

definition tx_errors :: "'x p12_env \<Rightarrow> variant option \<Rightarrow> ua_bytes option list" where
  "tx_errors env v = (case v of Some (Array t vs _) \<Rightarrow> map (tx_body env t) vs | _ \<Rightarrow> [])"

interpretation w_tx_errors: json_writer "push_tx_errors env v" "member ''errors'' (jarr (map (tx_error_json env) (tx_errors env v)))" "\<lambda>_. False"
proof -
  have e: "push_tx_errors env v = (\<lambda>j. p12j_close CHR '']'' (fold (\<lambda>b j. push_tx_error env b (p12j_sep j)) (tx_errors env v) (p12j_open CHR ''['' (p12j_key ''errors'' j))))"
    by (rule ext) (auto simp: push_tx_errors_def tx_errors_def Let_def fold_map comp_def split: option.split variant.split)
  show "json_writer (push_tx_errors env v) (member ''errors'' (jarr (map (tx_error_json env) (tx_errors env v)))) (\<lambda>_. False)"
    unfolding e by (rule key_block) (rule fold_blocks, rule w_tx_error.json_writer_axioms)
qed

definition datetime_json :: "stack \<Rightarrow> u64 \<Rightarrow> string" where
  "datetime_json st dt = (if dt = 0 then ''null'' else print_json_string (Some (output_timestamp st dt 64)))"

definition nodeids_json :: "variant option \<Rightarrow> string" where
  "nodeids_json v = jarr (map (\<lambda>n. print_json_string (Some (canonical_text n))) (variant_nodeids v))"

definition diag_text :: "'x p12_env \<Rightarrow> datavalue list \<Rightarrow> string" where
  "diag_text env results =
    jobj [(''startTime'', datetime_json (ce_stack (pe_client env)) (diag_datetime (diag_value results 0))),
      (''endTime'', datetime_json (ce_stack (pe_client env)) (diag_datetime (diag_value results 1))),
      (''result'', print_status_obj (ce_stack (pe_client env)) (diag_result (diag_value results 2))),
      (''affectedTrustLists'', nodeids_json (diag_value results 3)), (''affectedCertificateGroups'', nodeids_json (diag_value results 4)),
      (''errors'', jarr (map (tx_error_json env) (tx_errors env (diag_value results 5))))]"

lemmas diag_contract = w_datetime.keeps_wf w_datetime.writes w_datetime.sets_first w_status_field.keeps_wf w_status_field.writes w_status_field.sets_first
  w_nodeid_array_field.keeps_wf w_nodeid_array_field.writes w_nodeid_array_field.sets_first w_tx_errors.keeps_wf w_tx_errors.writes w_tx_errors.sets_first

interpretation w_diag: json_writer "diag_json env results" "member ''transactionDiagnostics'' (diag_text env results)" "\<lambda>_. False"
proof -
  have k: "print_json_string (Some ''startTime'') = jkey ''startTime''" "print_json_string (Some ''endTime'') = jkey ''endTime''"
      "print_json_string (Some ''result'') = jkey ''result''" "print_json_string (Some ''affectedTrustLists'') = jkey ''affectedTrustLists''"
      "print_json_string (Some ''affectedCertificateGroups'') = jkey ''affectedCertificateGroups''" "print_json_string (Some ''errors'') = jkey ''errors''"
    by (simp_all add: key_text plain_char_def)
  show "json_writer (diag_json env results) (member ''transactionDiagnostics'' (diag_text env results)) (\<lambda>_. False)"
    by unfold_locales (simp_all add: diag_json_def Let_def diag_contract diag_text_def jobj_def member_def k datetime_json_def nodeids_json_def)
qed

lemma json_nodeid_text: "json_value (nodeids_json v)"
  unfolding nodeids_json_def by (intro jarr_value) (auto intro: json_value_print_string)

lemma json_tx_error: "names_ok (ce_stack (pe_client env)) \<Longrightarrow> json_value (tx_error_json env body)"
  by (auto simp: tx_error_json_def split: prod.split intro!: jobj_value json_value_print_string json_status_obj)

lemma json_diag: "names_ok (ce_stack (pe_client env)) \<Longrightarrow> json_value (diag_text env results)"
  unfolding diag_text_def
  by (rule jobj_value) (auto simp: datetime_json_def intro!: json_value_print_string json_status_obj json_nodeid_text json_null jarr_value json_tx_error)

section \<open>Every step keeps the result an object\<close>

lemmas members = open_object_member [OF w_status_field.json_writer_axioms json_status_obj] open_object_member [OF w_diag.json_writer_axioms json_diag]
  open_object_member [OF key_value [OF w_nodeid.json_writer_axioms] json_value_print_string]
  open_object_member [OF key_block [OF w_trust_list.json_writer_axioms] json_trust_list]

lemma b64_field_member: "open_object j \<Longrightarrow> open_object (p12j_b64_field k bs j)"
  by (rule open_object_member [OF w_b64_field.json_writer_axioms]) (auto simp: json_b64_quoted json_empty_string split: option.split)

lemma b64_array_member: "open_object j \<Longrightarrow> open_object (p12j_b64_array_field k v j)"
  by (rule open_object_member [OF w_b64_array_field.json_writer_axioms]) (auto intro!: jarr_value json_b64_quoted)

lemma nodeid_array_member: "open_object j \<Longrightarrow> open_object (p12j_nodeid_array_field k v j)"
  by (rule open_object_member [OF w_nodeid_array_field.json_writer_axioms]) (use json_nodeid_text in \<open>simp_all add: nodeids_json_def\<close>)

lemma raw_bool_member: "open_object j \<Longrightarrow> open_object (p12j_raw (if b then ''true'' else ''false'') (p12j_key k j))"
  by (rule open_object_member [OF key_value [OF w_raw.json_writer_axioms] json_bool])

text \<open>A method whose result members keep the object, and which is neither ApplyChanges nor
  CancelChanges.\<close>

definition pm_call :: "push_method \<Rightarrow> client_call" where
  "pm_call pm = CallMethod (pm_object pm) (pm_method pm) (pm_inputs pm)"

definition good_method :: "push_method \<Rightarrow> bool" where
  "good_method pm \<longleftrightarrow> (\<forall>outputs j. open_object j \<longrightarrow> open_object (pm_result pm outputs j))"

lemmas method_defs = first_methods_def later_methods_def optional_def add_certificate_def remove_certificate_def get_certificates_def
  create_self_signed_def delete_certificate_def update_certificate_def create_signing_request_def get_rejected_list_def
  reset_to_defaults_def apply_changes_def cancel_changes_def server_method_def nothing_more_def

lemma good_methods:
  "list_all good_method (first_methods a grp certType trustList addId removeId)" "list_all good_method (later_methods a grp certType)"
  "good_method (delete_certificate grp n)" "good_method apply_changes" "good_method cancel_changes"
  by (auto simp: method_defs good_method_def b64_field_member b64_array_member nodeid_array_member raw_bool_member split: option.split)

section \<open>The transaction\<close>

text \<open>A monitor over the calls of a command: the transaction is clean as long as every method succeeded,
  spoiled after one that failed; it is ended, by ApplyChanges or CancelChanges, only once and
  only while it is clean.\<close>

datatype transaction = Clean | Spoiled | Ended | Abused

definition ends_transaction :: "client_call \<Rightarrow> bool" where
  "ends_transaction c \<longleftrightarrow> c = pm_call apply_changes \<or> c = pm_call cancel_changes"

definition tx_step :: "transaction \<Rightarrow> client_call \<times> client_ret \<Rightarrow> transaction" where
  "tx_step p e =
    (if ends_transaction (fst e) then (if p = Clean then Ended else Abused)
     else if is_method (fst e) \<and> cr_status (snd e) \<noteq> GOOD \<and> p = Clean then Spoiled
     else p)"

definition tx_after :: "transaction \<Rightarrow> (client_call \<times> client_ret) list \<Rightarrow> transaction" where
  "tx_after p calls = foldl tx_step p calls"

lemma tx_after_simps [simp]: "tx_after p [] = p" "tx_after p (e # calls) = tx_after (tx_step p e) calls"
    "tx_after p (a @ b) = tx_after (tx_after p a) b"
  by (simp_all add: tx_after_def)

text \<open>Calls of services that do not end a transaction: quiet when all methods among them succeeded.\<close>

definition services :: "(client_call \<times> client_ret) list \<Rightarrow> bool" where
  "services new \<longleftrightarrow> list_all (\<lambda>e. is_service (fst e)) new"

definition neutral :: "(client_call \<times> client_ret) list \<Rightarrow> bool" where
  "neutral new \<longleftrightarrow> list_all (\<lambda>e. \<not> ends_transaction (fst e)) new"

definition successful :: "(client_call \<times> client_ret) list \<Rightarrow> bool" where
  "successful new \<longleftrightarrow> list_all (\<lambda>e. is_method (fst e) \<longrightarrow> cr_status (snd e) = GOOD) new"

lemma calls_simps [simp]: "services []" "services (e # new) \<longleftrightarrow> is_service (fst e) \<and> services new" "services (a @ b) \<longleftrightarrow> services a \<and> services b"
    "neutral []" "neutral (e # new) \<longleftrightarrow> \<not> ends_transaction (fst e) \<and> neutral new" "neutral (a @ b) \<longleftrightarrow> neutral a \<and> neutral b"
    "successful []" "successful (e # new) \<longleftrightarrow> (is_method (fst e) \<longrightarrow> cr_status (snd e) = GOOD) \<and> successful new" "successful (a @ b) \<longleftrightarrow> successful a \<and> successful b"
  by (auto simp: services_def neutral_def successful_def)

lemma services_live: "services new \<Longrightarrow> live p \<Longrightarrow> live (session_after p new)"
  by (rule inside_live) (auto simp: services_def inside_def list_all_iff in_session_service)

lemma neutral_tx: "neutral new \<Longrightarrow> successful new \<Longrightarrow> tx_after p new = p"
    "neutral new \<Longrightarrow> p \<noteq> Abused \<Longrightarrow> tx_after p new \<noteq> Abused"
  by (induction new arbitrary: p) (auto simp: tx_step_def)

lemma neutral_kinds: "neutral new \<Longrightarrow> tx_after Clean new \<in> {Clean, Spoiled}" "neutral new \<Longrightarrow> tx_after Ended new = Ended" "neutral new \<Longrightarrow> tx_after Spoiled new = Spoiled"
proof -
  show s: "neutral new \<Longrightarrow> tx_after Spoiled new = Spoiled" by (induction new) (auto simp: tx_step_def)
  show "neutral new \<Longrightarrow> tx_after Ended new = Ended" by (induction new) (auto simp: tx_step_def)
  show "neutral new \<Longrightarrow> tx_after Clean new \<in> {Clean, Spoiled}"
  proof (induction new)
    case (Cons e new)
    then have "tx_step Clean e \<in> {Clean, Spoiled}" by (auto simp: tx_step_def)
    moreover have "neutral new \<Longrightarrow> tx_after Spoiled new = Spoiled" by (induction new) (auto simp: tx_step_def)
    ultimately show ?case using Cons by auto
  qed simp
qed

lemma with_inputs: "ins \<noteq> [] \<Longrightarrow> \<not> ends_transaction (CallMethod ob m ins)"
  by (auto simp: ends_transaction_def pm_call_def method_defs)

lemma not_a_method: "\<not> is_method c \<Longrightarrow> \<not> ends_transaction c"
  by (auto simp: ends_transaction_def pm_call_def)

text \<open>(Positive predicates again, for the classical reasoner.)\<close>

definition bad :: "u32 \<Rightarrow> bool" where "bad sc \<longleftrightarrow> sc \<noteq> GOOD"

lemma bad_codes [simp]: "bad BADUNEXPECTEDERROR" "bad BADNAMESPACEURIINVALID" "bad BADDECODINGERROR" "bad BADNOMATCH" "\<not> bad GOOD"
  by (simp_all add: bad_def)

lemma bad_transport: "p12_is_transport sc \<Longrightarrow> bad sc"
  by (auto simp: p12_is_transport_def bad_def)

fun read_spec :: "(u32 \<times> byte list) option \<Rightarrow> (client_call \<times> client_ret) list \<Rightarrow> bool" where
  "read_spec None new = True"
| "read_spec (Some (sc, data)) new = (bad sc \<or> successful new)"

lemma read_spec_after: "read_spec res new \<Longrightarrow> successful [c] \<Longrightarrow> read_spec res (c # new)"
  by (cases c; cases "(res, new)" rule: read_spec.cases) (auto simp: successful_def)

lemma read_chunks_runs:
  "runs anything (p12_read_chunks rounds api trustList readId handle data) (\<lambda>res new. services new \<and> neutral new \<and> read_spec res new)"
proof (induction rounds arbitrary: data)
  case (Suc rounds)
  show ?case by (auto simp: p12_call_def with_inputs bad_def Let_def read_spec_after intro!: runs_calculus runs_mono [OF Suc.IH])
qed (auto intro!: runs_calculus)

fun sum_spec :: "u32 + 'a \<Rightarrow> (client_call \<times> client_ret) list \<Rightarrow> bool" where
  "sum_spec (Inl sc) new = bad sc"
| "sum_spec (Inr x) new = successful new"

lemma first_targets_spec: "successful new \<Longrightarrow> sum_spec (first_targets rs) new"
  by (induction rs rule: first_targets.induct) (auto simp: bad_def split: list.split sum.split)

lemma translate_runs: "runs anything (p12_translate api start paths) (\<lambda>res new. services new \<and> neutral new \<and> successful new \<and> sum_spec res new)"
  unfolding p12_translate_def
  by (auto simp: bad_def not_a_method first_targets_spec intro!: runs_calculus)

lemma open_handle_bad: "open_handle r = Inl sc \<Longrightarrow> bad sc"
  by (auto simp: open_handle_def bad_def split: prod.splits if_splits list.splits variant.splits ua_val.splits)

lemma open_handle_good: "open_handle (sc, outputs) = Inr h \<Longrightarrow> sc = GOOD"
  by (auto simp: open_handle_def split: if_splits)

lemma trust_list_runs:
  "runs anything (p12_read_trust_list rounds decodeTL api trustList withMasks masks) (if_returned (\<lambda>res new. services new \<and> neutral new \<and> sum_spec res new))"
  unfolding p12_read_trust_list_def p12_call_def
  by (auto simp: with_inputs bad_def open_handle_bad [unfolded bad_def] split: sum.split list.split option.split
      intro!: runs_calculus runs_mono [OF translate_runs] runs_mono [OF read_chunks_runs] dest!: open_handle_good)

section \<open>The calls of the steps\<close>

text \<open>A step that starts from a result leaves it failed, or it had not failed and every method of the step succeeded.\<close>

definition carries :: "PushOut \<Rightarrow> PushOut \<Rightarrow> (client_call \<times> client_ret) list \<Rightarrow> bool" where
  "carries out out' new \<longleftrightarrow> po_failed out' \<or> \<not> po_failed out \<and> successful new"

lemma carries_refl: "carries out out []"
  by (simp add: carries_def)

lemma carries_trans: "carries out out1 new \<Longrightarrow> carries out1 out2 new' \<Longrightarrow> carries out out2 (new @ new')"
  by (auto simp: carries_def)

fun step_spec :: "PushOut \<Rightarrow> u32 \<times> PushOut + PushOut \<Rightarrow> (client_call \<times> client_ret) list \<Rightarrow> bool" where
  "step_spec out (Inl (sc, out')) new = (services new \<and> neutral new \<and> bad sc \<and> open_object (po_j out'))"
| "step_spec out (Inr out') new = (services new \<and> neutral new \<and> carries out out' new \<and> open_object (po_j out'))"

lemma step_spec_then:
  assumes "services new" "neutral new" "carries out out1 new" "step_spec out1 res new'"
  shows "step_spec out res (new @ new')"
  using assms by (cases "(out1, res, new')" rule: step_spec.cases) (auto intro: carries_trans)

lemma steps_in_order:
  assumes "runs anything m (step_spec out)" and "\<And>out1. open_object (po_j out1) \<Longrightarrow> runs anything (f out1) (step_spec out1)"
  shows "runs anything (m \<bind> (\<lambda>r. case r of Inl stop \<Rightarrow> State_Monad.return (Inl stop) | Inr out' \<Rightarrow> f out')) (step_spec out)"
  by (rule runs_bindI, rule runs_mono [OF assms(1)])
    (auto split: sum.split intro!: runs_calculus runs_mono [OF assms(2)] intro: step_spec_then)

lemma push_fail_fields [simp]: "po_failed (push_fail out sc what)" "po_j (push_fail out sc what) = po_j out"
  by (simp_all add: push_fail_def)

lemma push_call_runs:
  assumes "names_ok st" and "good_method pm" and "\<not> ends_transaction (pm_call pm)" and "open_object (po_j out)" and "\<not> po_failed out"
  shows "runs anything (push_call st api pm out) (step_spec out)"
  using assms unfolding push_call_def p12_call_def
  by (auto simp: push_step_def good_method_def pm_call_def carries_def members bad_transport Let_def split: if_split intro!: runs_calculus)

lemma push_calls_runs:
  assumes "names_ok st" and "list_all good_method pms" and "list_all (\<lambda>pm. \<not> ends_transaction (pm_call pm)) pms" and "open_object (po_j out)"
  shows "runs anything (push_calls st api pms out) (step_spec out)"
  using assms
proof (induction pms arbitrary: out)
  case (Cons pm pms)
  show ?case
  proof (cases "po_failed out")
    case False
    with Cons show ?thesis by (simp add: steps_in_order push_call_runs)
  qed (use Cons in \<open>auto simp: carries_refl intro!: runs_calculus\<close>)
qed (auto simp: carries_refl intro!: runs_calculus)

lemma neutral_methods:
  "list_all (\<lambda>pm. \<not> ends_transaction (pm_call pm)) (first_methods a grp certType trustList addId removeId)"
  "list_all (\<lambda>pm. \<not> ends_transaction (pm_call pm)) (later_methods a grp certType)"
  "\<not> ends_transaction (pm_call (delete_certificate grp n))"
  by (auto simp: method_defs ends_transaction_def pm_call_def nodeid_numeric_def split: option.split)

lemma resolve_runs: "runs anything (p12_resolve_nodeid api s) (\<lambda>_ new. services new \<and> neutral new \<and> successful new)"
proof (rule runsI)
  fix w tr x w' tr' assume "run_state (p12_resolve_nodeid api s) (w, tr) = (x, w', tr')"
  then have "tr' = tr \<or> (\<exists>uri r. tr' = tr @ [(NamespaceGetIndex uri, r)])"
    by (auto simp: p12_resolve_nodeid_def resolve_nsu_def resolve_nsu_nodeid_def world_nsindex_def perform_def Let_def
        split: if_splits option.splits prod.splits)
  then show "anything w' \<and> (\<exists>new. tr' = tr @ new \<and> services new \<and> neutral new \<and> successful new)"
    by (auto simp: not_a_method)
qed

lemma push_delete_runs:
  assumes "names_ok st" and "open_object (po_j out)"
  shows "runs anything (push_delete st api a grp out) (step_spec out)"
proof -
  have "runs anything (push_calls st api [delete_certificate grp n] out) (step_spec out)" for n
    using assms by (simp add: push_calls_runs good_methods neutral_methods del: push_calls.simps)
  note d = runs_mono [OF this step_spec_then [of _ out out]]
  show ?thesis using assms unfolding push_delete_def
    by (auto simp: carries_refl carries_def split: option.split sum.split simp del: push_calls.simps
        intro!: runs_calculus runs_mono [OF resolve_runs] d)
qed

text \<open>What holds of all the calls of the steps: they are services, the transaction is not abused, and
  ApplyChanges is called only when it was asked for.\<close>

definition intact :: "transaction \<Rightarrow> bool" where "intact p \<longleftrightarrow> p \<noteq> Abused"

definition settled :: "PushArgs \<Rightarrow> (client_call \<times> client_ret) list \<Rightarrow> bool" where
  "settled a new \<longleftrightarrow> services new \<and> intact (tx_after Clean new) \<and> (pm_call apply_changes \<in> fst ` set new \<longrightarrow> pa_apply a)"

definition completed :: "PushArgs \<Rightarrow> (client_call \<times> client_ret) list \<Rightarrow> bool" where
  "completed a new \<longleftrightarrow> successful new \<and> (pa_apply a \<longrightarrow> pm_call apply_changes \<in> fst ` set new)"

lemma neutral_no_apply: "neutral new \<Longrightarrow> pm_call apply_changes \<notin> fst ` set new"
  by (auto simp: neutral_def list_all_iff ends_transaction_def)

lemma settled_neutral: "services new \<Longrightarrow> neutral new \<Longrightarrow> settled a new"
  using neutral_kinds(1) [of new] neutral_no_apply [of new] by (auto simp: settled_def intact_def)

lemma settled_then: "settled a new \<Longrightarrow> services new' \<Longrightarrow> neutral new' \<Longrightarrow> settled a (new @ new')"
  using neutral_tx(2) [of new' "tx_after Clean new"] neutral_no_apply [of new']
  by (auto simp: settled_def intact_def)

fun mid_spec :: "PushArgs \<Rightarrow> u32 \<times> PushOut + PushOut \<Rightarrow> (client_call \<times> client_ret) list \<Rightarrow> bool" where
  "mid_spec a (Inl (sc, out')) new = (settled a new \<and> bad sc \<and> open_object (po_j out'))"
| "mid_spec a (Inr out') new = (settled a new \<and> open_object (po_j out') \<and> (po_failed out' \<or> completed a new))"

definition before_end :: "PushOut \<Rightarrow> (client_call \<times> client_ret) list \<Rightarrow> bool" where
  "before_end out pre \<longleftrightarrow> services pre \<and> neutral pre \<and> (po_failed out \<or> successful pre)"

lemma ends: "ends_transaction (pm_call apply_changes)" "ends_transaction (pm_call cancel_changes)" "pm_call cancel_changes \<noteq> pm_call apply_changes"
  "is_service (pm_call apply_changes)" "is_service (pm_call cancel_changes)" "is_method (pm_call apply_changes)" "is_method (pm_call cancel_changes)"
  by (simp_all add: ends_transaction_def pm_call_def method_defs nodeid_numeric_def)

lemma p12_call_pm: "p12_call api (pm_object pm) (pm_method pm) (pm_inputs pm) = do { r \<leftarrow> perform api (pm_call pm); State_Monad.return (cr_status r, cr_outputs r) }"
  by (simp add: p12_call_def pm_call_def)

lemma good_no_transport [simp]: "\<not> p12_is_transport GOOD"
  using bad_transport by fastforce

lemma mid_then: "mid_spec a (Inr out) new \<Longrightarrow> step_spec out res new' \<Longrightarrow> mid_spec a res (new @ new')"
  by (cases "(out, res, new')" rule: step_spec.cases) (auto simp: completed_def carries_def intro: settled_then)

lemma before_end_mid: "before_end out pre \<Longrightarrow> open_object (po_j out) \<Longrightarrow> pa_apply a \<longrightarrow> po_failed out \<Longrightarrow> mid_spec a (Inr out) pre"
  by (auto simp: before_end_def completed_def settled_neutral)

lemma before_end_clean: "before_end out pre \<Longrightarrow> \<not> po_failed out \<Longrightarrow> tx_after Clean pre = Clean"
  by (auto simp: before_end_def neutral_tx)

definition asked_ending :: "PushArgs \<Rightarrow> push_method \<Rightarrow> bool" where
  "asked_ending a pm \<longleftrightarrow> pm = apply_changes \<and> pa_apply a \<or> pm = cancel_changes \<and> \<not> pa_apply a"

lemma settled_ending:
  assumes "before_end out pre" and "\<not> po_failed out" and "asked_ending a pm"
  shows "settled a (pre @ [(pm_call pm, r)])" and "cr_status r = GOOD \<Longrightarrow> completed a (pre @ [(pm_call pm, r)])"
proof -
  have "tx_after Clean (pre @ [(pm_call pm, r)]) = Ended"
    using assms by (auto simp: before_end_clean tx_step_def ends asked_ending_def)
  then show "settled a (pre @ [(pm_call pm, r)])"
    using assms neutral_no_apply [of pre] by (auto simp: settled_def intact_def asked_ending_def ends ends(3) [symmetric] before_end_def)
  show "cr_status r = GOOD \<Longrightarrow> completed a (pre @ [(pm_call pm, r)])"
    using assms by (auto simp: completed_def asked_ending_def before_end_def)
qed

lemma ending_call:
  assumes "names_ok st" and "open_object (po_j out)" and "asked_ending a pm"
  shows "runs anything (push_calls st api [pm] out) (\<lambda>res new. \<forall>pre. before_end out pre \<longrightarrow> mid_spec a res (pre @ new))"
proof (cases "po_failed out")
  case True
  then show ?thesis using assms by (auto intro!: runs_calculus simp: before_end_mid simp del: mid_spec.simps)
next
  case False
  have g: "good_method pm" using assms(3) good_methods by (auto simp: asked_ending_def)
  from False show ?thesis using assms g settled_ending [OF _ False assms(3)]
    by (auto simp: push_call_def p12_call_pm push_step_def good_method_def members bad_transport Let_def split: if_split intro!: runs_calculus)
qed

lemma push_diagnose_runs:
  assumes "names_ok (ce_stack (pe_client env))" and "open_object (po_j out)"
  shows "runs anything (push_diagnose env api a applied out) (step_spec out)"
  using assms unfolding push_diagnose_def push_tx_diagnostics_def
  by (auto simp: not_a_method carries_def members bad_transport Let_def split: if_split intro!: runs_calculus)

lemma push_end_runs:
  assumes "names_ok (ce_stack (pe_client env))" and "open_object (po_j out)" and "\<not> (pa_apply a \<and> pa_cancel a)"
  shows "runs anything (push_end env api a out) (\<lambda>res new. \<forall>pre. before_end out pre \<longrightarrow> mid_spec a res (pre @ new))"
proof -
  let ?st = "ce_stack (pe_client env)" and ?Q = "\<lambda>res new. \<forall>pre. before_end out pre \<longrightarrow> mid_spec a res (pre @ new)"
  have d: "?Q (Inr out1) new \<Longrightarrow> open_object (po_j out1) \<Longrightarrow> runs anything (push_diagnose env api a applied out1) (\<lambda>res new'. ?Q res (new @ new'))"
    for out1 new applied
    by (rule runs_mono [OF push_diagnose_runs [OF assms(1)]]) (auto intro: mid_then simp flip: append_assoc simp del: mid_spec.simps)
  have "before_end out []" if "po_failed out \<or> True" by (simp add: before_end_def)
  then have o: "?Q (Inr out1) new \<Longrightarrow> open_object (po_j out1)" for out1 new by (metis mid_spec.simps(2))
  consider "pa_apply a" "\<not> pa_cancel a" | "\<not> pa_apply a" "pa_cancel a" | "\<not> pa_apply a" "\<not> pa_cancel a" using assms(3) by blast
  then show ?thesis
  proof cases
    case 1
    have c: "runs anything (push_calls ?st api [apply_changes] out) ?Q" by (rule ending_call) (use assms 1 in \<open>simp_all add: asked_ending_def\<close>)
    show ?thesis unfolding push_end_def using 1
      by (auto simp: optional_def Let_def split: sum.split simp del: mid_spec.simps push_calls.simps(2) intro!: runs_calculus runs_mono [OF c] d dest: o)
  next
    case 2
    have c: "runs anything (push_calls ?st api [cancel_changes] out) ?Q" by (rule ending_call) (use assms 2 in \<open>simp_all add: asked_ending_def\<close>)
    show ?thesis unfolding push_end_def using 2
      by (auto simp: optional_def Let_def split: sum.split simp del: mid_spec.simps push_calls.simps(2) intro!: runs_calculus runs_mono [OF c] d dest: o)
  next
    case 3
    have "?Q (Inr out) []" using 3 assms(2) by (auto simp del: mid_spec.simps intro: before_end_mid)
    then show ?thesis unfolding push_end_def using 3 d [of out "[]"] assms(2)
      by (auto simp: optional_def Let_def simp del: mid_spec.simps intro!: runs_calculus)
  qed
qed

abbreviation up_to_end :: "PushArgs \<Rightarrow> PushOut \<Rightarrow> u32 \<times> PushOut + PushOut \<Rightarrow> (client_call \<times> client_ret) list \<Rightarrow> bool" where
  "up_to_end a out \<equiv> (\<lambda>res new. \<forall>pre. before_end out pre \<longrightarrow> mid_spec a res (pre @ new))"

lemma before_end_step:
  "before_end out pre \<Longrightarrow> step_spec out (Inr out1) new \<Longrightarrow> before_end out1 (pre @ new)"
  "before_end out pre \<Longrightarrow> step_spec out (Inl stop) new \<Longrightarrow> mid_spec a (Inl stop) (pre @ new)"
  by (auto simp: before_end_def carries_def) (cases stop; auto intro: settled_neutral)+

lemma steps_to_end:
  assumes "runs anything m (step_spec out)" and "\<And>out1. open_object (po_j out1) \<Longrightarrow> runs anything (f out1) (up_to_end a out1)"
  shows "runs anything (m \<bind> (\<lambda>r. case r of Inl stop \<Rightarrow> State_Monad.return (Inl stop) | Inr out' \<Rightarrow> f out')) (up_to_end a out)"
proof (rule runs_bind [OF assms(1)])
  fix r new assume s: "step_spec out r new"
  show "runs anything (case r of Inl stop \<Rightarrow> State_Monad.return (Inl stop) | Inr out' \<Rightarrow> f out') (\<lambda>y new'. up_to_end a out y (new @ new'))"
  proof (cases r)
    case (Inl stop)
    with s before_end_step(2) [of out _ stop] show ?thesis by (auto simp del: mid_spec.simps step_spec.simps intro!: runs_calculus)
  next
    case (Inr out1)
    have "up_to_end a out1 y new' \<Longrightarrow> up_to_end a out y (new @ new')" for y new'
      using s Inr before_end_step(1) by (metis append_assoc)
    with s Inr show ?thesis by (auto simp del: mid_spec.simps intro!: runs_mono [OF assms(2)])
  qed
qed

lemma push_middle_runs:
  assumes "names_ok (ce_stack (pe_client env))" and "open_object (po_j out)" and "\<not> (pa_apply a \<and> pa_cancel a)"
  shows "runs anything (push_middle env api a grp certType trustList addId removeId out) (up_to_end a out)"
  unfolding push_middle_def Let_def
  by (intro steps_to_end push_calls_runs push_delete_runs push_end_runs good_methods neutral_methods assms)

fun closing_spec :: "PushArgs \<Rightarrow> u32 \<times> PushOut \<Rightarrow> (client_call \<times> client_ret) list \<Rightarrow> bool" where
  "closing_spec a (ret, out) new = (settled a new \<and> open_object (po_j out) \<and> (bad ret \<or> po_failed out \<or> completed a new))"

lemma push_trust_list_runs:
  assumes "open_object (po_j out)"
  shows "runs anything (push_trust_list env api trustList key failMsg out) (if_returned (step_spec out))"
  using assms unfolding push_trust_list_def
  by (auto simp: carries_def members split: option.split sum.split intro!: runs_calculus runs_mono [OF trust_list_runs])

lemma closing_stop: "mid_spec a (Inl stop) new \<Longrightarrow> closing_spec a stop new" "mid_spec a (Inr out) new \<Longrightarrow> closing_spec a (GOOD, out) new"
  by (cases stop) auto

lemma trust_list_closes:
  assumes "runs anything m (if_returned (step_spec out))" and "mid_spec a (Inr out) new"
  shows "runs anything (m \<bind> (\<lambda>after. State_Monad.return (case after of None \<Rightarrow> None | Some (Inl stop) \<Rightarrow> Some stop
      | Some (Inr out3) \<Rightarrow> Some (GOOD, out3)))) (\<lambda>res new'. if_returned (closing_spec a) res (new @ new'))"
proof (rule runs_bind [OF assms(1)])
  fix r new' assume "if_returned (step_spec out) r new'"
  then have "\<forall>x. r = Some x \<longrightarrow> mid_spec a x (new @ new')" using mid_then [OF assms(2)] by auto
  then show "runs anything (State_Monad.return (case r of None \<Rightarrow> None | Some (Inl stop) \<Rightarrow> Some stop | Some (Inr out3) \<Rightarrow> Some (GOOD, out3)))
      (\<lambda>y newa. if_returned (closing_spec a) y (new @ new' @ newa))"
    using closing_stop by (auto split: option.split sum.split simp del: mid_spec.simps closing_spec.simps intro!: runs_calculus)
qed

lemma before_end_stop: "services new \<Longrightarrow> neutral new \<Longrightarrow> settled a new"
  "services new \<Longrightarrow> neutral new \<Longrightarrow> successful new \<Longrightarrow> before_end out new"
  by (auto simp: before_end_def settled_neutral)

lemma push_trusted_runs:
  assumes "names_ok (ce_stack (pe_client env))" and "open_object (po_j out)" and "\<not> (pa_apply a \<and> pa_cancel a)" and "before_end out pre"
  shows "runs anything (push_trusted env api a grp certType trustList addId removeId out) (\<lambda>res new. if_returned (closing_spec a) res (pre @ new))"
  unfolding push_trusted_def
proof (rule runs_bind [OF push_trust_list_runs [OF assms(2)]], goal_cases)
  case (1 r new)
  consider "r = None" | stop where "r = Some (Inl stop)" | out1 where "r = Some (Inr out1)" by (metis not_Some_eq sum.exhaust)
  then show ?case
  proof cases
    case 1
    then show ?thesis by (simp add: runs_return)
  next
    case 2
    then have "mid_spec a (Inl stop) (pre @ new)" using 1 before_end_step(2) [OF assms(4), of stop new a] by simp
    from closing_stop(1) [OF this] 2 show ?thesis by (auto intro!: runs_return simp del: closing_spec.simps)
  next
    case 3
    then have b: "before_end out1 (pre @ new)" "open_object (po_j out1)" using 1 before_end_step(1) [OF assms(4), of out1 new] by simp_all
    have m: "runs anything (push_middle env api a grp certType trustList addId removeId out1) (\<lambda>res new'. mid_spec a res (pre @ new @ new'))"
      by (rule runs_mono [OF push_middle_runs [OF assms(1) b(2) assms(3)]]) (use b(1) in \<open>force simp del: mid_spec.simps\<close>)
    show ?thesis unfolding 3 option.case sum.case
    proof (rule runs_bind [OF m], goal_cases)
      case (1 r2 new2)
      show ?case
      proof (cases r2)
        case (Inl stop)
        with closing_stop(1) [of a stop] 1 show ?thesis by (auto intro!: runs_return simp del: mid_spec.simps closing_spec.simps)
      next
        case (Inr out2)
        then have o: "mid_spec a (Inr out2) (pre @ new @ new2)" "open_object (po_j out2)" using 1 by auto
        show ?thesis
          using trust_list_closes [OF push_trust_list_runs [OF o(2)] o(1)] closing_stop(2) [OF o(1)] Inr
          by (auto intro!: runs_return simp del: mid_spec.simps closing_spec.simps)
      qed
    qed
  qed
qed

lemma push_steps_runs:
  assumes "names_ok (ce_stack (pe_client env))" and "open_object (po_j out)" and "\<not> (pa_apply a \<and> pa_cancel a)"
  shows "runs anything (push_steps env api a out) (if_returned (closing_spec a))"
  using assms unfolding push_steps_def Let_def
  by (auto simp: members before_end_stop split: option.split sum.split list.split
     intro!: runs_calculus runs_mono [OF resolve_runs] runs_mono [OF translate_runs] push_trusted_runs [of _ _ _ "new @ newa" for new newa, simplified] push_trusted_runs)
section \<open>The command\<close>

lemma silent_quiet: "silent new \<Longrightarrow> neutral new \<and> successful new"
  by (auto simp: silent_def neutral_def successful_def list_all_iff) (metis fst_conv not_a_method)

fun report_spec :: "stack \<Rightarrow> PushArgs \<Rightarrow> (client_call \<times> client_ret) list \<Rightarrow> int \<times> string \<Rightarrow> bool" where
  "report_spec st a new (ec, doc) = (ec \<in> {0, 2, 3, 4, 7} \<and> reports st ''push'' ec doc \<and> (ec = 0 \<longrightarrow> completed a new))"

lemma reports_emit:
  assumes "\<forall>j. result = Some j \<longrightarrow> wf_json j \<and> json_value (json_text j)" and "ok \<longleftrightarrow> ec = 0"
  shows "reports st op ec (p12_emit st op ok sc category message result)"
proof -
  have "result_block (piece (''results'', jarr (case result of Some j \<Rightarrow> [json_text j] | None \<Rightarrow> [])) @ piece (''error'', error_json category message))"
    by (rule result_blockI [OF refl _ json_error]) (use assms(1) in \<open>auto split: option.splits\<close>)
  then show ?thesis unfolding reports_def p12_emit_block [OF assms(1)] assms(2) by blast
qed

lemma push_report_spec:
  assumes "closing_spec a (ret, out) new"
  shows "report_spec st a new (push_report st ret out)"
proof -
  have j: "wf_json (p12j_close CHR ''}'' (po_j out))" "json_value (json_text (p12j_close CHR ''}'' (po_j out)))"
    using assms open_object_close by auto
  then have r: "reports st ''push'' ec (p12_emit st ''push'' ok sc c m (Some (p12j_close CHR ''}'' (po_j out))))"
      "reports st ''push'' ec (p12_emit st ''push'' ok sc c m None)" if "ok \<longleftrightarrow> ec = 0" for ec ok sc c m
    using that by (intro reports_emit; auto)+
  show ?thesis using assms by (auto simp: push_report_def Let_def p12_exit_code_def bad_def intro!: r)
qed

fun push_spec :: "stack \<Rightarrow> PushArgs \<Rightarrow> outcome \<Rightarrow> (client_call \<times> client_ret) list \<Rightarrow> bool" where
  "push_spec st a Undefined calls = True"
| "push_spec st a (Exit ec doc) calls = (command_spec st ''push'' (Exit ec doc) calls \<and> intact (tx_after Clean calls)
     \<and> (pm_call apply_changes \<in> fst ` set calls \<longrightarrow> pa_apply a) \<and> (ec = 0 \<longrightarrow> completed a calls))"

lemma push_spec_failed:
  "failed st ''push'' out \<Longrightarrow> out = Undefined \<or> session_after Idle calls \<in> {Idle, Deleted} \<Longrightarrow> silent calls \<Longrightarrow> push_spec st a out calls"
  using silent_quiet [of calls] neutral_no_apply [of calls] neutral_tx(1) [of calls Clean]
  by (cases out) (auto simp: failed_def command_spec.simps intact_def)

lemma push_spec_connected:
  assumes "live (session_after Idle new)" and "silent new" and "closing_spec a (ret, out) steps" and "silent close"
    and "\<forall>p. live p \<longrightarrow> session_after p close = Deleted"
  shows "push_spec st a (case push_report st ret out of (code, doc) \<Rightarrow> Exit code doc) (new @ steps @ close)"
proof -
  obtain ec doc where e: "push_report st ret out = (ec, doc)" by (cases "push_report st ret out")
  have s: "report_spec st a steps (ec, doc)" using push_report_spec assms(3) e by metis
  have st: "settled a steps" using assms(3) by simp
  then have "live (session_after Idle (new @ steps))" using assms(1) services_live by (auto simp: settled_def)
  then have "session_after Idle (new @ steps @ close) = Deleted" using assms(5) by auto
  then have c: "command_spec st ''push'' (Exit ec doc) (new @ steps @ close)" using s by (auto simp: command_spec.simps)
  have q: "neutral new" "successful new" "neutral close" "successful close" using assms(2,4) silent_quiet by auto
  then have t: "intact (tx_after Clean (new @ steps @ close))"
    using st neutral_tx(2) [of close "tx_after Clean steps"] by (simp add: neutral_tx(1) settled_def intact_def)
  show ?thesis using c t q st s neutral_no_apply [of new] neutral_no_apply [of close]
    by (auto simp: e settled_def completed_def)
qed

lemma push_runs:
  assumes "names_ok (ce_stack (pe_client env))" and "push_parse env argv = Inr a" and "\<not> (pa_apply a \<and> pa_cancel a)"
  shows "runs anything (cmd_push env api argv) (if_returned (push_spec (ce_stack (pe_client env)) a))"
proof (cases "request_ms argv")
  case (Some ms)
  let ?env = "pe_client env" and ?url = "bytes_of_string (find_arg argv ''--endpoint'')"
  have c: "runs anything (connect_command ?env api ?url ms ''push'') (\<lambda>res new. if_returned (client_spec (ce_stack ?env) ''push'' live) res new \<and> silent new)"
    unfolding connect_command_def by (rule runs_both [OF session_make_client silent_make_client])
  have cl: "runs anything (close_client api) (\<lambda>_ new. silent new \<and> (\<forall>p. live p \<longrightarrow> session_after p new = Deleted))"
    by (rule runs_both [OF silent_close session_close])
  have o: "open_object (po_j push_start)" by (simp add: push_start_def open_object_start)
  note steps = push_steps_runs [OF assms(1) o assms(3)]
  show ?thesis unfolding cmd_push_def using Some assms(2)
    by (auto split: option.split sum.split simp del: push_spec.simps closing_spec.simps simp: push_spec_failed push_spec_connected
        intro!: runs_calculus runs_mono [OF c] runs_mono [OF steps] runs_mono [OF cl])
qed (use assms in \<open>auto simp: cmd_push_def intro!: runs_calculus\<close>)

lemma push_parse_ending: "push_parse env argv = Inr a \<Longrightarrow> pa_apply a = p12_has_flag argv ''--apply'' \<and> \<not> (pa_apply a \<and> pa_cancel a)"
  by (auto simp: push_parse_def and_then_def Let_def split: if_splits sum.splits prod.splits)

lemma push_outcome:
  assumes "names_ok (ce_stack (pe_client env))" and "run_state (cmd_push env api argv) (s, []) = (Some (Exit ec doc), s', calls)"
  shows "\<exists>a. pa_apply a = p12_has_flag argv ''--apply'' \<and> push_spec (ce_stack (pe_client env)) a (Exit ec doc) calls"
proof (cases "push_parse env argv")
  case (Inl msg)
  let ?a = "undefined\<lparr>pa_apply := p12_has_flag argv ''--apply''\<rparr>"
  have "calls = []" "Exit ec doc = give_up (pe_client env) ''push'' BADINVALIDARGUMENT (snprintf_buf 512 msg)"
    using assms(2) Inl by (auto simp: cmd_push_def)
  then have "push_spec (ce_stack (pe_client env)) ?a (Exit ec doc) calls"
    by (auto simp del: push_spec.simps simp: give_up_def intro!: push_spec_failed)
  then show ?thesis by (intro exI [of _ ?a]) (simp del: push_spec.simps)
next
  case (Inr a)
  from push_parse_ending [OF Inr] have "runs anything (cmd_push env api argv) (if_returned (push_spec (ce_stack (pe_client env)) a))"
    using push_runs [OF assms(1) Inr] by blast
  from runsD [OF this TrueI assms(2)] push_parse_ending [OF Inr] show ?thesis by auto
qed

section \<open>Properties\<close>

text \<open>C3 However the server answers, the certificate transaction is used as Part 12 demands: ApplyChanges or
  CancelChanges is called at most once, and never after a method of the command has failed;
  ApplyChanges is called only when \<open>--apply\<close> was given; and the command exits with 0 only when every method
  it called has succeeded, ApplyChanges among them if it was asked for.\<close>

theorem push_transaction:
  assumes "names_ok (ce_stack (pe_client env))" and "run_state (cmd_push env api argv) (s, []) = (Some (Exit ec doc), s', calls)"
  shows "tx_after Clean calls \<noteq> Abused \<and> (pm_call apply_changes \<in> fst ` set calls \<longrightarrow> p12_has_flag argv ''--apply'')
    \<and> (ec = 0 \<longrightarrow> (\<forall>e\<in>set calls. is_method (fst e) \<longrightarrow> cr_status (snd e) = GOOD)
        \<and> (p12_has_flag argv ''--apply'' \<longrightarrow> pm_call apply_changes \<in> fst ` set calls))"
  using push_outcome [OF assms] by (auto simp: intact_def completed_def successful_def list_all_iff)

text \<open>C37 Every run of push that returns has printed one JSON document, its result object built from
  whatever the server answered; it reports success exactly when the exit code is 0, the exit code is one of
  0, 2, 3, 4, 6 and 7, and at the end the session is closed and the client deleted, or none was ever made.\<close>

theorem push_reports:
  assumes "names_ok (ce_stack (pe_client env))" and "run_state (cmd_push env api argv) (s, []) = (Some (Exit ec doc), s', calls)"
  shows "ec \<in> {0, 2, 3, 4, 6, 7} \<and> document doc \<and> reports (ce_stack (pe_client env)) ''push'' ec doc \<and> session_after Idle calls \<in> {Idle, Deleted}"
  using push_outcome [OF assms] reports_document [OF assms(1)] by (auto simp: command_spec.simps)

text \<open>A server without security that answers every call with success, every path with three nodes, and has
  an empty trust list.\<close>

definition push_ret :: client_ret where
  "push_ret = client_ret_good\<lparr>cr_endpoints := [\<lparr>ep_securityMode = MODE_None, ep_securityPolicyUri = Some (security_policy_uri None), ep_endpointUrl = None\<rparr>],
     cr_pathResults := map (\<lambda>i. \<lparr>bpr_statusCode = GOOD, bpr_targets = [nodeid_numeric 1 i]\<rparr>) [1, 2, 3], cr_outputs := [Scalar (VUInt32 7)]\<rparr>"

definition push_server :: "unit client" where
  "push_server s c = (push_ret, ())"

definition push_env :: "unit p12_env" where
  "push_env = \<lparr>pe_client = plain_env, pe_x509 = undefined, pe_decodeTrustList = (\<lambda>_. Some \<lparr>specifiedLists = 15, trustedCertificates = [], trustedCrls = [],
     issuerCertificates = [], issuerCrls = []\<rparr>), pe_decodeNodeId = (\<lambda>_. None), pe_decodeLocalizedText = (\<lambda>_. None), pe_encode = (\<lambda>_. None)\<rparr>"

definition push_argv :: "string list" where
  "push_argv = [''--endpoint'', ''opc.tcp://h'', ''--apply'']"

definition only_apply :: "PushArgs \<Rightarrow> bool" where
  "only_apply a \<longleftrightarrow> pa_certTypeStr a = None \<and> pa_apply a \<and> \<not> pa_cancel a \<and> pa_add a = [] \<and> pa_remove a = None \<and> \<not> pa_getCerts a
     \<and> \<not> pa_selfSigned a \<and> pa_deleteType a = None \<and> pa_update a = None \<and> \<not> pa_csr a \<and> \<not> pa_reset a \<and> \<not> pa_diagnostics a"

lemma push_arguments: "\<exists>a. push_parse push_env push_argv = Inr a \<and> only_apply a"
  by (simp add: only_apply_def push_parse_def and_then_def push_argv_def push_group_def nodeid_flag_def cert_flag_def uint16_flag_def key_flag_def p12_has_flag_def Let_def)

lemma push_ret_fields: "cr_status push_ret = GOOD" "cr_outputs push_ret = [Scalar (VUInt32 7)]" "length (cr_pathResults push_ret) = 3"
    "first_targets (cr_pathResults push_ret) = Inr [nodeid_numeric 1 1, nodeid_numeric 1 2, nodeid_numeric 1 3]"
    "cr_endpoints push_ret = [\<lparr>ep_securityMode = MODE_None, ep_securityPolicyUri = Some (security_policy_uri None), ep_endpointUrl = None\<rparr>]"
  by (simp_all add: push_ret_def client_ret_good_def)

lemma push_server_answer: "run_state (perform push_server c) ((), tr) = (push_ret, (), tr @ [(c, push_ret)])"
  by (simp add: perform_def push_server_def)

lemma push_connects:
  "\<exists>calls. run_state (connect_command plain_env push_server url ms op) ((), tr) = (Some (Inr (client_settings (\<lambda>_. Inl []) (\<lambda>_. None) g_sec ms)), (), calls)"
  by (simp add: connect_command_def plain_env_def make_client_def make_client_unconnected_def endpoint_check_security_def push_server_answer push_ret_fields
      g_sec_def security_policy_known_iff policy_names_def security_is_none_def security_mode_enum_def endpoint_matches_def security_policy_uri_def policy_table_def)

lemma push_env_fields: "pe_client push_env = plain_env" "pe_decodeTrustList push_env b = Some \<lparr>specifiedLists = 15, trustedCertificates = [], trustedCrls = [],
     issuerCertificates = [], issuerCrls = []\<rparr>" "ce_rounds plain_env = Suc 0"
  by (simp_all add: push_env_def plain_env_def)

lemma push_server_trust_list:
  "\<exists>calls. run_state (p12_read_trust_list (Suc 0) dc push_server trustList True masks) ((), tr) = (Some (case dc [] of None \<Rightarrow> Inl BADDECODINGERROR | Some t \<Rightarrow> Inr t), (), calls)"
  by (simp add: p12_read_trust_list_def p12_translate_def p12_call_def push_server_answer push_ret_fields open_handle_def p12_out_bytestring_def)

lemma push_server_step:
  "\<exists>out' calls. run_state (push_trust_list push_env push_server trustList key msg out) ((), tr) = (Some (Inr out'), (), calls) \<and> po_failed out' = po_failed out \<and> po_inputErr out' = po_inputErr out"
proof -
  obtain calls where "run_state (p12_read_trust_list (Suc 0) (pe_decodeTrustList push_env) push_server trustList True 15) ((), tr) =
      (Some (case pe_decodeTrustList push_env [] of None \<Rightarrow> Inl BADDECODINGERROR | Some t \<Rightarrow> Inr t), (), calls)"
    using push_server_trust_list by blast
  then show ?thesis by (simp add: push_trust_list_def push_env_fields)
qed

lemma push_server_calls:
  "\<not> po_failed out \<Longrightarrow> \<exists>out' calls. run_state (push_calls st push_server pms out) ((), tr) = (Inr out', (), calls) \<and> \<not> po_failed out' \<and> po_inputErr out' = po_inputErr out"
proof (induction pms arbitrary: out tr)
  case (Cons pm pms)
  let ?j = "pm_result pm [Scalar (VUInt32 7)] (p12j_status_field st (snprintf_buf 64 (pm_name pm @ ''Status'')) GOOD (po_j out))"
  from Cons.prems Cons.IH [of "out\<lparr>po_j := ?j\<rparr>" "tr @ [(CallMethod (pm_object pm) (pm_method pm) (pm_inputs pm), push_ret)]"]
  show ?case by (simp add: push_call_def p12_call_def push_server_answer push_ret_fields push_step_def)
qed simp

lemma push_server_middle:
  assumes "only_apply a" and "\<not> po_failed out"
  shows "\<exists>out' calls. run_state (push_middle push_env push_server a grp certType trustList addId removeId out) ((), tr) = (Inr out', (), calls)
    \<and> \<not> po_failed out' \<and> po_inputErr out' = po_inputErr out"
  using push_server_calls [of out "ce_stack plain_env" "later_methods a grp certType @ [apply_changes]" tr] assms
  by (simp add: only_apply_def push_middle_def first_methods_def later_methods_def optional_def push_delete_def push_end_def push_diagnose_def push_env_fields
    push_call_def p12_call_def push_server_answer push_ret_fields push_step_def Let_def)

lemma push_server_trusted:
  assumes "only_apply a" and "\<not> po_failed out" and "\<not> po_inputErr out"
  shows "\<exists>out' calls. run_state (push_trusted push_env push_server a grp certType trustList addId removeId out) ((), tr) = (Some (GOOD, out'), (), calls)
    \<and> \<not> po_failed out' \<and> \<not> po_inputErr out'"
proof -
  obtain o1 tr1 where 1: "run_state (push_trust_list push_env push_server trustList ''trustList'' ''reading the TrustList returned a non-Good status'' out) ((), tr) = (Some (Inr o1), (), tr1)"
      "\<not> po_failed o1" "\<not> po_inputErr o1" using push_server_step assms(2,3) by metis
  obtain o2 tr2 where 2: "run_state (push_middle push_env push_server a grp certType trustList addId removeId o1) ((), tr1) = (Inr o2, (), tr2)"
      "\<not> po_failed o2" "\<not> po_inputErr o2" using push_server_middle [OF assms(1)] 1(2,3) by metis
  obtain o3 tr3 where 3: "run_state (push_trust_list push_env push_server trustList ''trustListAfter'' ''reading the TrustList again returned a non-Good status'' o2) ((), tr2) = (Some (Inr o3), (), tr3)"
      "\<not> po_failed o3" "\<not> po_inputErr o3" using push_server_step 2(2,3) by metis
  show ?thesis using 1 2 3 by (simp add: push_trusted_def)
qed

lemma push_returns: "\<exists>doc calls. run_state (cmd_push push_env push_server push_argv) ((), []) = (Some (Exit 0 doc), (), calls)"
proof -
  obtain a where a: "push_parse push_env push_argv = Inr a" "only_apply a" using push_arguments by blast
  have r: "request_ms push_argv = Some 5000" by (simp add: push_argv_def request_ms_def parse_int_flag_def eval_nat_numeral)
  obtain calls where c: "run_state (connect_command plain_env push_server (bytes_of_string (find_arg push_argv ''--endpoint'')) 5000 ''push'') ((), []) =
      (Some (Inr (client_settings (\<lambda>_. Inl []) (\<lambda>_. None) g_sec 5000)), (), calls)"
    using push_connects by blast
  define o0 where "o0 = push_start\<lparr>po_j := p12j_nodeid (nodeid_numeric 0 (pa_group a)) (p12j_key ''certificateGroupId'' (po_j push_start))\<rparr>"
  have "\<not> po_failed o0" "\<not> po_inputErr o0" by (simp_all add: o0_def push_start_def)
  then obtain o1 tr1 where s: "run_state (push_trusted push_env push_server a (nodeid_numeric 0 (pa_group a)) (nodeid_numeric 0 (pa_defaultType a))
      (nodeid_numeric 1 1) (nodeid_numeric 1 2) (nodeid_numeric 1 3) o0)
      ((), calls @ [(TranslateBrowsePaths (map (\<lambda>p. \<lparr>bp_startingNode = nodeid_numeric 0 (pa_group a), bp_elements = map path_step p\<rparr>)
        [[''TrustList''], [''TrustList'', ''AddCertificate''], [''TrustList'', ''RemoveCertificate'']]), push_ret)]) = (Some (GOOD, o1), (), tr1)"
      "\<not> po_failed o1" "\<not> po_inputErr o1" using push_server_trusted [OF a(2)] by metis
  have "run_state (push_steps push_env push_server a push_start) ((), calls) = (Some (GOOD, o1), (), tr1)"
    using s(1) by (simp add: push_steps_def a(2) [unfolded only_apply_def] o0_def p12_translate_def push_server_answer push_ret_fields Let_def)
  then show ?thesis
    using s(2,3) by (simp add: cmd_push_def a(1) r push_env_fields c push_report_def close_client_def push_server_answer)
qed

theorem push_transaction_witness:
  "\<exists>doc calls. run_state (cmd_push push_env push_server push_argv) ((), []) = (Some (Exit 0 doc), (), calls) \<and> tx_after Clean calls \<noteq> Abused
    \<and> pm_call apply_changes \<in> fst ` set calls"
proof -
  obtain doc calls where r: "run_state (cmd_push push_env push_server push_argv) ((), []) = (Some (Exit 0 doc), (), calls)" using push_returns by blast
  have "names_ok (ce_stack (pe_client push_env))" by (simp add: push_env_fields plain_env_def names_ok_plain_stack)
  from push_transaction [OF this r] r show ?thesis by (simp add: push_argv_def p12_has_flag_def)
qed

theorem push_reports_witness:
  "\<exists>doc calls. run_state (cmd_push push_env push_server push_argv) ((), []) = (Some (Exit 0 doc), (), calls) \<and> document doc
    \<and> reports plain_stack ''push'' 0 doc \<and> session_after Idle calls \<in> {Idle, Deleted}"
proof -
  obtain doc calls where r: "run_state (cmd_push push_env push_server push_argv) ((), []) = (Some (Exit 0 doc), (), calls)" using push_returns by blast
  have "names_ok (ce_stack (pe_client push_env))" by (simp add: push_env_fields plain_env_def names_ok_plain_stack)
  from push_reports [OF this r] r show ?thesis by (simp add: push_env_fields plain_env_def)
qed

end
