(* ===== verification/Gds_Pull.thy ===== *)
theory Gds_Pull
  imports Push
begin

text \<open>
  gds_pull.c: the pull model of a Global Discovery Server. The command finds or registers an application,
  requests a certificate, polls until it is issued, reads the trust list and the status, and may
  revoke the certificate and unregister the application. The steps of \<open>gds_steps\<close> are definitions
  of their own; a step ends the command (the jump to \<open>done\<close>) with Inl. What OpenSSL makes of
  the content of a certificate request is a parameter.
\<close>

definition GDS_NAMESPACE :: string where "GDS_NAMESPACE = ''http://opcfoundation.org/UA/GDS/''"
definition GDS_PRODUCT_URI :: string where "GDS_PRODUCT_URI = ''urn:opcua-interop:open62541''"

abbreviation GDS_DIRECTORY :: u32 where "GDS_DIRECTORY \<equiv> 141"
abbreviation GDS_FIND_APPLICATIONS :: u32 where "GDS_FIND_APPLICATIONS \<equiv> 143"
abbreviation GDS_REGISTER_APPLICATION :: u32 where "GDS_REGISTER_APPLICATION \<equiv> 146"
abbreviation GDS_UNREGISTER_APPLICATION :: u32 where "GDS_UNREGISTER_APPLICATION \<equiv> 149"
abbreviation GDS_START_NEW_KEY_PAIR_REQUEST :: u32 where "GDS_START_NEW_KEY_PAIR_REQUEST \<equiv> 154"
abbreviation GDS_START_SIGNING_REQUEST :: u32 where "GDS_START_SIGNING_REQUEST \<equiv> 157"
abbreviation GDS_FINISH_REQUEST :: u32 where "GDS_FINISH_REQUEST \<equiv> 163"
abbreviation GDS_CHECK_REVOCATION_STATUS :: u32 where "GDS_CHECK_REVOCATION_STATUS \<equiv> 177"
abbreviation GDS_GET_TRUST_LIST :: u32 where "GDS_GET_TRUST_LIST \<equiv> 204"
abbreviation GDS_GET_CERTIFICATE_STATUS :: u32 where "GDS_GET_CERTIFICATE_STATUS \<equiv> 225"
abbreviation GDS_GET_CERTIFICATE_GROUPS :: u32 where "GDS_GET_CERTIFICATE_GROUPS \<equiv> 508"
abbreviation GDS_REVOKE_CERTIFICATE :: u32 where "GDS_REVOKE_CERTIFICATE \<equiv> 15005"
abbreviation GDS_DEFAULT_APPLICATION_GROUP :: u32 where "GDS_DEFAULT_APPLICATION_GROUP \<equiv> 615"
abbreviation GDS_APPLICATION_RECORD_BINARY :: u32 where "GDS_APPLICATION_RECORD_BINARY \<equiv> 134"
abbreviation GDS_RSA_SHA256_TYPE :: u32 where "GDS_RSA_SHA256_TYPE \<equiv> 12560"
abbreviation GDS_NIST_P256_TYPE :: u32 where "GDS_NIST_P256_TYPE \<equiv> 23538"
abbreviation GDS_FINISH_POLL_MS :: nat where "GDS_FINISH_POLL_MS \<equiv> 200"
abbreviation UA_NS0ID_SERVER_NAMESPACEARRAY :: u32 where "UA_NS0ID_SERVER_NAMESPACEARRAY \<equiv> 2255"
abbreviation BADNODEIDUNKNOWN :: u32 where "BADNODEIDUNKNOWN \<equiv> 0x80340000"
abbreviation BADNOTHINGTODO :: u32 where "BADNOTHINGTODO \<equiv> 0x800F0000"

section \<open>Arguments\<close>

record GdsArgs =
  ga_appUri :: string
  ga_appName :: string
  ga_appType :: u32 \<comment> \<open>Server 0, Client 1, ClientAndServer 2\<close>
  ga_urls :: "string list"
  ga_csr :: bool
  ga_nistP256 :: bool
  ga_revoke :: bool
  ga_unregister :: bool
  ga_finishTimeoutMs :: u64

fun after_last :: "string \<Rightarrow> string \<Rightarrow> string" where
  "after_last seg [] = seg"
| "after_last seg (c # p) = after_last (if c = CHR '':'' \<or> c = CHR ''/'' then p else seg) p"

definition gds_app_name :: "string \<Rightarrow> string" where
  "gds_app_name uri = (let seg = after_last uri uri in if seg \<noteq> [] then seg else ''opcua-interop gds-pull app'')"

definition choice_flag :: "string \<Rightarrow> string \<Rightarrow> (string \<times> 'a) list \<Rightarrow> 'a \<Rightarrow> cstr \<Rightarrow> 'a res" where
  "choice_flag flag choices table def s = (case s of None \<Rightarrow> Inr def
     | Some t \<Rightarrow> (case map_of table t of Some x \<Rightarrow> Inr x | None \<Rightarrow> Inl (''invalid '' @ flag @ '' '' @ t @ choices)))"

definition gds_parse :: "string list \<Rightarrow> GdsArgs res" where
  "gds_parse argv =
    (if find_arg argv ''--endpoint'' = None then Inl ''--endpoint is required''
     else let appUri = (case find_arg argv ''--app-uri'' of Some u \<Rightarrow> u | None \<Rightarrow> ''urn:opcua-interop:gds-pull:app'') in
       and_then (choice_flag ''--app-type'' '' (Server|Client|ClientAndServer)''
           [(''Server'', 0), (''Client'', 1), (''ClientAndServer'', 2)] 0 (find_arg argv ''--app-type'')) (\<lambda>appType.
       and_then (choice_flag ''--request'' '' (csr|new-key-pair)'' [(''csr'', True), (''new-key-pair'', False)] True (find_arg argv ''--request'')) (\<lambda>csr.
       and_then (choice_flag ''--certificate-type'' '' (RsaSha256|NistP256)'' [(''RsaSha256'', False), (''NistP256'', True)] False
           (find_arg argv ''--certificate-type'')) (\<lambda>nistP256.
       and_then (case find_arg argv ''--finish-timeout-ms'' of None \<Rightarrow> Inr 30000
           | Some ft \<Rightarrow> (case p12_parse_uint (Some ft) 0xffffffff of Some v \<Rightarrow> Inr v | None \<Rightarrow> Inl (''invalid --finish-timeout-ms '' @ ft))) (\<lambda>finishTimeoutMs.
         Inr \<lparr>ga_appUri = appUri, ga_appName = gds_app_name appUri, ga_appType = appType, ga_urls = p12_all_values argv ''--discovery-url'',
           ga_csr = csr, ga_nistP256 = nistP256, ga_revoke = p12_has_flag argv ''--revoke'', ga_unregister = p12_has_flag argv ''--unregister'',
           ga_finishTimeoutMs = finishTimeoutMs\<rparr>)))))"

section \<open>The application record\<close>

text \<open>Every field is appended even after one could not be encoded; the buffer is dropped at the end then.\<close>

definition gds_append :: "'x p12_env \<Rightarrow> ua_val \<Rightarrow> bool \<times> byte list \<Rightarrow> bool \<times> byte list" where
  "gds_append env v = (\<lambda>(rc, buf). case pe_encode env v of Some enc \<Rightarrow> (rc, buf @ enc) | None \<Rightarrow> (True, buf))"

definition gds_append_string :: "'x p12_env \<Rightarrow> string \<Rightarrow> bool \<times> byte list \<Rightarrow> bool \<times> byte list" where
  "gds_append_string env s = gds_append env (VString (Some s))"

definition gds_encode_record :: "'x p12_env \<Rightarrow> GdsArgs \<Rightarrow> byte list option" where
  "gds_encode_record env a =
    (let client = (ga_appType a = 1);
         urls = (if client then [] else if ga_urls a \<noteq> [] then ga_urls a else [''opc.tcp://localhost:4850'']);
         out = gds_append env (VNodeId nodeid_null) (False, []);
         out = gds_append_string env (ga_appUri a) out;
         out = gds_append env (VInt32 (ga_appType a)) out;
         out = gds_append env (VInt32 1) out;
         out = gds_append env (VLocalizedText \<lparr>lt_locale = Some ''en-US'', lt_text = Some (ga_appName a)\<rparr>) out;
         out = gds_append_string env GDS_PRODUCT_URI out;
         out = gds_append env (VInt32 (word_of_nat (length urls))) out;
         out = fold (gds_append_string env) urls out;
         out = gds_append env (VInt32 (if client then 0 else 1)) out;
         out = (if client then out else gds_append_string env ''NA'' out)
     in if fst out then None else Some (snd out))"

definition gds_record_id :: "'x p12_env \<Rightarrow> ua_type \<Rightarrow> ua_val \<Rightarrow> nodeid option" where
  "gds_record_id env t elem = (case tx_body env t elem of
     Some body \<Rightarrow> pe_decodeNodeId env (case body of Some b \<Rightarrow> b | None \<Rightarrow> [])
   | None \<Rightarrow> None)"

section \<open>The certificate request\<close>

datatype general_name = GEN_URI string | GEN_DNS string

record csr_content =
  csr_nistP256 :: bool \<comment> \<open>a fresh P-256 key, else RSA with 2048 bits\<close>
  csr_commonName :: string
  csr_altNames :: "general_name list"

text \<open>The DER of the request with this content, signed with its key and SHA-256; None when a call of
  OpenSSL failed.\<close>

type_synonym csr_lib = "csr_content \<Rightarrow> byte list option"

definition gds_make_csr :: "csr_lib \<Rightarrow> GdsArgs \<Rightarrow> byte list option" where
  "gds_make_csr lib a = lib \<lparr>csr_nistP256 = ga_nistP256 a, csr_commonName = ga_appName a,
     csr_altNames = [GEN_URI (ga_appUri a), GEN_DNS ''localhost'']\<rparr>"

section \<open>The steps\<close>

record GdsRun =
  gr_j :: P12Json
  gr_failed :: bool
  gr_failSc :: u32
  gr_failMsg :: string
  gr_internal :: bool
  gr_transport :: bool
  gr_transportSc :: u32

definition gds_lost :: "u32 \<Rightarrow> string \<Rightarrow> GdsRun \<Rightarrow> GdsRun" where
  "gds_lost sc what s = s\<lparr>gr_transport := True, gr_transportSc := sc, gr_failMsg := snprintf_buf 256 (what @ '': the connection failed'')\<rparr>"

definition gds_refused :: "stack \<Rightarrow> u32 \<Rightarrow> string \<Rightarrow> GdsRun \<Rightarrow> GdsRun" where
  "gds_refused st sc what s = s\<lparr>gr_failed := True, gr_failSc := sc, gr_failMsg := snprintf_buf 256 (what @ '': '' @ bytes_of_string (StatusCode_name st sc))\<rparr>"

definition gds_broken :: "string \<Rightarrow> GdsRun \<Rightarrow> GdsRun" where
  "gds_broken msg s = s\<lparr>gr_internal := True, gr_failMsg := snprintf_buf 256 msg\<rparr>"

definition gds_directory :: "u16 \<Rightarrow> nodeid" where
  "gds_directory ns = nodeid_numeric ns GDS_DIRECTORY"

definition gds_group :: "u16 \<Rightarrow> nodeid" where
  "gds_group ns = nodeid_numeric ns GDS_DEFAULT_APPLICATION_GROUP"

definition gds_certType :: "GdsArgs \<Rightarrow> nodeid" where
  "gds_certType a = nodeid_numeric 0 (if ga_nistP256 a then GDS_NIST_P256_TYPE else GDS_RSA_SHA256_TYPE)"

text \<open>The outputs of a good call, or the run after a failure.\<close>

definition gds_call ::
  "'x p12_env \<Rightarrow> 's client \<Rightarrow> u16 \<Rightarrow> string \<Rightarrow> bool \<Rightarrow> u32 \<Rightarrow> variant list \<Rightarrow> GdsRun \<Rightarrow> ('s client_world, GdsRun + variant list \<times> GdsRun) state" where
  "gds_call env api ns statusKey keepGood m inputs s = do {
     (sc, outputs) \<leftarrow> p12_call api (gds_directory ns) (nodeid_numeric ns m) inputs;
     let st = ce_stack (pe_client env);
     State_Monad.return
       (if p12_is_transport sc then Inl (gds_lost sc statusKey s)
        else if sc = GOOD then Inr (outputs, if keepGood then s\<lparr>gr_j := p12j_status_field st statusKey sc (gr_j s)\<rparr> else s)
        else Inl (gds_refused st sc statusKey (s\<lparr>gr_j := p12j_status_field st statusKey sc (gr_j s)\<rparr>)))
   }"

text \<open>A step after a step; the jump to the end of the function skips it.\<close>

definition gds_then :: "('w, (GdsRun + 'a) option) state \<Rightarrow> ('a \<Rightarrow> ('w, (GdsRun + 'b) option) state) \<Rightarrow> ('w, (GdsRun + 'b) option) state" where
  "gds_then m f = do {
     r \<leftarrow> m;
     case r of None \<Rightarrow> State_Monad.return None | Some (Inl s) \<Rightarrow> State_Monad.return (Some (Inl s)) | Some (Inr x) \<Rightarrow> f x
   }"

definition gds_method ::
  "'x p12_env \<Rightarrow> 's client \<Rightarrow> u16 \<Rightarrow> string \<Rightarrow> bool \<Rightarrow> u32 \<Rightarrow> variant list \<Rightarrow> (variant list \<Rightarrow> P12Json \<Rightarrow> P12Json) \<Rightarrow> GdsRun
    \<Rightarrow> ('s client_world, (GdsRun + variant list \<times> GdsRun) option) state" where
  "gds_method env api ns statusKey keepGood m inputs result s = do {
     r \<leftarrow> gds_call env api ns statusKey keepGood m inputs s;
     State_Monad.return (Some (case r of Inl s \<Rightarrow> Inl s | Inr (outputs, s) \<Rightarrow> Inr (outputs, s\<lparr>gr_j := result outputs (gr_j s)\<rparr>)))
   }"

definition record_ids :: "'x p12_env \<Rightarrow> variant list \<Rightarrow> nodeid list" where
  "record_ids env outputs = (case outputs of Array t vs _ # _ \<Rightarrow> List.map_filter (gds_record_id env t) vs | _ \<Rightarrow> [])"

definition find_result :: "'x p12_env \<Rightarrow> variant list \<Rightarrow> P12Json \<Rightarrow> P12Json" where
  "find_result env outputs j =
    (let j = p12j_open CHR ''['' (p12j_key ''findApplications'' j)
     in p12j_close CHR '']'' (fold (\<lambda>n j. p12j_nodeid n (p12j_sep j)) (record_ids env outputs) j))"

text \<open>The application: the first record that was found, else the one that is registered now.\<close>

definition gds_application :: "'x p12_env \<Rightarrow> 's client \<Rightarrow> u16 \<Rightarrow> GdsArgs \<Rightarrow> GdsRun \<Rightarrow> ('s client_world, (GdsRun + nodeid \<times> GdsRun) option) state" where
  "gds_application env api ns a s =
    gds_then (gds_method env api ns ''findApplicationsStatus'' False GDS_FIND_APPLICATIONS [p12v_string (Some (ga_appUri a))] (find_result env) s) (\<lambda>(outputs, s).
      case record_ids env outputs of
        appId # _ \<Rightarrow> State_Monad.return (Some (Inr (appId, s\<lparr>gr_j := p12j_raw ''false'' (p12j_key ''registered'' (gr_j s))\<rparr>)))
      | [] \<Rightarrow>
         (case gds_encode_record env a of
            None \<Rightarrow> State_Monad.return (Some (Inl (gds_broken ''cannot encode ApplicationRecordDataType'' s)))
          | Some body \<Rightarrow>
             gds_then (gds_method env api ns ''registerStatus'' True GDS_REGISTER_APPLICATION
                 [Scalar (VExtensionObject (EncodedBytes (nodeid_numeric ns GDS_APPLICATION_RECORD_BINARY) (Some body)))]
                 (\<lambda>outputs j. p12j_raw ''true'' (p12j_key ''registered'' j)) s) (\<lambda>(outputs, s).
               State_Monad.return (Some (Inr (case p12_out_nodeid outputs 0 of Some n \<Rightarrow> n | None \<Rightarrow> nodeid_null, s))))))"

definition gds_start :: "'x p12_env \<Rightarrow> csr_lib \<Rightarrow> 's client \<Rightarrow> u16 \<Rightarrow> GdsArgs \<Rightarrow> nodeid \<Rightarrow> GdsRun \<Rightarrow> ('s client_world, (GdsRun + nodeid \<times> GdsRun) option) state" where
  "gds_start env lib api ns a appId s =
    (let j = p12j_nodeid appId (p12j_key ''applicationId'' (gr_j s));
         s = s\<lparr>gr_j := p12j_cstr (Some (if ga_csr a then ''csr'' else ''new-key-pair'')) (p12j_key ''requestKind'' j)\<rparr>;
         started = (\<lambda>(outputs, s).
           let requestId = (case p12_out_nodeid outputs 0 of Some n \<Rightarrow> n | None \<Rightarrow> nodeid_null) in
           State_Monad.return (Some (Inr (requestId, s\<lparr>gr_j := p12j_nodeid requestId (p12j_key ''requestId'' (gr_j s))\<rparr>))));
         keep = (\<lambda>outputs j. j) in
     if ga_csr a then
       (case gds_make_csr lib a of
          None \<Rightarrow> State_Monad.return (Some (Inl (gds_broken ''cannot create the certificate request'' s)))
        | Some csr \<Rightarrow> gds_then (gds_method env api ns ''startRequestStatus'' True GDS_START_SIGNING_REQUEST
            [p12v_nodeid appId, p12v_nodeid (gds_group ns), p12v_nodeid (gds_certType a), p12v_bytestring (Some (Some csr))] keep s) started)
     else gds_then (gds_method env api ns ''startRequestStatus'' True GDS_START_NEW_KEY_PAIR_REQUEST
       [p12v_nodeid appId, p12v_nodeid (gds_group ns), p12v_nodeid (gds_certType a), p12v_string (Some (snprintf_buf 512 (''CN='' @ ga_appName a))),
        p12v_string_array [''localhost''], p12v_string (Some ''PEM''), p12v_string None] keep s) started)"

text \<open>Polling FinishRequest while the request is pending; None when the bound on the rounds was reached.\<close>

fun gds_poll :: "nat \<Rightarrow> 's client \<Rightarrow> u16 \<Rightarrow> nodeid \<Rightarrow> nodeid \<Rightarrow> int \<Rightarrow> ('s client_world, (u32 \<times> variant list) option) state" where
  "gds_poll 0 api ns appId requestId deadline = State_Monad.return None"
| "gds_poll (Suc rounds) api ns appId requestId deadline = do {
     (sc, outputs) \<leftarrow> p12_call api (gds_directory ns) (nodeid_numeric ns GDS_FINISH_REQUEST) [p12v_nodeid appId, p12v_nodeid requestId];
     if sc = BADNOTHINGTODO then do {
       t \<leftarrow> perform api MonoMs;
       if cr_ms t < deadline then do {
         _ \<leftarrow> perform api (SleepMs GDS_FINISH_POLL_MS);
         gds_poll rounds api ns appId requestId deadline
       }
       else State_Monad.return (Some (sc, outputs))
     }
     else State_Monad.return (Some (sc, outputs))
   }"

definition finish_result :: "GdsArgs \<Rightarrow> ua_bytes \<Rightarrow> variant list \<Rightarrow> P12Json \<Rightarrow> P12Json" where
  "finish_result a certificate outputs j =
    (let j = p12j_b64_field ''certificate'' (Some certificate) j;
         j = (if ga_csr a then j
              else p12j_b64_field ''privateKey'' (p12_out_bytestring outputs 1) (p12j_cstr (Some ''PEM'') (p12j_key ''privateKeyFormat'' j)))
     in p12j_b64_array_field ''issuerCertificates'' (out_arg outputs 2) j)"

definition gds_finish :: "'x p12_env \<Rightarrow> 's client \<Rightarrow> u16 \<Rightarrow> GdsArgs \<Rightarrow> nodeid \<Rightarrow> nodeid \<Rightarrow> GdsRun \<Rightarrow> ('s client_world, (GdsRun + ua_bytes \<times> GdsRun) option) state" where
  "gds_finish env api ns a appId requestId s = do {
     t \<leftarrow> perform api MonoMs;
     r \<leftarrow> gds_poll (ce_rounds (pe_client env)) api ns appId requestId (cr_ms t + int (unat (ga_finishTimeoutMs a)));
     let st = ce_stack (pe_client env);
     State_Monad.return (case r of
       None \<Rightarrow> None
     | Some (sc, outputs) \<Rightarrow> Some
         (if p12_is_transport sc then Inl (gds_lost sc ''finishRequest'' s)
          else let s = s\<lparr>gr_j := p12j_status_field st ''finishRequestStatus'' sc (gr_j s)\<rparr> in
            if sc \<noteq> GOOD then Inl (gds_refused st sc ''finishRequest'' s)
            else let certificate = (case p12_out_bytestring outputs 0 of Some c \<Rightarrow> c | None \<Rightarrow> None)
                 in Inr (certificate, s\<lparr>gr_j := finish_result a certificate outputs (gr_j s)\<rparr>)))
   }"

definition gds_read_trust_list :: "'x p12_env \<Rightarrow> 's client \<Rightarrow> nodeid \<Rightarrow> GdsRun \<Rightarrow> ('s client_world, (GdsRun + GdsRun) option) state" where
  "gds_read_trust_list env api trustList s = do {
     r \<leftarrow> p12_read_trust_list (ce_rounds (pe_client env)) (pe_decodeTrustList env) api trustList False 0;
     let st = ce_stack (pe_client env);
     State_Monad.return (case r of
       None \<Rightarrow> None
     | Some (Inl sc) \<Rightarrow> Some (Inl
         (if p12_is_transport sc then gds_lost sc ''readTrustList'' s
          else gds_refused st sc ''readTrustList'' (s\<lparr>gr_j := p12j_status_field st ''readTrustListStatus'' sc (gr_j s)\<rparr>)))
     | Some (Inr trust) \<Rightarrow> Some (Inr (s\<lparr>gr_j := p12j_trust_list trust (p12j_key ''trustList'' (gr_j s))\<rparr>)))
   }"

definition gds_groups_and_trust :: "'x p12_env \<Rightarrow> 's client \<Rightarrow> u16 \<Rightarrow> nodeid \<Rightarrow> GdsRun \<Rightarrow> ('s client_world, (GdsRun + GdsRun) option) state" where
  "gds_groups_and_trust env api ns appId s =
    gds_then (gds_method env api ns ''getCertificateGroupsStatus'' False GDS_GET_CERTIFICATE_GROUPS [p12v_nodeid appId]
      (\<lambda>outputs. p12j_nodeid_array_field ''certificateGroups'' (out_arg outputs 0)) s) (\<lambda>(_, s).
    gds_then (gds_method env api ns ''getTrustListStatus'' False GDS_GET_TRUST_LIST [p12v_nodeid appId, p12v_nodeid (gds_group ns)]
      (\<lambda>outputs j. p12j_nodeid (case p12_out_nodeid outputs 0 of Some n \<Rightarrow> n | None \<Rightarrow> nodeid_null) (p12j_key ''trustListId'' j)) s) (\<lambda>(outputs, s).
    gds_read_trust_list env api (case p12_out_nodeid outputs 0 of Some n \<Rightarrow> n | None \<Rightarrow> nodeid_null) s))"

definition bool_member :: "string \<Rightarrow> bool \<Rightarrow> P12Json \<Rightarrow> P12Json" where
  "bool_member key b j = p12j_raw (if b then ''true'' else ''false'') (p12j_key key j)"

definition revocation_status :: "variant list \<Rightarrow> u32" where
  "revocation_status outputs = (case outputs of Scalar (VStatusCode c) # _ \<Rightarrow> c | _ \<Rightarrow> BADUNEXPECTEDERROR)"

definition gds_revoke :: "'x p12_env \<Rightarrow> 's client \<Rightarrow> u16 \<Rightarrow> GdsArgs \<Rightarrow> nodeid \<Rightarrow> ua_bytes \<Rightarrow> GdsRun \<Rightarrow> ('s client_world, (GdsRun + GdsRun) option) state" where
  "gds_revoke env api ns a appId certificate s =
    (if ga_revoke a then
       gds_then (gds_method env api ns ''revokeStatus'' True GDS_REVOKE_CERTIFICATE [p12v_nodeid appId, p12v_bytestring (Some certificate)] (\<lambda>_ j. j) s) (\<lambda>(_, s).
       gds_then (gds_method env api ns ''checkRevocationStatus'' True GDS_CHECK_REVOCATION_STATUS [p12v_bytestring (Some certificate)]
         (\<lambda>outputs. p12j_status_field (ce_stack (pe_client env)) ''certificateStatus'' (revocation_status outputs)) s) (\<lambda>(_, s).
       State_Monad.return (Some (Inr s))))
     else State_Monad.return (Some (Inr s)))"

definition gds_unregister :: "'x p12_env \<Rightarrow> 's client \<Rightarrow> u16 \<Rightarrow> GdsArgs \<Rightarrow> nodeid \<Rightarrow> GdsRun \<Rightarrow> ('s client_world, (GdsRun + GdsRun) option) state" where
  "gds_unregister env api ns a appId s =
    (if ga_unregister a then
       gds_then (gds_method env api ns ''unregisterStatus'' True GDS_UNREGISTER_APPLICATION [p12v_nodeid appId] (\<lambda>_ j. j) s) (\<lambda>(_, s).
       State_Monad.return (Some (Inr s)))
     else State_Monad.return (Some (Inr s)))"

definition gds_steps :: "'x p12_env \<Rightarrow> csr_lib \<Rightarrow> 's client \<Rightarrow> u16 \<Rightarrow> GdsArgs \<Rightarrow> GdsRun \<Rightarrow> ('s client_world, GdsRun option) state" where
  "gds_steps env lib api ns a s = do {
     r \<leftarrow> gds_then (gds_application env api ns a s) (\<lambda>(appId, s).
          gds_then (gds_start env lib api ns a appId s) (\<lambda>(requestId, s).
          gds_then (gds_finish env api ns a appId requestId s) (\<lambda>(certificate, s).
          gds_then (gds_groups_and_trust env api ns appId s) (\<lambda>s.
          gds_then (gds_method env api ns ''getCertificateStatusStatus'' True GDS_GET_CERTIFICATE_STATUS
              [p12v_nodeid appId, p12v_nodeid (gds_group ns), p12v_nodeid (gds_certType a)]
              (\<lambda>outputs. bool_member ''updateRequired'' (p12_out_bool outputs 0)) s) (\<lambda>(_, s).
          gds_then (gds_revoke env api ns a appId certificate s) (\<lambda>s.
          gds_unregister env api ns a appId s))))));
     State_Monad.return (map_option (\<lambda>r. case r of Inl s \<Rightarrow> s | Inr s \<Rightarrow> s) r)
   }"

section \<open>The command\<close>

fun gds_scan :: "nat \<Rightarrow> ua_val list \<Rightarrow> u16" where
  "gds_scan i [] = 0"
| "gds_scan i (v # vs) = (if 0xffff < i then 0 else if v = VString (Some GDS_NAMESPACE) then word_of_nat i else gds_scan (Suc i) vs)"

definition gds_namespace :: "'s client \<Rightarrow> ('s client_world, u32 + u16) state" where
  "gds_namespace api = do {
     r \<leftarrow> perform api (ReadValueAttribute (nodeid_numeric 0 UA_NS0ID_SERVER_NAMESPACEARRAY));
     let ns = (case cr_value r of Array TString vs _ \<Rightarrow> gds_scan 0 vs | _ \<Rightarrow> 0);
     State_Monad.return (if cr_status r \<noteq> GOOD then Inl (cr_status r) else if ns = 0 then Inl BADNODEIDUNKNOWN else Inr ns)
   }"

definition gds_begin :: GdsRun where
  "gds_begin = \<lparr>gr_j = p12j_open CHR ''{'' p12j_init, gr_failed = False, gr_failSc = GOOD, gr_failMsg = [], gr_internal = False,
     gr_transport = False, gr_transportSc = GOOD\<rparr>"

definition gds_report :: "stack \<Rightarrow> GdsRun \<Rightarrow> int \<times> string" where
  "gds_report st s =
    (let j = p12j_close CHR ''}'' (gr_j s) in
     if gr_transport s then
       (let code = p12_exit_code (gr_transportSc s) in
        (code, p12_emit st ''gds-pull'' False (gr_transportSc s) (Some (if code = 7 then ''timeout'' else ''transport'')) (Some (gr_failMsg s)) None))
     else if gr_internal s then (6, p12_emit st ''gds-pull'' False BADINTERNALERROR (Some ''internal'') (Some (gr_failMsg s)) None)
     else if gr_failed s then (4, p12_emit st ''gds-pull'' False (gr_failSc s) (Some ''service'') (Some (gr_failMsg s)) (Some j))
     else (0, p12_emit st ''gds-pull'' True GOOD None None (Some j)))"

definition no_namespace :: "stack \<Rightarrow> u32 \<Rightarrow> int \<times> string" where
  "no_namespace st sc =
    (let ec = (if p12_is_transport sc then p12_exit_code sc else 4) in
     (ec, cli_emit_failure st ''gds-pull'' sc (if ec = 7 then ''timeout'' else if ec = 3 then ''transport'' else ''service'')
        (snprintf_buf 512 (''the server has no namespace '' @ GDS_NAMESPACE @ '' ('' @ bytes_of_string (StatusCode_name st sc) @ '')''))))"

definition gds_leave :: "'s client \<Rightarrow> int \<times> string \<Rightarrow> ('s client_world, outcome option) state" where
  "gds_leave api r = do { _ \<leftarrow> close_client api; State_Monad.return (Some (case r of (code, doc) \<Rightarrow> Exit code doc)) }"

definition cmd_gds_pull :: "'x p12_env \<Rightarrow> csr_lib \<Rightarrow> 's client \<Rightarrow> string list \<Rightarrow> ('s client_world, outcome option) state" where
  "cmd_gds_pull env lib api argv =
    (let st = ce_stack (pe_client env) in
     case gds_parse argv of
       Inl msg \<Rightarrow> State_Monad.return (Some (give_up (pe_client env) ''gds-pull'' BADINVALIDARGUMENT (snprintf_buf 512 msg)))
     | Inr a \<Rightarrow>
        (case request_ms argv of
           None \<Rightarrow> State_Monad.return (Some Undefined)
         | Some ms \<Rightarrow> do {
             m \<leftarrow> connect_command (pe_client env) api (bytes_of_string (find_arg argv ''--endpoint'')) ms ''gds-pull'';
             case m of
               None \<Rightarrow> State_Monad.return None
             | Some (Inl out) \<Rightarrow> State_Monad.return (Some out)
             | Some (Inr cfg) \<Rightarrow> do {
                 n \<leftarrow> gds_namespace api;
                 case n of
                   Inl sc \<Rightarrow> gds_leave api (no_namespace st sc)
                 | Inr ns \<Rightarrow> do {
                     r \<leftarrow> gds_steps env lib api ns a gds_begin;
                     case r of None \<Rightarrow> State_Monad.return None | Some s \<Rightarrow> gds_leave api (gds_report st s)
                   }
               }
           }))"

section \<open>The protocol of the pull model\<close>

text \<open>What the command may ask of the Directory, as a state machine over its calls and their answers. The
  calls of the file methods of a trust list carry a byte or a handle first and are not requests
  to the Directory.\<close>

datatype gds_phase =
    G_Start
  | G_Unknown \<comment> \<open>no record of the application\<close>
  | G_Known nodeid
  | G_Requested nodeid nodeid
  | G_Issued nodeid ua_bytes nat \<comment> \<open>application, certificate, steps done since\<close>
  | G_Stopped
  | G_Violated

definition gds_c :: "u16 \<Rightarrow> u32 \<Rightarrow> variant list \<Rightarrow> client_call" where
  "gds_c ns m inputs = CallMethod (gds_directory ns) (nodeid_numeric ns m) inputs"

fun gds_request :: "u16 \<Rightarrow> client_call \<Rightarrow> bool" where
  "gds_request ns (CallMethod ob m (Scalar (VByte _) # _)) = False"
| "gds_request ns (CallMethod ob m (Scalar (VUInt32 _) # _)) = False"
| "gds_request ns (CallMethod ob m inputs) = (ob = gds_directory ns)"
| "gds_request ns _ = False"

definition out_id :: "variant list \<Rightarrow> nodeid" where
  "out_id outputs = (case p12_out_nodeid outputs 0 of Some n \<Rightarrow> n | None \<Rightarrow> nodeid_null)"

definition out_certificate :: "variant list \<Rightarrow> ua_bytes" where
  "out_certificate outputs = (case p12_out_bytestring outputs 0 of Some c \<Rightarrow> c | None \<Rightarrow> None)"

definition start_request :: "csr_lib \<Rightarrow> u16 \<Rightarrow> GdsArgs \<Rightarrow> nodeid \<Rightarrow> client_call option" where
  "start_request lib ns a appId =
    (let ids = [p12v_nodeid appId, p12v_nodeid (gds_group ns), p12v_nodeid (gds_certType a)] in
     if ga_csr a then map_option (\<lambda>csr. gds_c ns GDS_START_SIGNING_REQUEST (ids @ [p12v_bytestring (Some (Some csr))])) (gds_make_csr lib a)
     else Some (gds_c ns GDS_START_NEW_KEY_PAIR_REQUEST (ids @ [p12v_string (Some (snprintf_buf 512 (''CN='' @ ga_appName a))),
       p12v_string_array [''localhost''], p12v_string (Some ''PEM''), p12v_string None])))"

text \<open>After the certificate: the requests that follow, in order.\<close>

definition issued_script :: "u16 \<Rightarrow> GdsArgs \<Rightarrow> nodeid \<Rightarrow> ua_bytes \<Rightarrow> client_call list" where
  "issued_script ns a appId certificate =
    [gds_c ns GDS_GET_CERTIFICATE_GROUPS [p12v_nodeid appId],
     gds_c ns GDS_GET_TRUST_LIST [p12v_nodeid appId, p12v_nodeid (gds_group ns)],
     gds_c ns GDS_GET_CERTIFICATE_STATUS [p12v_nodeid appId, p12v_nodeid (gds_group ns), p12v_nodeid (gds_certType a)]]
    @ (if ga_revoke a then [gds_c ns GDS_REVOKE_CERTIFICATE [p12v_nodeid appId, p12v_bytestring (Some certificate)],
         gds_c ns GDS_CHECK_REVOCATION_STATUS [p12v_bytestring (Some certificate)]] else [])
    @ (if ga_unregister a then [gds_c ns GDS_UNREGISTER_APPLICATION [p12v_nodeid appId]] else [])"

fun gds_allowed :: "'x p12_env \<Rightarrow> csr_lib \<Rightarrow> u16 \<Rightarrow> GdsArgs \<Rightarrow> gds_phase \<Rightarrow> client_call \<Rightarrow> (variant list \<Rightarrow> gds_phase) option" where
  "gds_allowed env lib ns a G_Start c =
    (if c = gds_c ns GDS_FIND_APPLICATIONS [p12v_string (Some (ga_appUri a))]
     then Some (\<lambda>outputs. case record_ids env outputs of [] \<Rightarrow> G_Unknown | appId # _ \<Rightarrow> G_Known appId) else None)"
| "gds_allowed env lib ns a G_Unknown c = (case gds_encode_record env a of None \<Rightarrow> None
     | Some body \<Rightarrow>
        if c = gds_c ns GDS_REGISTER_APPLICATION [Scalar (VExtensionObject (EncodedBytes (nodeid_numeric ns GDS_APPLICATION_RECORD_BINARY) (Some body)))]
        then Some (\<lambda>outputs. G_Known (out_id outputs)) else None)"
| "gds_allowed env lib ns a (G_Known appId) c = (if start_request lib ns a appId = Some c then Some (\<lambda>outputs. G_Requested appId (out_id outputs)) else None)"
| "gds_allowed env lib ns a (G_Requested appId requestId) c =
    (if c = gds_c ns GDS_FINISH_REQUEST [p12v_nodeid appId, p12v_nodeid requestId]
     then Some (\<lambda>outputs. G_Issued appId (out_certificate outputs) 0) else None)"
| "gds_allowed env lib ns a (G_Issued appId certificate k) c =
    (if k < length (issued_script ns a appId certificate) \<and> c = issued_script ns a appId certificate ! k
     then Some (\<lambda>_. G_Issued appId certificate (Suc k)) else None)"
| "gds_allowed env lib ns a _ c = None"

text \<open>Only a request that is pending may be repeated; after any other failure nothing may follow.\<close>

definition gds_next :: "'x p12_env \<Rightarrow> csr_lib \<Rightarrow> u16 \<Rightarrow> GdsArgs \<Rightarrow> gds_phase \<Rightarrow> client_call \<times> client_ret \<Rightarrow> gds_phase" where
  "gds_next env lib ns a p e =
    (if \<not> gds_request ns (fst e) then p
     else case gds_allowed env lib ns a p (fst e) of
         None \<Rightarrow> G_Violated
       | Some next \<Rightarrow>
           if cr_status (snd e) = GOOD then next (cr_outputs (snd e))
           else if cr_status (snd e) = BADNOTHINGTODO then (case p of G_Requested _ _ \<Rightarrow> p | _ \<Rightarrow> G_Stopped)
           else G_Stopped)"

definition gds_after :: "'x p12_env \<Rightarrow> csr_lib \<Rightarrow> u16 \<Rightarrow> GdsArgs \<Rightarrow> gds_phase \<Rightarrow> (client_call \<times> client_ret) list \<Rightarrow> gds_phase" where
  "gds_after env lib ns a p calls = foldl (gds_next env lib ns a) p calls"

lemma gds_after_simps [simp]: "gds_after env lib ns a p [] = p" "gds_after env lib ns a p (e # calls) = gds_after env lib ns a (gds_next env lib ns a p e) calls"
    "gds_after env lib ns a p (x @ y) = gds_after env lib ns a (gds_after env lib ns a p x) y"
  by (simp_all add: gds_after_def)

definition sound :: "gds_phase \<Rightarrow> bool" where "sound p \<longleftrightarrow> p \<noteq> G_Violated"

lemma sound_simps [simp]: "sound G_Start" "sound G_Unknown" "sound (G_Known i)" "sound (G_Requested i r)" "sound (G_Issued i c k)" "sound G_Stopped"
  by (simp_all add: sound_def)

section \<open>The steps follow the protocol\<close>

definition over :: "GdsRun \<Rightarrow> bool" where "over s \<longleftrightarrow> gr_failed s \<or> gr_internal s \<or> gr_transport s"
definition running :: "GdsRun \<Rightarrow> bool" where "running s \<longleftrightarrow> \<not> over s \<and> open_object (gr_j s)"

fun gds_spec :: "'x p12_env \<Rightarrow> csr_lib \<Rightarrow> u16 \<Rightarrow> GdsArgs \<Rightarrow> gds_phase \<Rightarrow> ('a \<Rightarrow> gds_phase \<Rightarrow> bool) \<Rightarrow> (GdsRun + 'a) option \<Rightarrow> (client_call \<times> client_ret) list \<Rightarrow> bool" where
  "gds_spec env lib ns a p good None new = True"
| "gds_spec env lib ns a p good (Some (Inl s)) new = (inside new \<and> sound (gds_after env lib ns a p new) \<and> over s \<and> open_object (gr_j s))"
| "gds_spec env lib ns a p good (Some (Inr x)) new = (inside new \<and> good x (gds_after env lib ns a p new))"

lemma gds_spec_later: "inside new \<Longrightarrow> gds_spec env lib ns a (gds_after env lib ns a p new) good r new' \<Longrightarrow> gds_spec env lib ns a p good r (new @ new')"
  by (cases "(env, lib, ns, a, gds_after env lib ns a p new, good, r, new')" rule: gds_spec.cases) auto

lemma gds_thenI:
  assumes "runs anything m (gds_spec env lib ns a p good)" and "\<And>x q. good x q \<Longrightarrow> runs anything (f x) (gds_spec env lib ns a q good')"
  shows "runs anything (gds_then m f) (gds_spec env lib ns a p good')"
  unfolding gds_then_def
proof (rule runs_bind [OF assms(1)])
  fix r new assume g: "gds_spec env lib ns a p good r new"
  consider "r = None" | s where "r = Some (Inl s)" | x where "r = Some (Inr x)" by (metis not_Some_eq sum.exhaust)
  then show "runs anything (case r of None \<Rightarrow> State_Monad.return None | Some (Inl s) \<Rightarrow> State_Monad.return (Some (Inl s)) | Some (Inr x) \<Rightarrow> f x)
      (\<lambda>y new'. gds_spec env lib ns a p good' y (new @ new'))"
  proof cases
    case 3
    with g have "good x (gds_after env lib ns a p new)" "inside new" by simp_all
    then show ?thesis using 3 by (simp add: runs_mono [OF assms(2) gds_spec_later])
  qed (use g in \<open>auto intro!: runs_return\<close>)
qed

lemma gds_doneI: "good x p \<Longrightarrow> runs anything (State_Monad.return (Some (Inr x))) (gds_spec env lib ns a p good)"
  by (auto intro!: runs_return)

lemma gds_endI: "sound p \<Longrightarrow> over s \<Longrightarrow> open_object (gr_j s) \<Longrightarrow> runs anything (State_Monad.return (Some (Inl s))) (gds_spec env lib ns a p good)"
  by (auto intro!: runs_return)

lemma run_ends [simp]: "over (gds_lost sc what s)" "over (gds_refused st sc what s)" "over (gds_broken msg s)"
    "gr_j (gds_lost sc what s) = gr_j s" "gr_j (gds_refused st sc what s) = gr_j s" "gr_j (gds_broken msg s) = gr_j s"
    "over (s\<lparr>gr_j := j\<rparr>) = over s"
  by (simp_all add: over_def gds_lost_def gds_refused_def gds_broken_def)

lemma gds_methodI:
  assumes "names_ok (ce_stack (pe_client env))" and "gds_allowed env lib ns a p (gds_c ns m inputs) = Some next" and "gds_request ns (gds_c ns m inputs)"
    and "\<not> (\<exists>i r. p = G_Requested i r)" and "\<And>outputs j. open_object j \<Longrightarrow> open_object (result outputs j)" and "running s"
  shows "runs anything (gds_method env api ns key keepGood m inputs result s)
    (gds_spec env lib ns a p (\<lambda>(outputs, s') q. q = next outputs \<and> running s'))"
  using assms unfolding gds_method_def gds_call_def p12_call_def gds_c_def
  by (auto simp: gds_next_def running_def members Let_def split: if_split gds_phase.split intro!: runs_calculus)

text \<open>Reading a trust list asks nothing of the Directory.\<close>

definition aside :: "u16 \<Rightarrow> (client_call \<times> client_ret) list \<Rightarrow> bool" where
  "aside ns new \<longleftrightarrow> list_all (\<lambda>e. \<not> gds_request ns (fst e)) new"

lemma aside_simps [simp]: "aside ns []" "aside ns (e # new) \<longleftrightarrow> \<not> gds_request ns (fst e) \<and> aside ns new" "aside ns (x @ y) \<longleftrightarrow> aside ns x \<and> aside ns y"
  by (auto simp: aside_def)

lemma aside_after: "aside ns new \<Longrightarrow> gds_after env lib ns a p new = p"
  by (induction new arbitrary: p) (auto simp: gds_next_def)

lemma aside_chunks: "runs anything (p12_read_chunks rounds api trustList readId handle data) (\<lambda>_ new. inside new \<and> aside ns new)"
proof (induction rounds arbitrary: data)
  case (Suc rounds)
  show ?case by (auto simp: p12_call_def p12v_uint32_def Let_def intro!: runs_calculus runs_mono [OF Suc.IH])
qed (auto intro!: runs_calculus)

lemma aside_translate: "runs anything (p12_translate api start paths) (\<lambda>_ new. inside new \<and> aside ns new)"
  unfolding p12_translate_def by (auto intro!: runs_calculus)

lemma aside_trust_list: "runs anything (p12_read_trust_list rounds dc api trustList False masks) (\<lambda>_ new. inside new \<and> aside ns new)"
  unfolding p12_read_trust_list_def p12_call_def
  by (auto simp: p12v_byte_def p12v_uint32_def split: sum.split list.split option.split
      intro!: runs_calculus runs_mono [OF aside_translate] runs_mono [OF aside_chunks])

lemma gds_trust_list_runs:
  assumes "names_ok (ce_stack (pe_client env))" and "running s" and "sound p"
  shows "runs anything (gds_read_trust_list env api trustList s) (gds_spec env lib ns a p (\<lambda>s' q. q = p \<and> running s'))"
  using assms unfolding gds_read_trust_list_def
  by (auto simp: aside_after members running_def Let_def split: option.split sum.split intro!: runs_calculus runs_mono [OF aside_trust_list [of _ _ _ _ _ ns]])

lemmas gds_values = gds_c_def p12v_nodeid_def p12v_string_def p12v_bytestring_def

lemma keyed: "open_object j \<Longrightarrow> open_object (p12j_cstr (Some s) (p12j_key k j))"
    "open_object j \<Longrightarrow> open_object (bool_member k b j)"
    "open_object j \<Longrightarrow> open_object (p12j_raw ''true'' (p12j_key k j))" "open_object j \<Longrightarrow> open_object (p12j_raw ''false'' (p12j_key k j))"
    "open_object j \<Longrightarrow> open_object (find_result env outputs j)"
    "open_object j \<Longrightarrow> open_object (finish_result a certificate outputs j)"
proof -
  show c: "open_object j \<Longrightarrow> open_object (p12j_cstr (Some s) (p12j_key k j))" for s k j
    by (rule open_object_member [OF key_value [OF w_cstr.json_writer_axioms] json_value_print_string])
  show "open_object j \<Longrightarrow> open_object (bool_member k b j)" by (simp add: bool_member_def raw_bool_member)
  show "open_object j \<Longrightarrow> open_object (p12j_raw ''true'' (p12j_key k j))" "open_object j \<Longrightarrow> open_object (p12j_raw ''false'' (p12j_key k j))"
    using raw_bool_member [of j True k] raw_bool_member [of j False k] by simp_all
  show "open_object j \<Longrightarrow> open_object (find_result env outputs j)"
    unfolding find_result_def Let_def
    by (rule open_object_member [OF key_block [OF w_nodeid_list.json_writer_axioms]]) (auto intro!: jarr_value json_value_print_string)
  show "open_object j \<Longrightarrow> open_object (finish_result a certificate outputs j)"
    by (auto simp: finish_result_def Let_def intro!: b64_array_member b64_field_member c)
qed

lemma running_member: "running s \<Longrightarrow> open_object (f (gr_j s)) \<Longrightarrow> running (s\<lparr>gr_j := f (gr_j s)\<rparr>)"
  by (simp add: running_def)

lemma runningD: "running s \<Longrightarrow> open_object (gr_j s)"
  by (simp add: running_def)

lemma gds_application_runs:
  assumes "names_ok (ce_stack (pe_client env))" and "running s"
  shows "runs anything (gds_application env api ns a s) (gds_spec env lib ns a G_Start (\<lambda>(appId, s') q. q = G_Known appId \<and> running s'))"
proof -
  let ?known = "\<lambda>outputs. case record_ids env outputs of [] \<Rightarrow> G_Unknown | appId # _ \<Rightarrow> G_Known appId"
  have find: "runs anything (gds_method env api ns ''findApplicationsStatus'' False GDS_FIND_APPLICATIONS [p12v_string (Some (ga_appUri a))] (find_result env) s)
      (gds_spec env lib ns a G_Start (\<lambda>(outputs, s') q. q = ?known outputs \<and> running s'))"
    by (rule gds_methodI [OF assms(1) _ _ _ _ assms(2)]) (auto simp: gds_values keyed)
  have register: "runs anything (gds_method env api ns ''registerStatus'' True GDS_REGISTER_APPLICATION
        [Scalar (VExtensionObject (EncodedBytes (nodeid_numeric ns GDS_APPLICATION_RECORD_BINARY) (Some body)))] (\<lambda>outputs j. p12j_raw ''true'' (p12j_key ''registered'' j)) s1)
      (gds_spec env lib ns a G_Unknown (\<lambda>(outputs, s') q. q = G_Known (out_id outputs) \<and> running s'))"
    if "gds_encode_record env a = Some body" "running s1" for body s1
    by (rule gds_methodI [OF assms(1) _ _ _ _ that(2)]) (auto simp: that(1) gds_values keyed)
  show ?thesis unfolding gds_application_def
    by (rule gds_thenI [OF find])
      (auto simp: out_id_def [symmetric] keyed runningD split: list.split option.split intro!: gds_endI gds_doneI gds_thenI [OF register] running_member)
qed

lemma gds_start_runs:
  assumes "names_ok (ce_stack (pe_client env))" and "running s"
  shows "runs anything (gds_start env lib api ns a appId s) (gds_spec env lib ns a (G_Known appId) (\<lambda>(requestId, s') q. q = G_Requested appId requestId \<and> running s'))"
proof -
  let ?ids = "[p12v_nodeid appId, p12v_nodeid (gds_group ns), p12v_nodeid (gds_certType a)]"
  have start: "runs anything (gds_method env api ns ''startRequestStatus'' True m (?ids @ rest) (\<lambda>outputs j. j) s1)
      (gds_spec env lib ns a (G_Known appId) (\<lambda>(outputs, s') q. q = G_Requested appId (out_id outputs) \<and> running s'))"
    if "start_request lib ns a appId = Some (gds_c ns m (?ids @ rest))" "running s1" for m rest s1
    by (rule gds_methodI [OF assms(1) _ _ _ _ that(2)]) (auto simp: that(1) gds_values)
  have s: "running (s\<lparr>gr_j := p12j_cstr (Some kind) (p12j_key ''requestKind'' (p12j_nodeid appId (p12j_key ''applicationId'' (gr_j s))))\<rparr>)" for kind
    using assms(2) by (simp add: running_def keyed members)
  have started: "runs anything (State_Monad.return (Some (Inr (out_id outputs, s1\<lparr>gr_j := p12j_nodeid (out_id outputs) (p12j_key ''requestId'' (gr_j s1))\<rparr>))))
      (gds_spec env lib ns a (G_Requested appId (out_id outputs)) (\<lambda>(requestId, s') q. q = G_Requested appId requestId \<and> running s'))"
    if "running s1" for outputs s1
    using that by (auto simp: members runningD intro!: gds_doneI running_member)
  show ?thesis
  proof (cases "ga_csr a")
    case True
    show ?thesis
    proof (cases "gds_make_csr lib a")
      case None
      then show ?thesis using True s runningD [OF s] by (auto simp: gds_start_def Let_def intro!: gds_endI)
    next
      case (Some csr)
      have "start_request lib ns a appId = Some (gds_c ns GDS_START_SIGNING_REQUEST (?ids @ [p12v_bytestring (Some (Some csr))]))"
        by (simp add: start_request_def True Some)
      from gds_thenI [OF start [OF this s]] show ?thesis
        by (simp add: gds_start_def Let_def True Some out_id_def [symmetric]) (use started in force)
    qed
  next
    case False
    have "start_request lib ns a appId = Some (gds_c ns GDS_START_NEW_KEY_PAIR_REQUEST (?ids @ [p12v_string (Some (snprintf_buf 512 (''CN='' @ ga_appName a))),
       p12v_string_array [''localhost''], p12v_string (Some ''PEM''), p12v_string None]))"
      by (simp add: start_request_def False)
    from gds_thenI [OF start [OF this s]] show ?thesis
      by (simp add: gds_start_def Let_def False out_id_def [symmetric]) (use started in force)
  qed
qed

fun poll_spec :: "'x p12_env \<Rightarrow> csr_lib \<Rightarrow> u16 \<Rightarrow> GdsArgs \<Rightarrow> nodeid \<Rightarrow> nodeid \<Rightarrow> (u32 \<times> variant list) option \<Rightarrow> (client_call \<times> client_ret) list \<Rightarrow> bool" where
  "poll_spec env lib ns a appId requestId None new = True"
| "poll_spec env lib ns a appId requestId (Some (sc, outputs)) new = (inside new \<and> sound (gds_after env lib ns a (G_Requested appId requestId) new)
     \<and> (bad sc \<or> gds_after env lib ns a (G_Requested appId requestId) new = G_Issued appId (out_certificate outputs) 0))"

lemma bad_pending [simp]: "bad BADNOTHINGTODO"
  by (simp add: bad_def)

lemma gds_poll_runs: "runs anything (gds_poll rounds api ns appId requestId deadline) (poll_spec env lib ns a appId requestId)"
proof (induction rounds)
  case (Suc rounds)
  have "poll_spec env lib ns a appId requestId r new \<Longrightarrow> inside pre \<Longrightarrow> gds_after env lib ns a (G_Requested appId requestId) pre = G_Requested appId requestId
      \<Longrightarrow> poll_spec env lib ns a appId requestId r (pre @ new)" for r new pre
    by (cases "(env, lib, ns, a, appId, requestId, r, new)" rule: poll_spec.cases) auto
  note later = this [of _ _ "[x, y, z]" for x y z, simplified]
  have n: "gds_request ns (CallMethod (gds_directory ns) (nodeid_numeric ns GDS_FINISH_REQUEST) [p12v_nodeid appId, p12v_nodeid requestId])"
    by (simp add: p12v_nodeid_def)
  show ?case
    by (auto simp: p12_call_def n gds_next_def gds_c_def bad_def intro!: runs_calculus runs_mono [OF Suc.IH] later)
qed (auto intro!: runs_calculus)

lemma gds_finish_runs:
  assumes "names_ok (ce_stack (pe_client env))" and "running s"
  shows "runs anything (gds_finish env api ns a appId requestId s)
    (gds_spec env lib ns a (G_Requested appId requestId) (\<lambda>(certificate, s') q. q = G_Issued appId certificate 0 \<and> running s'))"
proof -
  have c: "(case p12_out_bytestring outputs 0 of None \<Rightarrow> None | Some c \<Rightarrow> c) = out_certificate outputs" for outputs
    by (simp add: out_certificate_def)
  have t: "gds_next env lib ns a p (MonoMs, r) = p" for p r by (simp add: gds_next_def)
  show ?thesis using assms unfolding gds_finish_def Let_def c
    by (auto simp: running_def members keyed bad_def t split: option.split prod.split intro!: runs_calculus runs_mono [OF gds_poll_runs [of _ _ _ _ _ _ env lib a]])
qed

lemma script_requests:
  "k < length (issued_script ns a appId certificate) \<Longrightarrow> gds_request ns (issued_script ns a appId certificate ! k)"
proof -
  have "\<forall>c\<in>set (issued_script ns a appId certificate). gds_request ns c" by (auto simp: issued_script_def gds_values)
  then show "k < length (issued_script ns a appId certificate) \<Longrightarrow> gds_request ns (issued_script ns a appId certificate ! k)" by simp
qed

lemma script_method:
  assumes "names_ok (ce_stack (pe_client env))" and "running s" and "k < length (issued_script ns a appId certificate)"
    and "issued_script ns a appId certificate ! k = gds_c ns m inputs" and "\<And>outputs j. open_object j \<Longrightarrow> open_object (result outputs j)"
  shows "runs anything (gds_method env api ns key keepGood m inputs result s)
    (gds_spec env lib ns a (G_Issued appId certificate k) (\<lambda>(outputs, s') q. q = G_Issued appId certificate (Suc k) \<and> running s'))"
  using gds_methodI [OF assms(1) _ _ _ assms(5) assms(2), of lib ns a "G_Issued appId certificate k" m inputs "\<lambda>_. G_Issued appId certificate (Suc k)"]
    script_requests [OF assms(3)] assms(3,4) by simp

lemma gds_groups_runs:
  assumes "names_ok (ce_stack (pe_client env))" and "running s"
  shows "runs anything (gds_groups_and_trust env api ns appId s)
    (gds_spec env lib ns a (G_Issued appId certificate 0) (\<lambda>s' q. q = G_Issued appId certificate (Suc (Suc 0)) \<and> running s'))"
  unfolding gds_groups_and_trust_def
  apply (rule gds_thenI [OF script_method [OF assms, of 0 ns a appId certificate]])
  apply (auto simp: issued_script_def nodeid_array_member)
  apply (rule gds_thenI [OF script_method [OF assms(1), of _ "Suc 0" ns a appId certificate]])
  apply (auto simp: issued_script_def members intro!: gds_trust_list_runs [OF assms(1)])
  done

definition steps_revoked :: "GdsArgs \<Rightarrow> nat" where "steps_revoked a = (if ga_revoke a then 5 else 3)"

definition finished :: "u16 \<Rightarrow> GdsArgs \<Rightarrow> GdsRun \<Rightarrow> gds_phase \<Rightarrow> bool" where
  "finished ns a s q \<longleftrightarrow> running s \<and> (\<exists>appId certificate. q = G_Issued appId certificate (length (issued_script ns a appId certificate)))"

lemma gds_revoke_runs:
  assumes "names_ok (ce_stack (pe_client env))" and "running s"
  shows "runs anything (gds_revoke env api ns a appId certificate s)
    (gds_spec env lib ns a (G_Issued appId certificate 3) (\<lambda>s' q. q = G_Issued appId certificate (steps_revoked a) \<and> running s'))"
  using assms(2) unfolding gds_revoke_def steps_revoked_def
  apply (auto intro!: gds_doneI)
  apply (rule gds_thenI [OF script_method [OF assms, of 3 ns a appId certificate]])
  apply (auto simp: issued_script_def)
  apply (rule gds_thenI [OF script_method [OF assms(1), of _ 4 ns a appId certificate]])
  apply (auto simp: issued_script_def members assms(1) intro!: gds_doneI)
  done

lemma gds_unregister_runs:
  assumes "names_ok (ce_stack (pe_client env))" and "running s"
  shows "runs anything (gds_unregister env api ns a appId s) (gds_spec env lib ns a (G_Issued appId certificate (steps_revoked a)) (finished ns a))"
proof (cases "ga_unregister a")
  case True
  have k: "steps_revoked a < length (issued_script ns a appId certificate)"
      "issued_script ns a appId certificate ! steps_revoked a = gds_c ns GDS_UNREGISTER_APPLICATION [p12v_nodeid appId]"
      "Suc (steps_revoked a) = length (issued_script ns a appId certificate)"
    using True by (simp_all add: issued_script_def steps_revoked_def)
  then have "running s1 \<Longrightarrow> finished ns a s1 (G_Issued appId certificate (Suc (steps_revoked a)))" for s1
    by (auto simp: finished_def)
  then show ?thesis unfolding gds_unregister_def using True
    by (auto intro!: gds_thenI [OF script_method [OF assms k(1,2)]] gds_doneI)
next
  case False
  then have "steps_revoked a = length (issued_script ns a appId certificate)" by (simp add: issued_script_def steps_revoked_def)
  then show ?thesis using assms(2) False by (auto simp: gds_unregister_def finished_def intro!: gds_doneI)
qed

text \<open>What a finished run did: everything, or it is over.\<close>

fun run_spec :: "'x p12_env \<Rightarrow> csr_lib \<Rightarrow> u16 \<Rightarrow> GdsArgs \<Rightarrow> GdsRun option \<Rightarrow> (client_call \<times> client_ret) list \<Rightarrow> bool" where
  "run_spec env lib ns a None new = True"
| "run_spec env lib ns a (Some s) new = (inside new \<and> sound (gds_after env lib ns a G_Start new) \<and> open_object (gr_j s) \<and>
     (over s \<or> (\<exists>appId certificate. gds_after env lib ns a G_Start new = G_Issued appId certificate (length (issued_script ns a appId certificate)))))"

lemma gds_steps_runs:
  assumes "names_ok (ce_stack (pe_client env))" and "running s"
  shows "runs anything (gds_steps env lib api ns a s) (run_spec env lib ns a)"
proof -
  have st: "runs anything (gds_method env api ns ''getCertificateStatusStatus'' True GDS_GET_CERTIFICATE_STATUS
        [p12v_nodeid appId, p12v_nodeid (gds_group ns), p12v_nodeid (gds_certType a)] (\<lambda>outputs. bool_member ''updateRequired'' (p12_out_bool outputs 0)) s1)
      (gds_spec env lib ns a (G_Issued appId certificate (Suc (Suc 0))) (\<lambda>(outputs, s') q. q = G_Issued appId certificate 3 \<and> running s'))"
    if "running s1" for appId certificate s1
    unfolding numeral_3_eq_3
    by (rule script_method [OF assms(1) that]) (simp_all add: issued_script_def keyed)
  have m: "gds_spec env lib ns a G_Start (finished ns a) r new \<Longrightarrow> run_spec env lib ns a (map_option (\<lambda>r. case r of Inl s \<Rightarrow> s | Inr s \<Rightarrow> s) r) new" for r new
    by (cases "(env, lib, ns, a, G_Start, finished ns a, r, new)" rule: gds_spec.cases) (auto simp: running_def finished_def)
  show ?thesis unfolding gds_steps_def
    by (rule runs_bind [of anything _ "gds_spec env lib ns a G_Start (finished ns a)"])
      (auto intro!: gds_thenI [OF gds_application_runs [OF assms]] gds_thenI [OF gds_start_runs [OF assms(1)]] gds_thenI [OF gds_finish_runs [OF assms(1)]]
        gds_thenI [OF gds_groups_runs [OF assms(1)]] gds_thenI [OF st] gds_thenI [OF gds_revoke_runs [OF assms(1)]] gds_unregister_runs [OF assms(1)] runs_return m)
qed

section \<open>The whole command\<close>

text \<open>The namespace index is the one the server gave for the GDS namespace.\<close>

definition names_gds :: "u16 \<Rightarrow> client_call \<times> client_ret \<Rightarrow> bool" where
  "names_gds ns e \<longleftrightarrow> fst e = ReadValueAttribute (nodeid_numeric 0 UA_NS0ID_SERVER_NAMESPACEARRAY) \<and> cr_status (snd e) = GOOD \<and> ns \<noteq> 0
     \<and> (\<exists>vs ds. cr_value (snd e) = Array TString vs ds \<and> gds_scan 0 vs = ns)"

fun namespace_spec :: "u32 + u16 \<Rightarrow> (client_call \<times> client_ret) list \<Rightarrow> bool" where
  "namespace_spec (Inl sc) new = (inside new \<and> silent new)"
| "namespace_spec (Inr ns) new = (inside new \<and> silent new \<and> list_ex (names_gds ns) new)"

lemma gds_namespace_runs: "runs anything (gds_namespace api) namespace_spec"
  unfolding gds_namespace_def
  by (auto simp: names_gds_def Let_def split: variant.splits ua_type.splits if_splits intro!: runs_calculus)

definition issued_all :: "u16 \<Rightarrow> GdsArgs \<Rightarrow> gds_phase \<Rightarrow> bool" where
  "issued_all ns a q \<longleftrightarrow> (\<exists>appId certificate. q = G_Issued appId certificate (length (issued_script ns a appId certificate)))"

lemma silent_aside: "silent new \<Longrightarrow> aside ns new"
  by (induction new) (auto elim!: is_method.elims(3))

lemma silent_after: "silent new \<Longrightarrow> gds_after env lib ns a p new = p"
  by (simp add: silent_aside aside_after)

fun pull_spec :: "'x p12_env \<Rightarrow> csr_lib \<Rightarrow> GdsArgs \<Rightarrow> outcome \<Rightarrow> (client_call \<times> client_ret) list \<Rightarrow> bool" where
  "pull_spec env lib a Undefined calls = True"
| "pull_spec env lib a (Exit ec doc) calls = (command_spec (ce_stack (pe_client env)) ''gds-pull'' (Exit ec doc) calls \<and>
     (silent calls \<and> 0 < ec \<or> (\<exists>ns. list_ex (names_gds ns) calls \<and> sound (gds_after env lib ns a G_Start calls)
        \<and> (ec = 0 \<longrightarrow> issued_all ns a (gds_after env lib ns a G_Start calls)))))"

lemma pull_spec_failed:
  "failed (ce_stack (pe_client env)) ''gds-pull'' out \<Longrightarrow> out = Undefined \<or> session_after Idle calls \<in> {Idle, Deleted} \<Longrightarrow> silent calls \<Longrightarrow> pull_spec env lib a out calls"
  by (cases out) (auto simp: failed_def command_spec.simps)

lemma gds_report_reports:
  assumes "open_object (gr_j s)" and "gds_report st s = (ec, doc)"
  shows "ec \<in> {0, 3, 4, 6, 7} \<and> reports st ''gds-pull'' ec doc \<and> (ec = 0 \<longrightarrow> \<not> over s)"
proof -
  have "wf_json (p12j_close CHR ''}'' (gr_j s))" "json_value (json_text (p12j_close CHR ''}'' (gr_j s)))"
    using assms(1) open_object_close by auto
  then have r: "reports st ''gds-pull'' ec (p12_emit st ''gds-pull'' ok sc c m (Some (p12j_close CHR ''}'' (gr_j s))))"
      "reports st ''gds-pull'' ec (p12_emit st ''gds-pull'' ok sc c m None)" if "ok \<longleftrightarrow> ec = 0" for ec ok sc c m
    using that by (intro reports_emit; auto)+
  have "case gds_report st s of (ec, doc) \<Rightarrow> ec \<in> {0, 3, 4, 6, 7} \<and> reports st ''gds-pull'' ec doc \<and> (ec = 0 \<longrightarrow> \<not> over s)"
    by (auto simp: gds_report_def Let_def p12_exit_code_def over_def intro!: r)
  with assms(2) show ?thesis by simp
qed

lemma no_namespace_failed:
  assumes "no_namespace st sc = (ec, doc)"
  shows "ec \<in> {3, 4, 7} \<and> reports st ''gds-pull'' ec doc"
proof -
  have "ec = (if p12_is_transport sc then p12_exit_code sc else 4)" and d: "\<exists>category message. doc = cli_emit_failure st ''gds-pull'' sc category message"
    using assms unfolding no_namespace_def Let_def prod.inject by blast+
  then have "ec \<in> {3, 4, 7}" by (simp add: p12_exit_code_def)
  with d show ?thesis using reports_failure by force
qed

lemma pull_spec_unnamed:
  assumes "names_ok (ce_stack (pe_client env))" and "live (session_after Idle new)" and "silent new" and "namespace_spec (Inl sc) read" and "silent close"
    and "\<forall>p. live p \<longrightarrow> session_after p close = Deleted"
  shows "pull_spec env lib a (case no_namespace (ce_stack (pe_client env)) sc of (code, doc) \<Rightarrow> Exit code doc) (new @ read @ close)"
proof -
  obtain ec doc where e: "no_namespace (ce_stack (pe_client env)) sc = (ec, doc)" by (cases "no_namespace (ce_stack (pe_client env)) sc")
  have "session_after Idle (new @ read @ close) = Deleted" using assms(2,4,6) inside_live by auto
  then show ?thesis using no_namespace_failed [OF e] assms(3-5) by (auto simp: e command_spec.simps)
qed

lemma pull_spec_connected:
  assumes "live (session_after Idle new)" and "silent new" and "namespace_spec (Inr ns) read" and "run_spec env lib ns a (Some s) steps" and "silent close"
    and "\<forall>p. live p \<longrightarrow> session_after p close = Deleted"
  shows "pull_spec env lib a (case gds_report (ce_stack (pe_client env)) s of (code, doc) \<Rightarrow> Exit code doc) (new @ read @ steps @ close)"
proof -
  obtain ec doc where e: "gds_report (ce_stack (pe_client env)) s = (ec, doc)" by (cases "gds_report (ce_stack (pe_client env)) s")
  have r: "ec \<in> {0, 3, 4, 6, 7} \<and> reports (ce_stack (pe_client env)) ''gds-pull'' ec doc \<and> (ec = 0 \<longrightarrow> \<not> over s)"
    using assms(4) by (intro gds_report_reports [OF _ e]) simp
  have "session_after Idle (new @ read @ steps @ close) = Deleted" using assms(1,3,4,6) inside_live by auto
  then have c: "command_spec (ce_stack (pe_client env)) ''gds-pull'' (Exit ec doc) (new @ read @ steps @ close)" using r by (auto simp: command_spec.simps)
  have q: "gds_after env lib ns a G_Start (new @ read @ steps @ close) = gds_after env lib ns a G_Start steps"
    using assms(2,3,5) by (simp add: silent_after)
  have n: "list_ex (names_gds ns) (new @ read @ steps @ close)" using assms(3) by simp
  have "ec = 0 \<longrightarrow> issued_all ns a (gds_after env lib ns a G_Start steps)" using r assms(4) unfolding issued_all_def run_spec.simps by blast
  then show ?thesis unfolding e prod.case pull_spec.simps using c n q assms(4)
    by (intro conjI disjI2 exI [of _ ns]) simp_all
qed

lemma leave_runs:
  assumes "\<And>close. silent close \<Longrightarrow> \<forall>p. live p \<longrightarrow> session_after p close = Deleted \<Longrightarrow> Q (case r of (code, doc) \<Rightarrow> Exit code doc) (new @ close)"
  shows "runs anything (gds_leave api r) (\<lambda>y close. if_returned Q y (new @ close))"
  unfolding gds_leave_def
  by (rule runs_bind [OF runs_both [OF silent_close session_close]]) (auto intro!: runs_return assms)

lemma pull_connected_runs:
  assumes "names_ok (ce_stack (pe_client env))" and "live (session_after Idle new)" and "silent new"
  shows "runs anything (do {
      n \<leftarrow> gds_namespace api;
      case n of
        Inl sc \<Rightarrow> gds_leave api (no_namespace (ce_stack (pe_client env)) sc)
      | Inr ns \<Rightarrow> do {
          r \<leftarrow> gds_steps env lib api ns a gds_begin;
          case r of None \<Rightarrow> State_Monad.return None | Some s \<Rightarrow> gds_leave api (gds_report (ce_stack (pe_client env)) s)
        }}) (\<lambda>y new'. if_returned (pull_spec env lib a) y (new @ new'))"
proof (rule runs_bind [OF gds_namespace_runs])
  fix n read assume n: "namespace_spec n read"
  show "runs anything (case n of Inl sc \<Rightarrow> gds_leave api (no_namespace (ce_stack (pe_client env)) sc)
      | Inr ns \<Rightarrow> do {
          r \<leftarrow> gds_steps env lib api ns a gds_begin;
          case r of None \<Rightarrow> State_Monad.return None | Some s \<Rightarrow> gds_leave api (gds_report (ce_stack (pe_client env)) s)
        }) (\<lambda>y new'. if_returned (pull_spec env lib a) y (new @ read @ new'))"
  proof (cases n)
    case (Inl sc)
    with n show ?thesis unfolding Inl sum.case
      by (intro leave_runs [where new = "new @ read", unfolded append_assoc] pull_spec_unnamed [OF assms])
  next
    case (Inr ns)
    have "running gds_begin" by (simp add: running_def over_def gds_begin_def open_object_start)
    note steps = gds_steps_runs [OF assms(1) this]
    have "runs anything (case r of None \<Rightarrow> State_Monad.return None | Some s \<Rightarrow> gds_leave api (gds_report (ce_stack (pe_client env)) s))
        (\<lambda>y new'. if_returned (pull_spec env lib a) y (new @ read @ steps @ new'))" if "run_spec env lib ns a r steps" for r steps
    proof (cases r)
      case (Some s)
      with n that show ?thesis unfolding Inr Some option.case
        by (intro leave_runs [where new = "new @ read @ steps", unfolded append_assoc] pull_spec_connected [OF assms(2,3)])
    qed (auto intro!: runs_return)
    then show ?thesis unfolding Inr sum.case by (rule runs_bind [OF steps])
  qed
qed

lemma pull_runs:
  assumes "names_ok (ce_stack (pe_client env))" and "gds_parse argv = Inr a"
  shows "runs anything (cmd_gds_pull env lib api argv) (if_returned (pull_spec env lib a))"
proof (cases "request_ms argv")
  case (Some ms)
  let ?env = "pe_client env" and ?url = "bytes_of_string (find_arg argv ''--endpoint'')"
  have c: "runs anything (connect_command ?env api ?url ms ''gds-pull'') (\<lambda>res new. if_returned (client_spec (ce_stack ?env) ''gds-pull'' live) res new \<and> silent new)"
    unfolding connect_command_def by (rule runs_both [OF session_make_client silent_make_client])
  have "runs anything (case m of None \<Rightarrow> State_Monad.return None | Some (Inl out) \<Rightarrow> State_Monad.return (Some out) | Some (Inr cfg) \<Rightarrow> f cfg)
      (\<lambda>y new'. if_returned (pull_spec env lib a) y (new @ new'))"
    if "if_returned (client_spec (ce_stack ?env) ''gds-pull'' live) m new \<and> silent new"
      and "\<And>cfg. live (session_after Idle new) \<Longrightarrow> runs anything (f cfg) (\<lambda>y new'. if_returned (pull_spec env lib a) y (new @ new'))" for m new f
    using that by (auto simp del: pull_spec.simps split: option.split sum.split intro!: runs_return pull_spec_failed)
  then show ?thesis unfolding cmd_gds_pull_def Let_def assms(2) Some sum.case option.case
    by (rule runs_bind [OF c]) (assumption, rule pull_connected_runs [OF assms(1)], assumption, erule conjunct2)
next
  case None
  show ?thesis unfolding cmd_gds_pull_def Let_def assms(2) None sum.case option.case by (rule runs_return) simp
qed

lemma pull_outcome:
  assumes "names_ok (ce_stack (pe_client env))" and "run_state (cmd_gds_pull env lib api argv) (s, []) = (Some (Exit ec doc), s', calls)"
  shows "case gds_parse argv of Inl _ \<Rightarrow> ec = 2 \<and> reports (ce_stack (pe_client env)) ''gds-pull'' ec doc \<and> calls = [] | Inr a \<Rightarrow> pull_spec env lib a (Exit ec doc) calls"
proof (cases "gds_parse argv")
  case (Inl msg)
  have "cmd_gds_pull env lib api argv = State_Monad.return (Some (give_up (pe_client env) ''gds-pull'' BADINVALIDARGUMENT (snprintf_buf 512 msg)))"
    unfolding cmd_gds_pull_def Inl Let_def sum.case ..
  with assms(2) have "calls = []" "Exit ec doc = give_up (pe_client env) ''gds-pull'' BADINVALIDARGUMENT (snprintf_buf 512 msg)"
    by simp_all
  with Inl show ?thesis by (simp add: give_up_def reports_failure)
next
  case (Inr a)
  from runsD [OF pull_runs [OF assms(1) Inr] TrueI assms(2)] Inr show ?thesis by (auto simp del: pull_spec.simps)
qed

section \<open>Properties\<close>

text \<open>C4 However the server answers, gds-pull follows the protocol of the Directory, in the namespace that
  the server has announced: the application is looked up first and registered only when no record was
  found, a certificate is requested for that application, FinishRequest is repeated only while the
  request is pending, and the requests about the issued certificate are made in order, each
  with the identifiers the server has given before; after a failure nothing more is asked. The exit code is 0 only
  when the whole sequence was carried out; if no namespace was found, no method is called.\<close>

theorem gds_protocol:
  assumes "names_ok (ce_stack (pe_client env))" and "gds_parse argv = Inr a"
    and "run_state (cmd_gds_pull env lib api argv) (s, []) = (Some (Exit ec doc), s', calls)"
  shows "silent calls \<and> ec \<noteq> 0 \<or>
    (\<exists>ns. list_ex (names_gds ns) calls \<and> gds_after env lib ns a G_Start calls \<noteq> G_Violated
      \<and> (ec = 0 \<longrightarrow> (\<exists>appId certificate. gds_after env lib ns a G_Start calls = G_Issued appId certificate (length (issued_script ns a appId certificate)))))"
  using pull_outcome [OF assms(1,3)] unfolding assms(2) sum.case pull_spec.simps sound_def issued_all_def by fastforce

text \<open>C38 Every run of gds-pull that returns has printed one JSON document that reports success exactly when
  the exit code is 0; the exit code is one of 0, 2, 3, 4, 6 and 7, and at the end the session is
  closed and the client deleted, or none was ever made.\<close>

theorem gds_reports:
  assumes "names_ok (ce_stack (pe_client env))" and "run_state (cmd_gds_pull env lib api argv) (s, []) = (Some (Exit ec doc), s', calls)"
  shows "ec \<in> {0, 2, 3, 4, 6, 7} \<and> document doc \<and> reports (ce_stack (pe_client env)) ''gds-pull'' ec doc \<and> session_after Idle calls \<in> {Idle, Deleted}"
  using pull_outcome [OF assms] reports_document [OF assms(1)] by (auto simp: command_spec.simps split: sum.splits)
text \<open>A server that answers every call with success, knows the GDS namespace, has no application
  registered and an empty trust list.\<close>

definition gds_ret :: client_ret where
  "gds_ret = push_ret\<lparr>cr_value := Array TString [VString None, VString (Some GDS_NAMESPACE)] []\<rparr>"

definition gds_server :: "unit client" where
  "gds_server s c = (gds_ret, ())"

definition gds_env :: "unit p12_env" where
  "gds_env = push_env\<lparr>pe_encode := (\<lambda>_. Some [])\<rparr>"

definition no_csr :: csr_lib where
  "no_csr content = None"

definition gds_argv :: "string list" where
  "gds_argv = [''--endpoint'', ''opc.tcp://h'', ''--request'', ''new-key-pair'', ''--revoke'', ''--unregister'']"

lemma gds_ret_fields: "cr_status gds_ret = GOOD" "cr_outputs gds_ret = [Scalar (VUInt32 7)]" "length (cr_pathResults gds_ret) = 3"
    "first_targets (cr_pathResults gds_ret) = Inr [nodeid_numeric 1 1, nodeid_numeric 1 2, nodeid_numeric 1 3]"
    "cr_endpoints gds_ret = [\<lparr>ep_securityMode = MODE_None, ep_securityPolicyUri = Some (security_policy_uri None), ep_endpointUrl = None\<rparr>]"
    "cr_value gds_ret = Array TString [VString None, VString (Some GDS_NAMESPACE)] []"
  by (simp_all add: gds_ret_def push_ret_fields)

lemma gds_server_answer: "run_state (perform gds_server c) ((), tr) = (gds_ret, (), tr @ [(c, gds_ret)])"
  by (simp add: perform_def gds_server_def)

lemma gds_env_fields: "pe_client gds_env = plain_env" "ce_rounds plain_env = Suc 0" "pe_encode gds_env v = Some []"
    "pe_decodeTrustList gds_env b = Some \<lparr>specifiedLists = 15, trustedCertificates = [], trustedCrls = [], issuerCertificates = [], issuerCrls = []\<rparr>"
  by (simp_all add: gds_env_def push_env_fields)

definition delivers :: "('a \<Rightarrow> bool) \<Rightarrow> (unit client_world, (GdsRun + 'a) option) state \<Rightarrow> bool" where
  "delivers good m \<longleftrightarrow> (\<forall>tr. \<exists>x tr'. run_state m ((), tr) = (Some (Inr x), (), tr') \<and> good x)"

lemma delivers_done: "good x \<Longrightarrow> delivers good (State_Monad.return (Some (Inr x)))"
  by (simp add: delivers_def)

lemma delivers_then: "delivers good m \<Longrightarrow> (\<And>x. good x \<Longrightarrow> delivers good' (f x)) \<Longrightarrow> delivers good' (gds_then m f)"
  unfolding delivers_def
proof
  fix tr
  assume m: "\<forall>tr. \<exists>x tr'. run_state m ((), tr) = (Some (Inr x), (), tr') \<and> good x"
    and f: "\<And>x. good x \<Longrightarrow> \<forall>tr. \<exists>y tr'. run_state (f x) ((), tr) = (Some (Inr y), (), tr') \<and> good' y"
  from m obtain x tr1 where x: "run_state m ((), tr) = (Some (Inr x), (), tr1)" "good x" by blast
  from f [OF x(2)] obtain y tr2 where "run_state (f x) ((), tr1) = (Some (Inr y), (), tr2)" "good' y" by blast
  then show "\<exists>y tr'. run_state (gds_then m f) ((), tr) = (Some (Inr y), (), tr') \<and> good' y" using x by (simp add: gds_then_def)
qed

lemma delivers_method:
  "\<not> over s \<Longrightarrow> delivers (\<lambda>(outputs, s'). outputs = [Scalar (VUInt32 7)] \<and> \<not> over s') (gds_method gds_env gds_server ns key keepGood m inputs result s)"
  by (auto simp: delivers_def gds_method_def gds_call_def p12_call_def gds_server_answer gds_ret_fields Let_def)

lemma delivers_application: "\<not> over s \<Longrightarrow> delivers (\<lambda>(appId, s'). \<not> over s') (gds_application gds_env gds_server ns a s)"
proof -
  have e: "gds_append gds_env v (False, []) = (False, [])" for v by (simp add: gds_append_def gds_env_fields)
  then have "fold (gds_append_string gds_env) us (False, []) = (False, [])" for us by (induction us) (simp_all add: gds_append_string_def)
  then have r: "gds_encode_record gds_env a = Some []" by (simp add: gds_encode_record_def e gds_append_string_def Let_def)
  have "record_ids gds_env [Scalar (VUInt32 7)] = []" by (simp add: record_ids_def out_arg_def)
  then show "\<not> over s \<Longrightarrow> ?thesis" unfolding gds_application_def
    by (auto simp: r intro!: delivers_then [OF delivers_method] delivers_done)
qed

lemma delivers_start: "\<not> over s \<Longrightarrow> \<not> ga_csr a \<Longrightarrow> delivers (\<lambda>(requestId, s'). \<not> over s') (gds_start gds_env lib gds_server ns a appId s)"
  unfolding gds_start_def Let_def by (auto intro!: delivers_then [OF delivers_method] delivers_done)

lemma delivers_finish: "\<not> over s \<Longrightarrow> delivers (\<lambda>(certificate, s'). \<not> over s') (gds_finish gds_env gds_server ns a appId requestId s)"
  by (auto simp: delivers_def gds_finish_def p12_call_def gds_server_answer gds_ret_fields gds_env_fields Let_def)

lemma gds_server_trust_list:
  "\<exists>calls. run_state (p12_read_trust_list (Suc 0) dc gds_server trustList False masks) ((), tr) = (Some (case dc [] of None \<Rightarrow> Inl BADDECODINGERROR | Some t \<Rightarrow> Inr t), (), calls)"
  by (simp add: p12_read_trust_list_def p12_translate_def p12_call_def gds_server_answer gds_ret_fields open_handle_def p12_out_bytestring_def)

lemma delivers_trust_list: "\<not> over s \<Longrightarrow> delivers (\<lambda>s'. \<not> over s') (gds_read_trust_list gds_env gds_server trustList s)"
proof -
  assume s: "\<not> over s"
  have t: "\<exists>calls. run_state (p12_read_trust_list (Suc 0) (pe_decodeTrustList gds_env) gds_server trustList False 0) ((), tr) =
      (Some (Inr \<lparr>specifiedLists = 15, trustedCertificates = [], trustedCrls = [], issuerCertificates = [], issuerCrls = []\<rparr>), (), calls)" for tr
    using gds_server_trust_list [of "pe_decodeTrustList gds_env" trustList 0 tr] by (simp add: gds_env_fields)
  show ?thesis unfolding delivers_def
  proof
    fix tr
    from t obtain calls where "run_state (p12_read_trust_list (Suc 0) (pe_decodeTrustList gds_env) gds_server trustList False 0) ((), tr) =
      (Some (Inr \<lparr>specifiedLists = 15, trustedCertificates = [], trustedCrls = [], issuerCertificates = [], issuerCrls = []\<rparr>), (), calls)" by blast
    with s show "\<exists>s' tr'. run_state (gds_read_trust_list gds_env gds_server trustList s) ((), tr) = (Some (Inr s'), (), tr') \<and> \<not> over s'"
      by (simp add: gds_read_trust_list_def gds_env_fields)
  qed
qed

lemma delivers_steps:
  assumes "\<not> over s" and "\<not> ga_csr a"
  shows "\<exists>s' calls. run_state (gds_steps gds_env lib gds_server ns a s) ((), tr) = (Some s', (), calls) \<and> \<not> over s'"
proof -
  have g: "delivers (\<lambda>s'. \<not> over s') (gds_groups_and_trust gds_env gds_server ns appId s)" if "\<not> over s" for appId s
    unfolding gds_groups_and_trust_def using that by (auto intro!: delivers_then [OF delivers_method] delivers_trust_list)
  have r: "delivers (\<lambda>s'. \<not> over s') (gds_revoke gds_env gds_server ns a appId certificate s)" if "\<not> over s" for appId certificate s
    unfolding gds_revoke_def using that by (auto intro!: delivers_then [OF delivers_method] delivers_done)
  have u: "delivers (\<lambda>s'. \<not> over s') (gds_unregister gds_env gds_server ns a appId s)" if "\<not> over s" for appId s
    unfolding gds_unregister_def using that by (auto intro!: delivers_then [OF delivers_method] delivers_done)
  define m where "m = gds_then (gds_application gds_env gds_server ns a s) (\<lambda>(appId, s).
          gds_then (gds_start gds_env lib gds_server ns a appId s) (\<lambda>(requestId, s).
          gds_then (gds_finish gds_env gds_server ns a appId requestId s) (\<lambda>(certificate, s).
          gds_then (gds_groups_and_trust gds_env gds_server ns appId s) (\<lambda>s.
          gds_then (gds_method gds_env gds_server ns ''getCertificateStatusStatus'' True GDS_GET_CERTIFICATE_STATUS
              [p12v_nodeid appId, p12v_nodeid (gds_group ns), p12v_nodeid (gds_certType a)]
              (\<lambda>outputs. bool_member ''updateRequired'' (p12_out_bool outputs 0)) s) (\<lambda>(_, s).
          gds_then (gds_revoke gds_env gds_server ns a appId certificate s) (\<lambda>s.
          gds_unregister gds_env gds_server ns a appId s))))))"
  have "delivers (\<lambda>s'. \<not> over s') m" unfolding m_def using assms
    by (auto intro!: delivers_then [OF delivers_application] delivers_then [OF delivers_start] delivers_then [OF delivers_finish] delivers_then [OF g]
        delivers_then [OF delivers_method] delivers_then [OF r] u)
  then obtain s' calls where "run_state m ((), tr) = (Some (Inr s'), (), calls)" "\<not> over s'" unfolding delivers_def by blast
  then show ?thesis by (simp add: gds_steps_def m_def [symmetric])
qed

lemma gds_connects:
  "\<exists>calls. run_state (connect_command plain_env gds_server url ms op) ((), tr) = (Some (Inr (client_settings (\<lambda>_. Inl []) (\<lambda>_. None) g_sec ms)), (), calls)"
  by (simp add: connect_command_def plain_env_def make_client_def make_client_unconnected_def endpoint_check_security_def gds_server_answer gds_ret_fields
      g_sec_def security_policy_known_iff policy_names_def security_is_none_def security_mode_enum_def endpoint_matches_def security_policy_uri_def policy_table_def)

lemma gds_arguments: "\<exists>a. gds_parse gds_argv = Inr a \<and> \<not> ga_csr a \<and> ga_revoke a \<and> ga_unregister a"
  by (simp add: gds_parse_def gds_argv_def and_then_def choice_flag_def p12_has_flag_def Let_def)

lemma gds_returns: "\<exists>doc calls. run_state (cmd_gds_pull gds_env lib gds_server gds_argv) ((), []) = (Some (Exit 0 doc), (), calls)"
proof -
  obtain a where a: "gds_parse gds_argv = Inr a" "\<not> ga_csr a" using gds_arguments by blast
  have r: "request_ms gds_argv = Some 5000" by (simp add: gds_argv_def request_ms_def parse_int_flag_def eval_nat_numeral)
  obtain calls where c: "run_state (connect_command plain_env gds_server (bytes_of_string (find_arg gds_argv ''--endpoint'')) 5000 ''gds-pull'') ((), []) =
      (Some (Inr (client_settings (\<lambda>_. Inl []) (\<lambda>_. None) g_sec 5000)), (), calls)" using gds_connects by blast
  have n: "run_state (gds_namespace gds_server) ((), calls) = (Inr 1, (), calls @ [(ReadValueAttribute (nodeid_numeric 0 UA_NS0ID_SERVER_NAMESPACEARRAY), gds_ret)])"
    by (simp add: gds_namespace_def gds_server_answer gds_ret_fields)
  have "\<not> over gds_begin" by (simp add: over_def gds_begin_def)
  then obtain s' tr where s: "run_state (gds_steps gds_env lib gds_server 1 a gds_begin)
      ((), calls @ [(ReadValueAttribute (nodeid_numeric 0 UA_NS0ID_SERVER_NAMESPACEARRAY), gds_ret)]) = (Some s', (), tr)" "\<not> over s'"
    using delivers_steps a(2) by blast
  then show ?thesis
    by (simp add: cmd_gds_pull_def a(1) r gds_env_fields c n gds_report_def over_def gds_leave_def close_client_def gds_server_answer Let_def)
qed

theorem gds_protocol_witness:
  "\<exists>doc calls a ns appId certificate. run_state (cmd_gds_pull gds_env no_csr gds_server gds_argv) ((), []) = (Some (Exit 0 doc), (), calls) \<and> gds_parse gds_argv = Inr a
    \<and> list_ex (names_gds ns) calls \<and> gds_after gds_env no_csr ns a G_Start calls = G_Issued appId certificate 6"
proof -
  obtain doc calls where r: "run_state (cmd_gds_pull gds_env no_csr gds_server gds_argv) ((), []) = (Some (Exit 0 doc), (), calls)" using gds_returns by blast
  obtain a where a: "gds_parse gds_argv = Inr a" "ga_revoke a" "ga_unregister a" using gds_arguments by blast
  have "names_ok (ce_stack (pe_client gds_env))" by (simp add: gds_env_fields plain_env_def names_ok_plain_stack)
  from gds_protocol [OF this a(1) r] obtain ns appId certificate where
      "list_ex (names_gds ns) calls" "gds_after gds_env no_csr ns a G_Start calls = G_Issued appId certificate (length (issued_script ns a appId certificate))" by auto
  with r a show ?thesis by (auto simp: issued_script_def)
qed

theorem gds_reports_witness:
  "\<exists>doc calls. run_state (cmd_gds_pull gds_env no_csr gds_server gds_argv) ((), []) = (Some (Exit 0 doc), (), calls) \<and> document doc
    \<and> reports plain_stack ''gds-pull'' 0 doc \<and> session_after Idle calls \<in> {Idle, Deleted}"
proof -
  obtain doc calls where r: "run_state (cmd_gds_pull gds_env no_csr gds_server gds_argv) ((), []) = (Some (Exit 0 doc), (), calls)" using gds_returns by blast
  have "names_ok (ce_stack (pe_client gds_env))" by (simp add: gds_env_fields plain_env_def names_ok_plain_stack)
  from gds_reports [OF this r] r show ?thesis by (simp add: gds_env_fields plain_env_def)
qed

text \<open>C39 Waiting for a certificate ends: when the clock only leaves so many calls before the deadline, and
  more rounds than that are allowed, FinishRequest is answered with something other than pending or
  the deadline has passed, and that status is returned.\<close>

theorem gds_poll_returns:
  assumes "clock api ms deadline left" and "left s < rounds"
  shows "\<exists>sc outputs s' calls. run_state (gds_poll rounds api ns appId requestId deadline) (s, tr) = (Some (sc, outputs), s', calls)
    \<and> (sc = BADNOTHINGTODO \<longrightarrow> deadline \<le> cr_ms (snd (last calls)))"
  using assms(2)
proof (induction rounds arbitrary: s tr)
  case (Suc rounds)
  let ?c = "CallMethod (gds_directory ns) (nodeid_numeric ns GDS_FINISH_REQUEST) [p12v_nodeid appId, p12v_nodeid requestId]"
  obtain r1 s1 where 1: "api s ?c = (r1, s1)" by (cases "api s ?c")
  obtain t s2 where 2: "api s1 MonoMs = (t, s2)" by (cases "api s1 MonoMs")
  obtain r3 s3 where 3: "api s2 (SleepMs GDS_FINISH_POLL_MS) = (r3, s3)" by (cases "api s2 (SleepMs GDS_FINISH_POLL_MS)")
  have l: "left s3 \<le> left s2" "left s1 \<le> left s" using clock_le [OF assms(1)] 1 3 by (metis snd_conv)+
  show ?case
  proof (cases "cr_status r1 = BADNOTHINGTODO \<and> cr_ms t < deadline")
    case True
    then have "left s2 < left s1" using assms(1) 2 unfolding clock_def by (metis fst_conv snd_conv)
    then have "left s3 < rounds" using l Suc.prems by simp
    from Suc.IH [OF this] True show ?thesis by (simp add: p12_call_def perform_def 1 2 3)
  next
    case False
    then show ?thesis by (auto simp: p12_call_def perform_def 1 2)
  qed
qed simp

text \<open>A server that never finishes a request, on a clock that counts calls.\<close>

definition pending_server :: "int client" where
  "pending_server now c = (client_ret_good\<lparr>cr_ms := now, cr_status := BADNOTHINGTODO\<rparr>, now + 1)"

theorem gds_poll_returns_witness:
  "clock pending_server (\<lambda>now. now) 10 (\<lambda>now. nat (10 - now)) \<and>
    (\<exists>sc outputs s' calls. run_state (gds_poll 11 pending_server 1 nodeid_null nodeid_null 10) (0, []) = (Some (sc, outputs), s', calls)
      \<and> (sc = BADNOTHINGTODO \<longrightarrow> 10 \<le> cr_ms (snd (last calls))))"
proof
  show c: "clock pending_server (\<lambda>now. now) 10 (\<lambda>now. nat (10 - now))"
    by (auto simp: clock_def pending_server_def)
  show "\<exists>sc outputs s' calls. run_state (gds_poll 11 pending_server 1 nodeid_null nodeid_null 10) (0, []) = (Some (sc, outputs), s', calls)
      \<and> (sc = BADNOTHINGTODO \<longrightarrow> 10 \<le> cr_ms (snd (last calls)))"
    by (rule gds_poll_returns [OF c]) simp
qed
end
