(* ===== verification/Client_Discovery.thy ===== *)
theory Client_Discovery
  imports Client_Sessions
begin

text \<open>
  The commands that look for servers and nodes: endpoints, find-servers and translate of client.c, and
  find-servers-on-network and register-server of discovery.c. The first two run without a session, on a
  connection of their own or on a channel that the server opens; the commands of discovery.c run
  on a secure channel without a session.
\<close>

abbreviation BADSERVICEUNSUPPORTED :: u32 where "BADSERVICEUNSUPPORTED \<equiv> 0x800B0000"
abbreviation BADNOTIMPLEMENTED :: u32 where "BADNOTIMPLEMENTED \<equiv> 0x80400000"
abbreviation BADNOTSUPPORTED :: u32 where "BADNOTSUPPORTED \<equiv> 0x803D0000"

section \<open>Clients without a session\<close>

text \<open>The stack's default configuration names no policy and no mode.\<close>

definition plain_config :: "u32 option \<Rightarrow> client_config" where
  "plain_config timeout = \<lparr>cc_securityPolicyUri = [], cc_securityMode = MODE_Invalid, cc_allowNonePolicyPassword = False,
     cc_timeout = timeout, cc_secureChannelLifeTime = None, cc_applicationUri = None, cc_userName = None\<rparr>"

definition cli_new_plain_client :: "'s client \<Rightarrow> int \<Rightarrow> ('s client_world, client_config) state" where
  "cli_new_plain_client api ms = do {
     let timeout = (if 0 < ms then Some (word_of_int ms) else None);
     _ \<leftarrow> perform api (ClientNew timeout);
     State_Monad.return (plain_config timeout)
   }"

definition channel_lost :: "u32 \<Rightarrow> bool" where
  "channel_lost sc \<longleftrightarrow> sc \<in> {BADCONNECTIONCLOSED, BADSECURECHANNELCLOSED, BADNOTCONNECTED, BADSERVERNOTCONNECTED}"

fun discovery_rounds ::
  "nat \<Rightarrow> client_env \<Rightarrow> 's client \<Rightarrow> client_config \<Rightarrow> client_call \<Rightarrow> int \<Rightarrow> u32 \<Rightarrow> ('s client_world, (u32 \<times> client_ret option) option) state" where
  "discovery_rounds 0 env api cfg c deadline sc = State_Monad.return None"
| "discovery_rounds (Suc rounds) env api cfg c deadline sc = do {
     t \<leftarrow> perform api MonoMs;
     if \<not> cr_ms t < deadline then State_Monad.return (Some (sc, None))
     else do {
       rc \<leftarrow> reverse_connect (ce_rounds env) api (ce_sec env) cfg False;
       case rc of
         None \<Rightarrow> State_Monad.return None
       | Some sc \<Rightarrow>
           if sc \<noteq> GOOD then State_Monad.return (Some (sc, None))
           else do {
             r \<leftarrow> perform api c;
             if channel_lost (cr_status r) then discovery_rounds rounds env api cfg c deadline (cr_status r)
             else State_Monad.return (Some (cr_status r, Some r))
           }
     }
   }"

definition reverse_discovery_call ::
  "client_env \<Rightarrow> 's client \<Rightarrow> client_config \<Rightarrow> client_call \<Rightarrow> ('s client_world, (u32 \<times> client_ret option) option) state" where
  "reverse_discovery_call env api cfg c = do {
     t \<leftarrow> perform api MonoMs;
     let timeout_ms = (if 0 < gs_reverseTimeoutMs (ce_sec env) then gs_reverseTimeoutMs (ce_sec env) else 30000);
     discovery_rounds (ce_rounds env) env api cfg c (cr_ms t + timeout_ms) BADTIMEOUT
   }"

text \<open>The call on a channel the server opens, or directly; a direct call that failed on a server that was
  not ready yet is made once more with a new client.\<close>

definition discover ::
  "client_env \<Rightarrow> 's client \<Rightarrow> client_call \<Rightarrow> client_call \<Rightarrow> ('s client_world, (u32 \<times> client_ret option) option) state" where
  "discover env api direct listen = do {
     cfg \<leftarrow> cli_new_plain_client api 0;
     a \<leftarrow> (if 0 < gs_reverseListenPort (ce_sec env) then do {
            q \<leftarrow> reverse_discovery_call env api cfg listen;
            case q of
              None \<Rightarrow> State_Monad.return None
            | Some a \<Rightarrow> do { _ \<leftarrow> perform api Disconnect; State_Monad.return (Some a) }
          }
          else do {
            r \<leftarrow> perform api direct;
            if cr_status r = BADSECURECHANNELCLOSED \<or> cr_status r = BADSECURECHANNELIDINVALID then do {
              _ \<leftarrow> perform api ClientDelete;
              _ \<leftarrow> cli_new_plain_client api 0;
              r \<leftarrow> perform api direct;
              State_Monad.return (Some (cr_status r, Some r))
            }
            else State_Monad.return (Some (cr_status r, Some r))
          });
     case a of
       None \<Rightarrow> State_Monad.return None
     | Some a \<Rightarrow> do { _ \<leftarrow> perform api ClientDelete; State_Monad.return (Some a) }
   }"

definition discovery_outcome :: "stack \<Rightarrow> string \<Rightarrow> string \<Rightarrow> u32 \<Rightarrow> string list \<Rightarrow> outcome" where
  "discovery_outcome st op message sc items =
    (let ok = (sc = GOOD) in
     Exit (if ok then 0 else 3)
       (output_begin (Some ''open62541'') (Some op) @ output_success ok @ output_service_result st sc
        @ (if ok then output_open_results @ join_comma items @ output_close_results @ output_null_error
           else output_error (Some ''transport'') (Some message)) @ output_end))"

section \<open>endpoints and find-servers\<close>

definition security_mode_name :: "message_security_mode \<Rightarrow> string" where
  "security_mode_name mode = (case mode of MODE_None \<Rightarrow> ''None'' | MODE_Sign \<Rightarrow> ''Sign''
     | MODE_SignAndEncrypt \<Rightarrow> ''SignAndEncrypt'' | MODE_Invalid \<Rightarrow> ''Invalid'')"

text \<open>A string goes through a buffer on the stack and is printed up to its first NUL; one that does not
  fit leaves the buffer empty.\<close>

definition copy_ua_string :: "nat \<Rightarrow> ua_string \<Rightarrow> string" where
  "copy_ua_string bufsz s = (case s of None \<Rightarrow> [] | Some t \<Rightarrow> if length t < bufsz then until_nul t else [])"

definition endpoint_item :: "endpoint_description \<Rightarrow> string" where
  "endpoint_item ep = jobj [(''url'', jkey (copy_ua_string 511 (ep_endpointUrl ep))),
     (''securityPolicy'', jkey (copy_ua_string 511 (ep_securityPolicyUri ep))),
     (''securityMode'', jkey (security_mode_name (ep_securityMode ep)))]"

definition cmd_endpoints :: "client_env \<Rightarrow> 's client \<Rightarrow> string list \<Rightarrow> ('s client_world, outcome option) state" where
  "cmd_endpoints env api argv = (case find_arg argv ''--endpoint'' of
     None \<Rightarrow> State_Monad.return (Some (give_up env ''endpoints'' BADINVALIDARGUMENT ''missing --endpoint''))
   | Some endpoint \<Rightarrow> do {
       a \<leftarrow> discover env api (GetEndpoints endpoint) (ServiceGetEndpoints endpoint);
       State_Monad.return (case a of None \<Rightarrow> None
       | Some (sc, r) \<Rightarrow> Some (discovery_outcome (ce_stack env) ''endpoints'' ''GetEndpoints failed'' sc
           (case r of None \<Rightarrow> [] | Some r \<Rightarrow> map endpoint_item (cr_endpoints r))))
     })"

definition application_item :: "application_description \<Rightarrow> string" where
  "application_item d = jobj [(''applicationUri'', jkey (copy_ua_string 512 (ad_applicationUri d))),
     (''applicationName'', jobj [(''locale'', jkey (copy_ua_string 64 (lt_locale (ad_applicationName d)))),
                                (''text'', jkey (copy_ua_string 512 (lt_text (ad_applicationName d))))]),
     (''productUri'', jkey (copy_ua_string 512 (ad_productUri d))),
     (''discoveryUrls'', jarr (map (\<lambda>u. jkey (copy_ua_string 512 u)) (ad_discoveryUrls d)))]"

definition cmd_find_servers :: "client_env \<Rightarrow> 's client \<Rightarrow> string list \<Rightarrow> ('s client_world, outcome option) state" where
  "cmd_find_servers env api argv = (case find_arg argv ''--endpoint'' of
     None \<Rightarrow> State_Monad.return (Some (give_up env ''find-servers'' BADINVALIDARGUMENT ''missing --endpoint''))
   | Some endpoint \<Rightarrow> do {
       a \<leftarrow> discover env api (FindServers endpoint) ServiceFindServers;
       State_Monad.return (case a of None \<Rightarrow> None
       | Some (sc, r) \<Rightarrow> Some (discovery_outcome (ce_stack env) ''find-servers'' ''FindServers failed'' sc
           (case r of None \<Rightarrow> [] | Some r \<Rightarrow> map application_item (cr_applications r))))
     })"

section \<open>translate\<close>

definition path_segments :: "string \<Rightarrow> string list" where
  "path_segments s = take 64 (strtok_all CHR ''.'' s)"

definition translate_request :: "nodeid \<Rightarrow> u16 \<Rightarrow> string list \<Rightarrow> client_call" where
  "translate_request start ns segments = TranslateBrowsePaths [\<lparr>bp_startingNode = start,
     bp_elements = map (\<lambda>s. \<lparr>pe_referenceTypeId = nodeid_numeric 0 UA_NS0ID_HIERARCHICALREFERENCES, pe_isInverse = False,
       pe_includeSubtypes = True, pe_targetName = \<lparr>qn_namespaceIndex = ns, qn_name = Some s\<rparr>\<rparr>) segments\<rparr>]"

definition translate_item :: "stack \<Rightarrow> browse_path_result \<Rightarrow> string" where
  "translate_item st b = jobj [(''statusCode'', print_status_obj st (bpr_statusCode b)), (''targets'', jarr (map print_ua_nodeid (bpr_targets b)))]"

definition translate_outcome :: "stack \<Rightarrow> client_ret \<Rightarrow> outcome" where
  "translate_outcome st resp =
    (let svc = cr_status resp;
         sc = (case cr_pathResults resp of
             b # _ \<Rightarrow> (if StatusCode_isGood st svc \<and> \<not> StatusCode_isGood st (bpr_statusCode b) then bpr_statusCode b else svc)
           | [] \<Rightarrow> svc);
         ok = StatusCode_isGood st sc in
     Exit (service_exit sc ok)
       (output_begin (Some ''open62541'') (Some ''translate'') @ output_success ok @ output_service_result st svc
        @ (if StatusCode_isGood st svc \<and> cr_pathResults resp \<noteq> [] then
             output_open_results @ join_comma [translate_item st (hd (cr_pathResults resp))] @ output_close_results @ output_null_error
           else if ok then output_no_results
           else output_error (Some ''service'') (Some ''TranslateBrowsePathsToNodeIds failed'')) @ output_end))"

definition cmd_translate :: "client_env \<Rightarrow> 's client \<Rightarrow> string list \<Rightarrow> ('s client_world, outcome option) state" where
  "cmd_translate env api argv =
    (let startStr = (case find_arg argv ''--starting-node'' of Some s \<Rightarrow> s | None \<Rightarrow> ''i=85'');
         ns = (case find_arg argv ''--namespace'' of Some s \<Rightarrow> word_of_int (atoi s) | None \<Rightarrow> 0) in
     case find_arg argv ''--endpoint'' of
       None \<Rightarrow> State_Monad.return (Some (give_up env ''translate'' BADINVALIDARGUMENT ''missing --endpoint''))
     | Some endpoint \<Rightarrow>
        (case find_arg argv ''--path'' of
           Some (c # cs) \<Rightarrow>
             if \<not> validate_nodeid_structure (Some startStr) then State_Monad.return (Some (malformed env ''translate'' startStr))
             else if path_segments (c # cs) = [] then
               State_Monad.return (Some (give_up env ''translate'' BADINVALIDARGUMENT ''empty --path''))
             else (case request_ms argv of
               None \<Rightarrow> State_Monad.return (Some Undefined)
             | Some ms \<Rightarrow> do {
                 m \<leftarrow> connect_command env api endpoint ms ''translate'';
                 case m of
                   None \<Rightarrow> State_Monad.return None
                 | Some (Inl out) \<Rightarrow> State_Monad.return (Some out)
                 | Some (Inr cfg) \<Rightarrow> do {
                     n \<leftarrow> resolve_one api startStr;
                     case n of
                       Inl e \<Rightarrow> do {
                         _ \<leftarrow> close_client api;
                         State_Monad.return (Some (give_up env ''translate'' BADNAMESPACEURIINVALID (unresolved startStr)))
                       }
                     | Inr start \<Rightarrow> do {
                         resp \<leftarrow> perform api (translate_request start ns (path_segments (c # cs)));
                         _ \<leftarrow> close_client api;
                         State_Monad.return (Some (translate_outcome (ce_stack env) resp))
                       }
                   }
               })
         | _ \<Rightarrow> State_Monad.return (Some (give_up env ''translate'' BADINVALIDARGUMENT ''missing --path''))))"

section \<open>find-servers-on-network\<close>

abbreviation MAX_REPEAT :: nat where "MAX_REPEAT \<equiv> 32"

definition discovery_string :: "ua_string \<Rightarrow> string" where
  "discovery_string s = output_json_string_len s (length (bytes_of_string s))"

definition record_id_flag :: "string list \<Rightarrow> string \<Rightarrow> u32" where
  "record_id_flag argv flag = (case find_arg argv flag of Some v \<Rightarrow> ucast (fst (strtoul 10 v)) | None \<Rightarrow> 0)"

definition network_item :: "string \<Rightarrow> server_on_network \<Rightarrow> string" where
  "network_item reset s = jobj ([(''recordId'', dec (unat (sn_recordId s))), (''serverName'', discovery_string (sn_serverName s)),
     (''discoveryUrl'', discovery_string (sn_discoveryUrl s)), (''serverCapabilities'', jarr (map discovery_string (sn_serverCapabilities s)))]
     @ (if reset \<noteq> [] then [(''lastCounterResetTime'', jkey reset)] else []))"

definition network_outcome :: "stack \<Rightarrow> client_ret \<Rightarrow> outcome" where
  "network_outcome st resp =
    (let sc = cr_status resp; ok = StatusCode_isGood st sc in
     Exit (service_exit sc ok)
       (output_begin (Some ''open62541'') (Some ''find-servers-on-network'') @ output_success ok @ output_service_result st sc
        @ (if ok then output_open_results @ join_comma (map (network_item (output_timestamp st (cr_resetTime resp) 64)) (cr_servers resp))
             @ output_close_results @ output_null_error
           else output_error (Some ''service'') (Some ''FindServersOnNetwork failed'')) @ output_end))"

definition channel_command :: "client_env \<Rightarrow> 's client \<Rightarrow> string \<Rightarrow> int \<Rightarrow> string \<Rightarrow> ('s client_world, outcome + client_config) state" where
  "channel_command env api url ms op = cli_make_channel_client (ce_stack env) (ce_files env) (ce_names env) api (ce_sec env) url ms op"

definition cmd_find_servers_on_network :: "client_env \<Rightarrow> 's client \<Rightarrow> string list \<Rightarrow> ('s client_world, outcome option) state" where
  "cmd_find_servers_on_network env api argv =
    (let op = ''find-servers-on-network'' in
     case find_arg argv ''--endpoint'' of
       None \<Rightarrow> State_Monad.return (Some (give_up env op BADINVALIDARGUMENT ''missing --endpoint''))
     | Some endpoint \<Rightarrow>
        (case request_ms argv of
           None \<Rightarrow> State_Monad.return (Some Undefined)
         | Some ms \<Rightarrow> do {
             m \<leftarrow> channel_command env api endpoint ms op;
             case m of
               Inl out \<Rightarrow> State_Monad.return (Some out)
             | Inr cfg \<Rightarrow> do {
                 resp \<leftarrow> perform api (ServiceFindServersOnNetwork (record_id_flag argv ''--starting-record-id'')
                   (record_id_flag argv ''--max-records'') (collect_flag MAX_REPEAT argv ''--capability''));
                 _ \<leftarrow> close_client api;
                 State_Monad.return (Some (network_outcome (ce_stack env) resp))
               }
           }))"

section \<open>register-server\<close>

definition parse_app_type :: "cstr \<Rightarrow> application_type option" where
  "parse_app_type s = (case s of None \<Rightarrow> Some AT_Server
     | Some t \<Rightarrow> map_of [(''Server'', AT_Server), (''Client'', AT_Client), (''ClientAndServer'', AT_ClientAndServer),
         (''DiscoveryServer'', AT_DiscoveryServer)] t)"

record register_args =
  ra_server :: registered_server
  ra_mdns :: mdns_configuration
  ra_want2 :: bool
  ra_want1 :: bool

definition register_usage :: string where
  "register_usage = ''usage: register-server --endpoint <lds-url> --server-uri <uri> --discovery-url <url> [--discovery-url ...] '' @
     ''[--server-name <text>] [--product-uri <uri>] [--server-type Server|Client|ClientAndServer|DiscoveryServer] '' @
     ''[--online true|false] [--service auto|RegisterServer2|RegisterServer] [--mdns-name <name>] [--capability <cap> ...]''"

definition flag_text :: "string list \<Rightarrow> string \<Rightarrow> string \<Rightarrow> string" where
  "flag_text argv flag def = (case find_arg argv flag of Some v \<Rightarrow> v | None \<Rightarrow> def)"

definition register_parse :: "string list \<Rightarrow> (string \<times> register_args) res" where
  "register_parse argv =
    (let urls = collect_flag MAX_REPEAT argv ''--discovery-url''; service = flag_text argv ''--service'' ''auto'';
         want2 = (service = ''auto'' \<or> service = ''RegisterServer2''); want1 = (service = ''auto'' \<or> service = ''RegisterServer'') in
     case (find_arg argv ''--endpoint'', find_arg argv ''--server-uri'') of
       (Some endpoint, Some serverUri) \<Rightarrow>
         if urls = [] then Inl register_usage
         else (case parse_app_type (find_arg argv ''--server-type'') of
             None \<Rightarrow> Inl ''invalid --service or --server-type''
           | Some appType \<Rightarrow>
               if \<not> want1 \<and> \<not> want2 then Inl ''invalid --service or --server-type''
               else let name = flag_text argv ''--server-name'' serverUri in
                 Inr (endpoint, \<lparr>ra_server = \<lparr>rs_serverUri = serverUri, rs_productUri = flag_text argv ''--product-uri'' [],
                     rs_serverName = \<lparr>lt_locale = Some (flag_text argv ''--server-name-locale'' ''en''), lt_text = Some name\<rparr>,
                     rs_serverType = appType, rs_gatewayServerUri = find_arg argv ''--gateway-server-uri'',
                     rs_semaphoreFilePath = find_arg argv ''--semaphore-file'', rs_discoveryUrls = urls,
                     rs_isOnline = (find_arg argv ''--online'' \<noteq> Some ''false'')\<rparr>,
                   ra_mdns = \<lparr>md_serverName = flag_text argv ''--mdns-name'' name, md_serverCapabilities = collect_flag MAX_REPEAT argv ''--capability''\<rparr>,
                   ra_want2 = want2, ra_want1 = want1\<rparr>))
     | _ \<Rightarrow> Inl register_usage)"

definition not_offered :: "u32 \<Rightarrow> bool" where
  "not_offered sc \<longleftrightarrow> sc = BADSERVICEUNSUPPORTED \<or> sc = BADNOTIMPLEMENTED \<or> sc = BADNOTSUPPORTED"

text \<open>What was tried: the answer of RegisterServer2 if it was called, and that of RegisterServer.\<close>

definition register_calls :: "'s client \<Rightarrow> register_args \<Rightarrow> ('s client_world, client_ret option \<times> client_ret option) state" where
  "register_calls api a = do {
     r2 \<leftarrow> (if ra_want2 a then do { r \<leftarrow> perform api (ServiceRegisterServer2 (ra_server a) (ra_mdns a)); State_Monad.return (Some r) }
           else State_Monad.return None);
     r1 \<leftarrow> (if ra_want1 a \<and> (case r2 of None \<Rightarrow> True | Some r \<Rightarrow> not_offered (cr_status r))
           then do { r \<leftarrow> perform api (ServiceRegisterServer (ra_server a)); State_Monad.return (Some r) }
           else State_Monad.return None);
     State_Monad.return (r2, r1)
   }"

definition register_status :: "client_ret option \<Rightarrow> client_ret option \<Rightarrow> u32" where
  "register_status r2 r1 = (case r1 of Some r \<Rightarrow> cr_status r | None \<Rightarrow> (case r2 of Some r \<Rightarrow> cr_status r | None \<Rightarrow> GOOD))"

text \<open>The results of the configuration count only when RegisterServer2 decided.\<close>

definition configuration_results :: "client_ret option \<Rightarrow> client_ret option \<Rightarrow> u32 list" where
  "configuration_results r2 r1 = (case (r1, r2) of (None, Some r) \<Rightarrow> cr_statuses r | _ \<Rightarrow> [])"

definition registered :: "stack \<Rightarrow> client_ret option \<Rightarrow> client_ret option \<Rightarrow> bool" where
  "registered st r2 r1 \<longleftrightarrow> StatusCode_isGood st (register_status r2 r1) \<and> list_all (StatusCode_isGood st) (configuration_results r2 r1)"

definition service_used :: "client_ret option \<Rightarrow> string" where
  "service_used r1 = (if r1 = None then ''RegisterServer2'' else ''RegisterServer'')"

definition json_flag :: "bool \<Rightarrow> string" where
  "json_flag b = (if b then ''true'' else ''false'')"

definition register_item :: "stack \<Rightarrow> register_args \<Rightarrow> client_ret option \<Rightarrow> client_ret option \<Rightarrow> string" where
  "register_item st a r2 r1 = jobj ([(''service'', jkey (service_used r1)), (''serverUri'', print_json_string (Some (rs_serverUri (ra_server a)))),
     (''isOnline'', json_flag (rs_isOnline (ra_server a))), (''statusCode'', print_status_obj st (register_status r2 r1)),
     (''fallback'', json_flag (r1 \<noteq> None \<and> ra_want2 a))]
     @ (case r2 of Some r \<Rightarrow> [(''registerServer2StatusCode'', print_status_obj st (cr_status r))] | None \<Rightarrow> [])
     @ [(''configurationResults'', jarr (map (print_status_obj st) (configuration_results r2 r1)))])"

definition register_outcome :: "stack \<Rightarrow> register_args \<Rightarrow> client_ret option \<Rightarrow> client_ret option \<Rightarrow> outcome" where
  "register_outcome st a r2 r1 =
    (let sc = register_status r2 r1; ok = registered st r2 r1 in
     Exit (service_exit sc ok)
       (output_begin (Some ''open62541'') (Some ''register-server'') @ output_success ok @ output_service_result st sc
        @ output_open_results @ join_comma [register_item st a r2 r1] @ output_close_results
        @ (if ok then output_null_error
           else '','' @ jkey ''error'' @ '':'' @ jobj [(''category'', jkey ''service''), (''message'', jkey (service_used r1 @ '' failed''))])
        @ output_end))"

definition cmd_register_server :: "client_env \<Rightarrow> 's client \<Rightarrow> string list \<Rightarrow> ('s client_world, outcome option) state" where
  "cmd_register_server env api argv =
    (let op = ''register-server'' in
     case register_parse argv of
       Inl msg \<Rightarrow> State_Monad.return (Some (give_up env op BADINVALIDARGUMENT msg))
     | Inr (endpoint, a) \<Rightarrow>
        (case request_ms argv of
           None \<Rightarrow> State_Monad.return (Some Undefined)
         | Some ms \<Rightarrow> do {
             m \<leftarrow> channel_command env api endpoint ms op;
             case m of
               Inl out \<Rightarrow> State_Monad.return (Some out)
             | Inr cfg \<Rightarrow> do {
                 (r2, r1) \<leftarrow> register_calls api a;
                 _ \<leftarrow> close_client api;
                 State_Monad.return (Some (register_outcome (ce_stack env) a r2 r1))
               }
           }))"
section \<open>The sessions of the commands\<close>

lemma awaited_False [simp]: "awaited False = Channel"
  by (simp add: awaited_def)

lemma session_discovery_rounds:
  assumes "is_service c"
  shows "runs anything (discovery_rounds rounds env api cfg c deadline sc) (\<lambda>_ new. \<forall>p\<in>{Idle, Channel}. session_after p new \<in> {Idle, Channel})"
proof (induction rounds arbitrary: sc)
  case (Suc rounds)
  have c: "session_step Channel (c, r) = Channel" for r using assms by (cases c) auto
  show ?case
    by (auto simp: c split: option.split intro!: runs_calculus runs_mono [OF session_awaiting] runs_mono [OF Suc.IH])
qed (auto intro!: runs_calculus)

lemma session_discover:
  assumes "is_service listen" and "\<And>p r. session_step p (direct, r) = p"
  shows "runs anything (discover env api direct listen) (if_returned (\<lambda>_ new. session_after Idle new = Deleted))"
  unfolding discover_def cli_new_plain_client_def reverse_discovery_call_def
  by (auto simp: assms(2) Let_def split: option.split intro!: runs_calculus runs_mono [OF session_discovery_rounds [OF assms(1)]])

lemma session_channel_command:
  "runs anything (channel_command env api url ms op) (client_spec (ce_stack env) op live)"
  unfolding channel_command_def cli_make_channel_client_def
  by (auto simp: Let_def split: sum.split intro!: runs_calculus runs_mono [OF session_unconnected])

section \<open>The documents\<close>

lemma plain_json: "plain_text s \<Longrightarrow> json_chars s"
  using json_chars_plain [of s "[]"] by simp

lemma plain_copy: "plain_ua s \<Longrightarrow> json_chars (copy_ua_string n s)"
  by (auto simp: copy_ua_string_def plain_ua_def bytes_of_string_def until_nul_def plain_text_def split: option.split
      intro!: plain_json dest!: set_takeWhileD)

lemma json_endpoint_item:
  assumes "plain_ua (ep_endpointUrl ep)" and "plain_ua (ep_securityPolicyUri ep)"
  shows "json_value (endpoint_item ep)"
  unfolding endpoint_item_def using assms by (auto simp: security_mode_name_def split: message_security_mode.split intro!: jobj_value json_value_jkey plain_copy)

lemma json_application_item: "plain_application d \<Longrightarrow> json_value (application_item d)"
  unfolding application_item_def plain_application_def by (auto intro!: jobj_value jarr_value json_value_jkey plain_copy)

lemma discovery_reports:
  assumes "ok \<Longrightarrow> \<forall>r\<in>set items. json_value r"
  shows "result_block (if ok then output_open_results @ join_comma items @ output_close_results @ output_null_error
    else output_error (Some category) (Some message))"
  using assms by (simp add: result_block_items result_block_error)

lemma envelope_spec:
  assumes "result_block body" and "ok \<longleftrightarrow> ec = 0" and "ec \<in> {0, 2, 3, 4, 6, 7}" and "session_after Idle calls = Deleted"
  shows "command_spec st op (Exit ec (output_begin (Some ''open62541'') (Some op) @ output_success ok @ output_service_result st sc @ body @ output_end)) calls"
  using assms unfolding command_spec.simps reports_def by blast

lemma discovery_spec:
  assumes "sc = GOOD \<Longrightarrow> \<forall>r\<in>set items. json_value r" and "session_after Idle calls = Deleted"
  shows "command_spec st op (discovery_outcome st op message sc items) calls"
  unfolding discovery_outcome_def Let_def
  by (rule envelope_spec [OF discovery_reports _ _ assms(2)]) (use assms(1) in auto)

lemma json_discovery_string: "json_value (discovery_string s)"
proof (cases s)
  case None
  then show ?thesis using json_value_plain [of "[]"] by (simp add: discovery_string_def output_json_string_len_def bytes_of_string_def)
next
  case (Some t)
  then show ?thesis by (simp add: discovery_string_def output_json_string_len_def print_json_string_len_def json_value_print_string)
qed

lemma json_network_item: "plain_text reset \<Longrightarrow> json_value (network_item reset s)"
  unfolding network_item_def
  by (rule jobj_value) (simp add: json_discovery_string dec_value jarr_value json_value_jkey plain_json)

lemma json_register_item: "names_ok st \<Longrightarrow> json_value (register_item st a r2 r1)"
  unfolding register_item_def
  by (rule jobj_value) (cases r2; simp add: json_flag_def service_used_def json_value_jkey json_value_print_string json_status_obj json_consts jarr_value)

lemma json_translate_item: "names_ok st \<Longrightarrow> \<forall>n\<in>set (bpr_targets b). clean_nodeid n \<Longrightarrow> json_value (translate_item st b)"
  unfolding translate_item_def by (rule jobj_value) (simp add: jarr_value json_status_obj json_nodeid)

section \<open>The commands\<close>

text \<open>What is relied on of the stack: the names of its status codes are plain text, and a timeout is not good.\<close>

definition sane_stack :: "client_env \<Rightarrow> bool" where
  "sane_stack env \<longleftrightarrow> names_ok (ce_stack env) \<and> \<not> StatusCode_isGood (ce_stack env) BADTIMEOUT"

lemma usual_sane: "usual env api \<Longrightarrow> sane_stack env"
  by (simp add: usual_def sane_stack_def)

text \<open>endpoints and find-servers print the strings a server announces as they are, translate prints
  NodeIds through the stack's printer; what such an answer must be like for the document to be JSON.\<close>

definition printable_answer :: "string \<Rightarrow> client_ret \<Rightarrow> bool" where
  "printable_answer op r \<longleftrightarrow>
     (op = ''endpoints'' \<longrightarrow> (\<forall>ep\<in>set (cr_endpoints r). plain_ua (ep_endpointUrl ep) \<and> plain_ua (ep_securityPolicyUri ep))) \<and>
     (op = ''find-servers'' \<longrightarrow> (\<forall>d\<in>set (cr_applications r). plain_application d)) \<and>
     (op = ''translate'' \<longrightarrow> (\<forall>b\<in>set (cr_pathResults r). \<forall>n\<in>set (bpr_targets b). clean_nodeid n))"

text \<open>The exit code and the session whatever the answers were, the document when they can be printed.\<close>

fun discovery_run :: "stack \<Rightarrow> string \<Rightarrow> outcome \<Rightarrow> (client_call \<times> client_ret) list \<Rightarrow> bool" where
  "discovery_run st op Undefined calls = True"
| "discovery_run st op (Exit ec doc) calls = (ec \<in> {0, 2, 3, 4, 6, 7} \<and> session_after Idle calls \<in> {Idle, Deleted} \<and>
     ((\<forall>e\<in>set calls. printable_answer op (snd e)) \<longrightarrow> reports st op ec doc))"

declare discovery_run.simps(2) [simp del]

lemma discovery_run_command: "command_spec st op out calls \<Longrightarrow> discovery_run st op out calls"
  by (cases out) (simp_all add: command_spec.simps discovery_run.simps)

lemma discovery_run_failed: "failed st op out \<Longrightarrow> out = Undefined \<or> session_after Idle calls \<in> {Idle, Deleted} \<Longrightarrow> discovery_run st op out calls"
  by (intro discovery_run_command command_failed)

lemma discovery_run_gave_up:
  assumes "session_after Idle calls \<in> {Idle, Deleted}"
  shows "discovery_run (ce_stack env) op (give_up env op sc msg) calls" and "discovery_run (ce_stack env) op (malformed env op s) calls"
  using assms by (simp_all add: malformed_def give_up_def discovery_run.simps reports_failure)

lemma discovery_run_outcome:
  assumes "(\<forall>e\<in>set calls. printable_answer op (snd e)) \<Longrightarrow> sc = GOOD \<Longrightarrow> \<forall>r\<in>set items. json_value r" and "session_after Idle calls = Deleted"
  shows "discovery_run st op (discovery_outcome st op message sc items) calls"
proof (cases "\<forall>e\<in>set calls. printable_answer op (snd e)")
  case True
  show ?thesis by (rule discovery_run_command [OF discovery_spec [OF _ assms(2)]]) (rule assms(1) [OF True])
qed (use assms(2) in \<open>auto simp: discovery_outcome_def Let_def discovery_run.simps\<close>)

text \<open>The answer of a discovery call was returned by one of the calls.\<close>

fun answered :: "(u32 \<times> client_ret option) option \<Rightarrow> (client_call \<times> client_ret) list \<Rightarrow> bool" where
  "answered (Some (sc, Some r)) new = (r \<in> snd ` set new)"
| "answered _ new = True"

lemma answered_mono: "answered a new' \<Longrightarrow> set new' \<subseteq> set new \<Longrightarrow> answered a new"
  by (cases "(a, new')" rule: answered.cases) auto

lemma discovery_rounds_answered: "runs anything (discovery_rounds rounds env api cfg c deadline sc) answered"
proof (induction rounds arbitrary: sc)
  case (Suc rounds)
  show ?case
    by (auto split: option.split intro!: runs_calculus runs_mono [OF session_awaiting] runs_mono [OF Suc.IH] elim!: answered_mono)
qed (auto intro!: runs_return)

lemma discover_answered: "runs anything (discover env api direct listen) answered"
  unfolding discover_def reverse_discovery_call_def cli_new_plain_client_def
  by (auto simp: Let_def split: option.split intro!: runs_calculus runs_mono [OF discovery_rounds_answered] elim!: answered_mono)

lemma discover_runs:
  assumes "is_service listen" and "\<And>p r. session_step p (direct, r) = p"
    and "\<And>r. printable_answer op r \<Longrightarrow> \<forall>x\<in>set (items r). json_value x"
  shows "runs anything (do {
       a \<leftarrow> discover env api direct listen;
       State_Monad.return (case a of None \<Rightarrow> None
       | Some (sc, r) \<Rightarrow> Some (discovery_outcome (ce_stack env) op message sc (case r of None \<Rightarrow> [] | Some r \<Rightarrow> items r)))
     }) (if_returned (discovery_run (ce_stack env) op))"
proof (rule runs_bind [OF runs_both [OF session_discover [OF assms(1,2)] discover_answered]])
  fix a new assume a: "if_returned (\<lambda>_ new. session_after Idle new = Deleted) a new \<and> answered a new"
  show "runs anything (State_Monad.return (case a of None \<Rightarrow> None
       | Some (sc, r) \<Rightarrow> Some (discovery_outcome (ce_stack env) op message sc (case r of None \<Rightarrow> [] | Some r \<Rightarrow> items r))))
     (\<lambda>y new'. if_returned (discovery_run (ce_stack env) op) y (new @ new'))"
    using a assms(3) by (cases "(a, new)" rule: answered.cases) (auto intro!: runs_return discovery_run_outcome, metis snd_conv)
qed

lemma endpoints_runs: "runs anything (cmd_endpoints env api argv) (if_returned (discovery_run (ce_stack env) ''endpoints''))"
  unfolding cmd_endpoints_def
  by (auto simp: printable_answer_def json_endpoint_item discovery_run_gave_up split: option.split intro!: runs_return discover_runs)

lemma find_servers_runs: "runs anything (cmd_find_servers env api argv) (if_returned (discovery_run (ce_stack env) ''find-servers''))"
  unfolding cmd_find_servers_def
  by (auto simp: printable_answer_def json_application_item discovery_run_gave_up split: option.split intro!: runs_return discover_runs)

lemma translate_finished:
  assumes "sane_stack env" and "resp \<in> snd ` set calls" and "session_after Idle calls = Deleted"
  shows "discovery_run (ce_stack env) ''translate'' (translate_outcome (ce_stack env) resp) calls"
proof (cases "printable_answer ''translate'' resp")
  case True
  let ?st = "ce_stack env"
  have st: "names_ok ?st" "\<not> StatusCode_isGood ?st BADTIMEOUT" using assms(1) by (simp_all add: sane_stack_def)
  have t: "json_value (translate_item ?st b)" if "cr_pathResults resp = b # bs" for b bs
    using True that by (intro json_translate_item st(1)) (simp add: printable_answer_def)
  have b: "result_block (if StatusCode_isGood ?st (cr_status resp) \<and> cr_pathResults resp \<noteq> [] then
             output_open_results @ join_comma [translate_item ?st (hd (cr_pathResults resp))] @ output_close_results @ output_null_error
           else if ok then output_no_results
           else output_error (Some ''service'') (Some ''TranslateBrowsePathsToNodeIds failed''))" for ok
    using t result_block_items [of "[translate_item ?st (hd (cr_pathResults resp))]"] result_block_error result_block_none
    by (cases "cr_pathResults resp") auto
  show ?thesis unfolding translate_outcome_def Let_def
    using st(2) service_exit_cases
    by (intro discovery_run_command envelope_spec [OF b _ _ assms(3)]) (auto simp: service_exit_def)
next
  case False
  then have "\<not> (\<forall>e\<in>set calls. printable_answer ''translate'' (snd e))" using assms(2) by auto
  then show ?thesis using assms(3) service_exit_cases by (auto simp: translate_outcome_def Let_def discovery_run.simps)
qed

lemma cmd_translate_runs:
  assumes "sane_stack env"
  shows "runs anything (cmd_translate env api argv) (if_returned (discovery_run (ce_stack env) ''translate''))"
  unfolding cmd_translate_def Let_def connect_command_def translate_request_def
  by (auto simp: discovery_run_failed discovery_run_gave_up split: option.split sum.split list.split
      intro!: runs_calculus runs_mono [OF session_make_client] runs_mono [OF session_resolve_one] runs_mono [OF session_close] translate_finished [OF assms])

lemma network_runs:
  assumes "sane_stack env"
  shows "runs anything (cmd_find_servers_on_network env api argv) (if_returned (command_spec (ce_stack env) ''find-servers-on-network''))"
proof -
  have "command_spec (ce_stack env) ''find-servers-on-network'' (network_outcome (ce_stack env) resp) calls" if "session_after Idle calls = Deleted" for resp calls
    unfolding network_outcome_def Let_def using assms service_exit_cases
    by (intro envelope_spec [OF discovery_reports _ _ that]) (auto simp: sane_stack_def service_exit_def intro!: json_network_item plain_timestamp)
  then show ?thesis unfolding cmd_find_servers_on_network_def Let_def
    by (auto simp: command_failed split: option.split sum.split intro!: command_calculus runs_performI runs_mono [OF session_channel_command])
qed

section \<open>Registering falls back once\<close>

fun registers :: "client_call \<Rightarrow> bool" where
  "registers (ServiceRegisterServer _) = True"
| "registers (ServiceRegisterServer2 _ _) = True"
| "registers _ = False"

lemma preparing_no_registers: "preparing c \<Longrightarrow> \<not> registers c"
  by (cases c) auto

definition registrations :: "(client_call \<times> client_ret) list \<Rightarrow> (client_call \<times> client_ret) list" where
  "registrations calls = filter (\<lambda>e. registers (fst e)) calls"

lemma registrations_simps [simp]: "registrations [] = []" "registrations (a @ b) = registrations a @ registrations b"
    "registrations (e # calls) = (if registers (fst e) then e # registrations calls else registrations calls)"
  by (simp_all add: registrations_def)

lemma registrations_prepared: "prepared new \<Longrightarrow> registrations new = []"
  unfolding registrations_def by (rule prepared_none [OF preparing_no_registers])

text \<open>The registrations that belong to the answers.\<close>

fun registered_by :: "register_args \<Rightarrow> client_ret option \<times> client_ret option \<Rightarrow> (client_call \<times> client_ret) list \<Rightarrow> bool" where
  "registered_by a (Some r2, None) regs = (ra_want2 a \<and> \<not> (ra_want1 a \<and> not_offered (cr_status r2)) \<and> regs = [(ServiceRegisterServer2 (ra_server a) (ra_mdns a), r2)])"
| "registered_by a (None, Some r1) regs = (\<not> ra_want2 a \<and> regs = [(ServiceRegisterServer (ra_server a), r1)])"
| "registered_by a (Some r2, Some r1) regs = (ra_want2 a \<and> ra_want1 a \<and> not_offered (cr_status r2)
     \<and> regs = [(ServiceRegisterServer2 (ra_server a) (ra_mdns a), r2), (ServiceRegisterServer (ra_server a), r1)])"
| "registered_by a (None, None) regs = False"

lemma register_calls_runs:
  assumes "ra_want2 a \<or> ra_want1 a"
  shows "runs anything (register_calls api a) (\<lambda>rs new. registered_by a rs (registrations new) \<and> inside new)"
  using assms unfolding register_calls_def by (auto intro!: runs_calculus)

fun register_spec :: "stack \<Rightarrow> register_args \<Rightarrow> outcome \<Rightarrow> (client_call \<times> client_ret) list \<Rightarrow> bool" where
  "register_spec st a Undefined calls = True"
| "register_spec st a (Exit ec doc) calls = (command_spec st ''register-server'' (Exit ec doc) calls \<and>
     (registrations calls = [] \<and> 0 < ec \<or> (\<exists>r2 r1. registered_by a (r2, r1) (registrations calls) \<and> (ec = 0 \<longleftrightarrow> registered st r2 r1))))"

lemma register_finished:
  assumes "sane_stack env" and "registered_by a (r2, r1) (registrations calls)" and "session_after Idle calls = Deleted"
  shows "register_spec (ce_stack env) a (register_outcome (ce_stack env) a r2 r1) calls"
proof -
  let ?st = "ce_stack env" and ?ok = "registered (ce_stack env) r2 r1"
  have st: "names_ok ?st" "\<not> StatusCode_isGood ?st BADTIMEOUT" using assms(1) by (simp_all add: sane_stack_def)
  have e: "service_exit (register_status r2 r1) ?ok = 0 \<longleftrightarrow> ?ok"
    using st(2) by (intro service_exit_0) (auto simp: registered_def)
  have j: "json_value (jobj [(''category'', jkey ''service''), (''message'', jkey (service_used r1 @ '' failed''))])"
    by (rule jobj_value) (simp add: service_used_def json_value_jkey)
  have "result_block (output_open_results @ join_comma [register_item ?st a r2 r1] @ output_close_results
      @ (if ?ok then output_null_error else '','' @ jkey ''error'' @ '':'' @ jobj [(''category'', jkey ''service''), (''message'', jkey (service_used r1 @ '' failed''))]))"
    by (rule result_blockI [of _ "[register_item ?st a r2 r1]" "if ?ok then ''null'' else jobj [(''category'', jkey ''service''), (''message'', jkey (service_used r1 @ '' failed''))]"])
      (auto simp: piece_defs jarr_def j json_register_item [OF st(1)] json_consts)
  from envelope_spec [OF this, of ?ok "service_exit (register_status r2 r1) ?ok" calls ?st "''register-server''" "register_status r2 r1"]
  have "command_spec ?st ''register-server'' (register_outcome ?st a r2 r1) calls"
    using assms(3) e service_exit_cases [of "register_status r2 r1" ?ok] by (auto simp: register_outcome_def Let_def)
  then show ?thesis using assms(2) e by (auto simp: register_outcome_def Let_def)
qed

lemma register_runs:
  assumes "sane_stack env" and "register_parse argv = Inr (endpoint, a)"
  shows "runs anything (cmd_register_server env api argv) (if_returned (register_spec (ce_stack env) a))"
proof (cases "request_ms argv")
  case (Some ms)
  have w: "ra_want2 a \<or> ra_want1 a" using assms(2) by (auto simp: register_parse_def Let_def split: if_splits option.splits)
  have c: "runs anything (channel_command env api endpoint ms ''register-server'') (\<lambda>res new. client_spec (ce_stack env) ''register-server'' live res new \<and> prepared new)"
    by (rule runs_both [OF session_channel_command]) (simp add: channel_command_def prepared_channel_client)
  have cl: "runs anything (close_client api) (\<lambda>_ new. prepared new \<and> (\<forall>p. live p \<longrightarrow> session_after p new = Deleted))"
    by (rule runs_both [OF prepared_close session_close])
  have f: "register_spec (ce_stack env) a out new" if "failed (ce_stack env) ''register-server'' out" "prepared new"
      "out = Undefined \<or> session_after Idle new \<in> {Idle, Deleted}" for out new
    using that by (cases out) (auto simp: failed_def command_spec.simps registrations_prepared)
  show ?thesis unfolding cmd_register_server_def Let_def assms(2) Some
    by (auto split: sum.split simp del: register_spec.simps simp: f inside_live registrations_prepared
        intro!: runs_bindI runs_return runs_mono [OF c] runs_mono [OF register_calls_runs [OF w]] runs_mono [OF cl] register_finished [OF assms(1)])
qed (use assms in \<open>auto simp: cmd_register_server_def intro!: runs_return\<close>)

lemma register_outcome_of:
  assumes "sane_stack env" and "run_state (cmd_register_server env api argv) (s, []) = (Some (Exit ec doc), s', calls)"
  shows "case register_parse argv of Inl _ \<Rightarrow> ec = 2 \<and> command_spec (ce_stack env) ''register-server'' (Exit ec doc) calls
    | Inr (endpoint, a) \<Rightarrow> register_spec (ce_stack env) a (Exit ec doc) calls"
proof (cases "register_parse argv")
  case (Inl msg)
  have "cmd_register_server env api argv = State_Monad.return (Some (give_up env ''register-server'' BADINVALIDARGUMENT msg))"
    unfolding cmd_register_server_def Inl Let_def sum.case ..
  with assms(2) have "calls = []" "Exit ec doc = give_up env ''register-server'' BADINVALIDARGUMENT msg" by simp_all
  with Inl gave_up(1) [of "[]" env "''register-server''" BADINVALIDARGUMENT msg] show ?thesis by (simp add: give_up_def)
next
  case (Inr ea)
  obtain endpoint a where "register_parse argv = Inr (endpoint, a)" using Inr by (cases ea) simp
  with runsD [OF register_runs [OF assms(1) this] TrueI assms(2)] show ?thesis by (simp del: register_spec.simps)
qed

section \<open>Properties\<close>

text \<open>C6 register-server registers with one description: with RegisterServer2 unless only
  RegisterServer was asked for, and with RegisterServer instead only when the discovery server does not offer
  RegisterServer2 and the caller left the choice open. Neither service is called twice, and the
  exit code is 0 exactly when the service that decided was good and, for RegisterServer2, every configuration
  result was.\<close>

theorem register_falls_back:
  assumes "usual env api" and "register_parse argv = Inr (endpoint, a)"
    and "run_state (cmd_register_server env api argv) (s, []) = (Some (Exit ec doc), s', calls)"
  shows "registrations calls = [] \<and> ec \<noteq> 0
    \<or> (\<exists>r2. registrations calls = [(ServiceRegisterServer2 (ra_server a) (ra_mdns a), r2)] \<and> ra_want2 a
        \<and> (ra_want1 a \<longrightarrow> \<not> not_offered (cr_status r2))
        \<and> (ec = 0 \<longleftrightarrow> StatusCode_isGood (ce_stack env) (cr_status r2) \<and> list_all (StatusCode_isGood (ce_stack env)) (cr_statuses r2)))
    \<or> (\<exists>r1. registrations calls = [(ServiceRegisterServer (ra_server a), r1)] \<and> \<not> ra_want2 a
        \<and> (ec = 0 \<longleftrightarrow> StatusCode_isGood (ce_stack env) (cr_status r1)))
    \<or> (\<exists>r2 r1. registrations calls = [(ServiceRegisterServer2 (ra_server a) (ra_mdns a), r2), (ServiceRegisterServer (ra_server a), r1)]
        \<and> ra_want2 a \<and> ra_want1 a \<and> not_offered (cr_status r2) \<and> (ec = 0 \<longleftrightarrow> StatusCode_isGood (ce_stack env) (cr_status r1)))"
proof -
  have "register_spec (ce_stack env) a (Exit ec doc) calls" using register_outcome_of [OF usual_sane [OF assms(1)] assms(3)] assms(2) by simp
  then consider "registrations calls = []" "0 < ec"
    | r2 r1 where "registered_by a (r2, r1) (registrations calls)" "ec = 0 \<longleftrightarrow> registered (ce_stack env) r2 r1" by auto
  then show ?thesis
  proof cases
    case 2
    then show ?thesis
      by (cases "(a, (r2, r1), registrations calls)" rule: registered_by.cases)
        (auto simp: registered_def register_status_def configuration_results_def)
  qed simp
qed

definition discovery_commands :: "(string \<times> (client_env \<Rightarrow> 's client \<Rightarrow> string list \<Rightarrow> ('s client_world, outcome option) state)) list" where
  "discovery_commands = [(''endpoints'', cmd_endpoints), (''find-servers'', cmd_find_servers), (''translate'', cmd_translate),
     (''find-servers-on-network'', cmd_find_servers_on_network), (''register-server'', cmd_register_server)]"

text \<open>C40 Every run of endpoints, find-servers, translate, find-servers-on-network or register-server that
  returns has used services only on an open connection, a channel that the server opened included; at the end the
  connection is closed and the client deleted, or none was ever made; and the exit code is one of 0, 2, 3, 4, 6 and 7. All this holds whatever
  the server answers. The document it has printed is JSON and reports success exactly when the exit code is 0: always for find-servers-on-network and
  register-server, which escape what they print; for endpoints and find-servers if the endpoint URLs, policy URIs and application strings
  in the answers have no quote, backslash or control character, since these are printed as they are (announced_quote_breaks_document); for translate
  if the string identifiers of the NodeIds in the answers have no control character. Relied on of the stack: the names of
  status codes are plain text, and a timeout is not good.\<close>

theorem discovery_report_and_close:
  assumes "names_ok (ce_stack env)" and "\<not> StatusCode_isGood (ce_stack env) BADTIMEOUT" and "(op, cmd) \<in> set discovery_commands"
    and "run_state (cmd env api argv) (s, []) = (Some (Exit ec doc), s', calls)"
  shows "ec \<in> {0, 2, 3, 4, 6, 7} \<and> session_after Idle calls \<in> {Idle, Deleted} \<and>
    ((\<forall>e\<in>set calls. printable_answer op (snd e)) \<longrightarrow> document doc \<and> reports (ce_stack env) op ec doc)"
proof -
  have sane: "sane_stack env" using assms(1,2) by (simp add: sane_stack_def)
  have "discovery_run (ce_stack env) op (Exit ec doc) calls"
  proof (cases "op = ''register-server''")
    case True
    then have "cmd = cmd_register_server" using assms(3) by (auto simp: discovery_commands_def)
    with register_outcome_of [OF sane, of api argv s ec doc s' calls] assms(4) show ?thesis
      by (auto simp: True discovery_run_command split: sum.splits prod.splits)
  next
    case False
    have "runs anything (cmd_find_servers_on_network env api argv) (if_returned (discovery_run (ce_stack env) ''find-servers-on-network''))"
    proof (rule runs_mono [OF network_runs [OF sane]])
      show "if_returned (discovery_run (ce_stack env) ''find-servers-on-network'') r new"
        if "if_returned (command_spec (ce_stack env) ''find-servers-on-network'') r new" for r new
        using that discovery_run_command by (cases r) simp_all
    qed
    then have "runs anything (cmd env api argv) (if_returned (discovery_run (ce_stack env) op))"
      using False assms(3) endpoints_runs [of env api argv] find_servers_runs [of env api argv] cmd_translate_runs [OF sane, of api argv] by (auto simp: discovery_commands_def)
    from runsD [OF this TrueI assms(4)] show ?thesis by simp
  qed
  with reports_document [OF assms(1)] show ?thesis by (auto simp: discovery_run.simps)
qed

lemma discovery_report_returns:
  "\<exists>doc calls. run_state (cmd_endpoints plain_env open_server [''--endpoint'', ''opc.tcp://h'']) ((), []) = (Some (Exit 0 doc), (), calls)
    \<and> (\<forall>e\<in>set calls. printable_answer ''endpoints'' (snd e))"
  by (simp add: printable_answer_def plain_ua_def plain_char_def security_policy_uri_def policy_table_def policy_names_def POLICY_PREFIX_def cmd_endpoints_def discover_def cli_new_plain_client_def perform_def open_server_def client_ret_good_def plain_env_def g_sec_def discovery_outcome_def Let_def)

theorem discovery_report_and_close_witness:
  "\<exists>doc calls. run_state (cmd_endpoints plain_env open_server [''--endpoint'', ''opc.tcp://h'']) ((), []) = (Some (Exit 0 doc), (), calls)
    \<and> document doc \<and> reports plain_stack ''endpoints'' 0 doc \<and> session_after Idle calls \<in> {Idle, Deleted}"
proof -
  obtain doc calls where r: "run_state (cmd_endpoints plain_env open_server [''--endpoint'', ''opc.tcp://h'']) ((), []) = (Some (Exit 0 doc), (), calls)"
      "\<forall>e\<in>set calls. printable_answer ''endpoints'' (snd e)"
    using discovery_report_returns by blast
  have "(''endpoints'', cmd_endpoints) \<in> set discovery_commands" by (simp add: discovery_commands_def)
  from discovery_report_and_close [OF _ _ this r(1)] r usual_open show ?thesis by (auto simp: plain_env_def usual_def)
qed

text \<open>A discovery server that only has RegisterServer.\<close>

definition old_lds :: "unit client" where
  "old_lds s c = (case c of ServiceRegisterServer2 _ _ \<Rightarrow> (fst (open_server s c))\<lparr>cr_status := BADSERVICEUNSUPPORTED\<rparr> | _ \<Rightarrow> fst (open_server s c), ())"

lemma usual_lds: "usual plain_env old_lds"
  using usual_open by (auto simp: usual_def old_lds_def clean_ret_def clean_basic_def clean_further_def split: client_call.split)

definition register_argv :: "string list" where
  "register_argv = [''--endpoint'', ''opc.tcp://h'', ''--server-uri'', ''urn:s'', ''--discovery-url'', ''opc.tcp://s'']"

lemma register_arguments: "\<exists>a. register_parse register_argv = Inr (''opc.tcp://h'', a) \<and> ra_want2 a \<and> ra_want1 a"
  by (simp add: register_parse_def register_argv_def flag_text_def parse_app_type_def eval_nat_numeral Let_def)

lemma lds_opens:
  "\<exists>calls. run_state (channel_command plain_env old_lds url ms op) ((), tr) = (Inr (client_settings (\<lambda>_. Inl []) (\<lambda>_. None) g_sec ms), (), calls)"
  by (simp add: channel_command_def plain_env_def cli_make_channel_client_def make_client_unconnected_def endpoint_check_security_def perform_def old_lds_def open_server_def
      client_ret_good_def g_sec_def security_policy_known_iff policy_names_def security_is_none_def security_mode_enum_def endpoint_matches_def security_policy_uri_def policy_table_def)

lemma lds_returns:
  assumes "register_parse register_argv = Inr (''opc.tcp://h'', a)" and "ra_want2 a" and "ra_want1 a"
  shows "\<exists>doc calls. run_state (cmd_register_server plain_env old_lds register_argv) ((), []) = (Some (Exit 0 doc), (), calls)"
proof -
  have r: "request_ms register_argv = Some 5000" by (simp add: register_argv_def request_ms_def parse_int_flag_def eval_nat_numeral)
  obtain calls where c: "run_state (channel_command plain_env old_lds ''opc.tcp://h'' 5000 ''register-server'') ((), []) =
      (Inr (client_settings (\<lambda>_. Inl []) (\<lambda>_. None) g_sec 5000), (), calls)" using lds_opens by blast
  have st: "ce_stack plain_env = plain_stack" by (simp add: plain_env_def)
  show ?thesis
    by (simp add: cmd_register_server_def assms r c register_calls_def perform_def old_lds_def open_server_def client_ret_good_def not_offered_def close_client_def
        register_outcome_def registered_def register_status_def configuration_results_def service_exit_def st plain_good Let_def)
qed

theorem register_falls_back_witness:
  "\<exists>a doc calls. register_parse register_argv = Inr (''opc.tcp://h'', a)
    \<and> run_state (cmd_register_server plain_env old_lds register_argv) ((), []) = (Some (Exit 0 doc), (), calls) \<and> registrations calls \<noteq> []"
proof -
  obtain a where a: "register_parse register_argv = Inr (''opc.tcp://h'', a)" "ra_want2 a" "ra_want1 a" using register_arguments by blast
  obtain doc calls where r: "run_state (cmd_register_server plain_env old_lds register_argv) ((), []) = (Some (Exit 0 doc), (), calls)"
    using lds_returns [OF a] by blast
  from register_falls_back [OF usual_lds a(1) r] a r show ?thesis by auto
qed

text \<open>A server that announces an endpoint whose URL is a quote: what endpoints prints is not JSON.\<close>

definition quoting_server :: "unit client" where
  "quoting_server s c = ((fst (open_server s c))\<lparr>cr_endpoints := [\<lparr>ep_securityMode = MODE_None, ep_securityPolicyUri = None, ep_endpointUrl = Some [quote]\<rparr>]\<rparr>, ())"

lemma announced_quote_breaks_document:
  "\<exists>doc calls. run_state (cmd_endpoints plain_env quoting_server [''--endpoint'', ''opc.tcp://h'']) ((), []) = (Some (Exit 0 doc), (), calls) \<and> \<not> document doc"
proof -
  let ?doc = "case discovery_outcome plain_stack ''endpoints'' ''GetEndpoints failed'' GOOD
      [endpoint_item \<lparr>ep_securityMode = MODE_None, ep_securityPolicyUri = None, ep_endpointUrl = Some [quote]\<rparr>] of Exit ec doc \<Rightarrow> doc | Undefined \<Rightarrow> []"
  have "\<exists>calls. run_state (cmd_endpoints plain_env quoting_server [''--endpoint'', ''opc.tcp://h'']) ((), []) = (Some (Exit 0 ?doc), (), calls)"
    by (simp add: cmd_endpoints_def discover_def cli_new_plain_client_def perform_def quoting_server_def open_server_def client_ret_good_def plain_env_def g_sec_def discovery_outcome_def Let_def)
  moreover have "bslash \<notin> set ?doc \<and> odd (count_list ?doc quote)" by code_simp
  then have "\<not> document ?doc" unfolding document_def using json_even_quotes by fastforce
  ultimately show ?thesis by blast
qed

end
