(* ===== verification/Spec2Isabelle.thy ===== *)
theory Spec2Isabelle
  imports Server_Run PubSub_Security Gds_Pull Client_Discovery
begin

text \<open>
  A model of the open62541 adapter of the OPC UA interoperability suite
  (src/adapters/open62541/src), with the properties that make it correct.

  \<^bold>\<open>The program.\<close> The adapter is one executable with two sides. The server (server.c) reads a fixture
  (fixture.c), fills the address space of an open62541 server from it, installs methods, behaviors, a historian,
  events and alarms, writes a readiness file and serves until a signal. The client (client.c, discovery.c,
  push.c, gds_pull.c with part12.c) runs one command: it reads its flags, connects, calls services, prints one JSON
  document (output.c) and ends with an exit code. Values on the command line have a literal syntax
  of their own (values.c). pubsub_security.c gives the stack a PubSub security policy.

  \<^bold>\<open>Foundations.\<close>
  \<^item> Prelude: machine words, the result type, facts on lists and options. Libc: scanning and printing of numbers,
    string functions, calendar time, as glibc has them. Doubles: IEEE doubles, strtod and the \<open>%g\<close> formats.
  \<^item> Json_Text: the JSON grammar as an inductive predicate and its closure rules. CJson: parsed documents.
    Ua_Types: NodeIds, Variants, DataValues and status codes.
  \<^item> Traces: a computation that calls the stack is a state monad over the stack's state and the trace of the calls with
    their answers; \<open>runs P m Q\<close> and its rules are the program logic of all command and server proofs.

  \<^bold>\<open>Theories and sources.\<close> A C struct is a record, an enum a datatype, a function the definition of the same name;
  a function that prints is the text it prints, a function that fails has a sum type, and a pointer that
  may be NULL is an option. Long functions are split where the source has its numbered steps.
  \<^item> Base64, Values, Output: the codecs of values.c, server.c, client.c and output.c; the literals of
    values.c; the printers of output.c. Shown: decoders read every encoder's output back; parsed values are typed
    and parsing returns on every input; what is printed is JSON, NodeIds are read back, and the bounded
    printer stays inside its buffer.
  \<^item> Fixture, Server_Args, Server_Values, Server_Methods, History, Server_Files, Server_Nodes, Server_Run: fixture.c and
    server.c. Shown: exactly which documents load and what is loaded from them; the arguments round trip; initial values are typed; the contract of every method
    callback and the bounds of the ramp; the historian's invariant, and that paging returns every
    sample once; every node of the fixture is requested from the stack once, in order and as its entry describes it, and every
    behavior is installed on the node it names; the life
    cycle from the configuration to the shutdown, and that the readiness file appears only when the server runs.
  \<^item> PubSub_Security: pubsub_security.c. Shown: signed and encrypted messages are verified and decrypted, the keys are those
    of P_SHA256, and a context only ever holds keys of the lengths of its policy.
  \<^item> Client_Nodeid, Client_Services, Client_Connect, Client_Commands, Client_Sessions: the flags and NodeIds of client.c,
    the calls of the stack and their answers, connecting directly or in reverse, and read, write, browse
    and call. Shown: a client connects only with the security that was asked for and announced; waiting for a
    reverse connection ends; browse follows every continuation point; write sends exactly the values of the flags;
    every command prints one document, reports success exactly with exit code 0, and closes its session; and the only
    ways in which these commands can read what was never written.
  \<^item> Client_Discovery: endpoints, find-servers, translate (client.c), find-servers-on-network and register-server
    (discovery.c). Shown: the same about connections, and about documents as far as the texts a server announces, which are printed
    as they are, allow it; and when RegisterServer replaces RegisterServer2.
  \<^item> Part12_Json, Part12, Push, Gds_Pull: part12.c, push.c and gds_pull.c. Shown: the JSON builder stays inside its block and
    builds the document; a trust list is read completely and its handle closed; a push transaction is ended at most
    once and only while clean; a pull follows the protocol of the Directory, and polling ends.

  \<^bold>\<open>Interfaces.\<close> The locales \<open>text_codec\<close> and \<open>alphabet_codec\<close> (a printer and the parser that reads it back),
  \<open>json_printer\<close> and \<open>json_writer\<close> (printers and builder operations that yield JSON) and \<open>method_contract\<close> (what a method
  callback promises the stack) are interpreted on the definitions of the model, next to these.

  \<^bold>\<open>Specifications.\<close> What the code is held against is written apart from it: \<open>names\<close>, \<open>describes\<close> and \<open>scheduled\<close> (the texts, numbers and
  attributes a fixture entry stands for), \<open>describes_fixture\<close> (the members of the document), \<open>part14_key_length\<close>, \<open>p_hash\<close>,
  \<open>file_methods_found\<close> and \<open>gave_handle\<close> (what the answers of a file's methods mean), the grammar \<open>json_value\<close>.

  \<^bold>\<open>Parameters.\<close> The OPC UA stack, OpenSSL, cJSON, the files, the environment and the clock are not part of the
  sources: \<open>stack\<close> (names of status codes, calendar), \<open>stack_api\<close> (what a call answers), \<open>crypto\<close>, \<open>x509_lib\<close>, \<open>csr_lib\<close>,
  \<open>san_names\<close>, \<open>cjson_lib\<close>, \<open>file_system\<close> and the records of the environment. What a statement relies on of them is
  a hypothesis with a name: \<open>names_ok\<close> (status names are plain text), \<open>usual\<close> and \<open>clean_ret\<close> (a timeout is not good,
  identifiers hold no control characters, announced texts no quotes), \<open>clock\<close> (time does not run backwards).

  \<^bold>\<open>Rounds.\<close> A loop whose end depends on the peer or the clock takes a number of rounds and yields None when they
  are used up. \<open>reverse_connect_returns\<close>, \<open>gds_poll_returns\<close>, \<open>browse_complete\<close>, \<open>trust_list_read\<close> and \<open>server_becomes_ready\<close>
  give numbers that are enough; statements about the outcome of a command hold for every number with which it
  returns. Reading a C array beyond what was written, or an overflow of a signed product, is the outcome Undefined.

  \<^bold>\<open>Not modelled.\<close> Running out of memory: allocation succeeds. Lengths that are handed to OpenSSL as int are
  taken to fit. The commands subscribe, subscription-lifecycle, event-subscribe and
  alarms of client.c, whose results are made by callbacks inside the event loop of the stack; history-read, republish,
  transfer-subscriptions, register-nodes and node-management; history_events.c; main.c and the dispatch of
  \<open>client_run\<close>, which only choose a command by its name. codec.c, pubsub_codec.c and pubsub_server.c are
  mostly calls of the stack's encoders and of its PubSub configuration on generated types. The adapters
  for other stacks, the scripts, fixtures, schemas and certificates are other programs and data.
\<close>

end
